theory Spec2Isabelle
  imports Main "HOL-Library.Word"
begin

unbundle bit_operations_syntax

section \<open>Constants, wire codes and data\<close>

text \<open>
  The firmware core \<^verbatim>\<open>src/firmware/nand_programmer.c\<close>. The C integers
  \<^verbatim>\<open>uint8_t\<close> and \<^verbatim>\<open>uint32_t\<close> are words, so every sum, difference
  and product below wraps as in C. Return codes are the C \<^verbatim>\<open>int\<close> values.
\<close>

type_synonym u8 = "8 word"
type_synonym u32 = "32 word"

definition NP_PACKET_BUF_SIZE :: nat where
  "NP_PACKET_BUF_SIZE = 64"

definition NP_MAX_PAGE_SIZE :: nat where
  "NP_MAX_PAGE_SIZE = 2048"

definition NP_NAND_TIMEOUT :: u32 where
  "NP_NAND_TIMEOUT = 0x1000000"

definition NP_NAND_GOOD_BLOCK_MARK :: u8 where
  "NP_NAND_GOOD_BLOCK_MARK = 0xFF"

definition NP_CMD_NAND_READ_ID :: int where "NP_CMD_NAND_READ_ID = 0"
definition NP_CMD_NAND_ERASE :: int where "NP_CMD_NAND_ERASE = 1"
definition NP_CMD_NAND_READ :: int where "NP_CMD_NAND_READ = 2"
definition NP_CMD_NAND_WRITE_S :: int where "NP_CMD_NAND_WRITE_S = 3"
definition NP_CMD_NAND_WRITE_D :: int where "NP_CMD_NAND_WRITE_D = 4"
definition NP_CMD_NAND_WRITE_E :: int where "NP_CMD_NAND_WRITE_E = 5"
definition NP_CMD_NAND_SELECT :: int where "NP_CMD_NAND_SELECT = 6"
definition NP_CMD_NAND_READ_BB :: int where "NP_CMD_NAND_READ_BB = 7"
definition NP_CMD_NAND_LAST :: int where "NP_CMD_NAND_LAST = 8"

definition NP_ERR_INTERNAL :: int where "NP_ERR_INTERNAL = - 1"
definition NP_ERR_ADDR_EXCEEDED :: int where "NP_ERR_ADDR_EXCEEDED = - 100"
definition NP_ERR_ADDR_INVALID :: int where "NP_ERR_ADDR_INVALID = - 101"
definition NP_ERR_ADDR_NOT_ALIGN :: int where "NP_ERR_ADDR_NOT_ALIGN = - 102"
definition NP_ERR_NAND_WR :: int where "NP_ERR_NAND_WR = - 103"
definition NP_ERR_NAND_RD :: int where "NP_ERR_NAND_RD = - 104"
definition NP_ERR_NAND_ERASE :: int where "NP_ERR_NAND_ERASE = - 105"
definition NP_ERR_CHIP_NOT_SEL :: int where "NP_ERR_CHIP_NOT_SEL = - 106"
definition NP_ERR_CHIP_NOT_FOUND :: int where "NP_ERR_CHIP_NOT_FOUND = - 107"
definition NP_ERR_CMD_DATA_SIZE :: int where "NP_ERR_CMD_DATA_SIZE = - 108"
definition NP_ERR_CMD_INVALID :: int where "NP_ERR_CMD_INVALID = - 109"
definition NP_ERR_BUF_OVERFLOW :: int where "NP_ERR_BUF_OVERFLOW = - 110"
definition NP_ERR_LEN_NOT_ALIGN :: int where "NP_ERR_LEN_NOT_ALIGN = - 111"
definition NP_ERR_LEN_EXCEEDED :: int where "NP_ERR_LEN_EXCEEDED = - 112"
definition NP_ERR_LEN_INVALID :: int where "NP_ERR_LEN_INVALID = - 113"

text \<open>
  The receive buffer \<^verbatim>\<open>prog->rx_buf\<close>, which the handlers read through the packed
  structs \<^verbatim>\<open>np_cmd_t\<close>, \<^verbatim>\<open>np_erase_cmd_t\<close>, \<^verbatim>\<open>np_write_start_cmd_t\<close>,
  \<^verbatim>\<open>np_read_cmd_t\<close>, \<^verbatim>\<open>np_write_data_cmd_t\<close> and \<^verbatim>\<open>np_select_cmd_t\<close>. Each
  view is a group of fields here; a handler reads only the fields of its own view.
  \<open>rx_data\<close> holds the bytes of the buffer that follow the write-data header.
\<close>

record np_rx =
  rx_code :: int
  rx_addr :: u32
  rx_len :: u32
  rx_data_len :: u8
  rx_data :: "u8 list"
  rx_chip_num :: u32

text \<open>
  \<^verbatim>\<open>sizeof(np_write_data_cmd_t)\<close>: the packed struct holds the command code and the
  one-byte length. The code is an enum that fits one byte, which is what the target
  compiler gives it, so the header is two bytes, as the two-byte response header
  \<^verbatim>\<open>offsetof(np_resp_t, data)\<close> is.
\<close>

definition np_write_data_hdr_size :: nat where
  "np_write_data_hdr_size = 2"

definition np_resp_header_size :: nat where
  "np_resp_header_size = 2"

text \<open>The status values of the flash driver (\<^verbatim>\<open>fsmc_nand.h\<close>); \<open>NAND_OTHER\<close> is any
  value that is none of the four named ones.\<close>

datatype nand_status = NAND_READY | NAND_BUSY | NAND_ERROR | NAND_TIMEOUT_ERROR | NAND_OTHER

text \<open>The geometry of a chip (\<^verbatim>\<open>chip_info_t\<close> of \<^verbatim>\<open>chip_db.h\<close>): the three fields the
  core reads.\<close>

record chip_info =
  page_size :: u32
  block_size :: u32
  chip_size :: u32

text \<open>The responses handed to the transport's \<^verbatim>\<open>send\<close>.\<close>

datatype np_resp =
    RESP_OK
  | RESP_ERROR u8
  | RESP_BAD_BLOCK u32
  | RESP_WRITE_ACK u32
  | RESP_ID "u8 list"
  | RESP_DATA "u8 list"

text \<open>
  Every call that leaves the core is an event of the trace, in program order, with the
  value the callee returned where the core reads one: transport sends and readiness
  queries, flash driver calls, chip directory and bad block table calls, the two
  activity indicators, and the messages of \<^verbatim>\<open>ERROR_PRINT\<close> (with their format text
  and arguments). The \<^verbatim>\<open>DEBUG_PRINT\<close> diagnostics are not recorded.
\<close>

datatype event =
    Send np_resp
  | Send_ready bool
  | Nand_read_id
  | Nand_erase_block u32 nand_status
  | Nand_read_page u32 u32 nand_status
  | Nand_write_page_async "u8 list" u32 u32
  | Nand_read_status nand_status
  | Nand_read_data u32 u32 u32 nand_status
  | Nand_init
  | Bad_block_table_init
  | Bad_block_table_add u32
  | Chip_select u32
  | Led_rd_set bool
  | Led_wr_set bool
  | Error_print string "u32 list"

text \<open>
  The world outside the core. What a callee returns is read from a reply function at
  the position of the call in the trace, so that any behaviour of the hardware and of
  the transport is some world: \<open>nand_reply\<close> is the status a flash driver call
  returns, \<open>nand_data_reply\<close> the bytes it reads, \<open>send_fails\<close> whether a
  \<^verbatim>\<open>send\<close> returns non-zero, \<open>send_ready_reply\<close> what \<^verbatim>\<open>send_ready\<close> returns,
  \<open>bad_block_add_fails\<close> whether \<^verbatim>\<open>nand_bad_block_table_add\<close> returns non-zero.
  \<open>chip_db\<close> is the chip directory, \<open>chip_selected\<close> the geometry that
  \<^verbatim>\<open>chip_info_selected_get\<close> returns, \<open>bad_block_table\<close> the addresses held by
  the bad block table. A transport is registered: \<^verbatim>\<open>np_packet_handler\<close> calls through
  \<^verbatim>\<open>np_comm_cb\<close> before any command is handled.
\<close>

record world =
  trace :: "event list"
  nand_reply :: "nat \<Rightarrow> nand_status"
  nand_data_reply :: "nat \<Rightarrow> u8 list"
  send_fails :: "nat \<Rightarrow> bool"
  send_ready_reply :: "nat \<Rightarrow> bool"
  bad_block_add_fails :: "nat \<Rightarrow> bool"
  chip_db :: "u32 \<Rightarrow> chip_info option"
  chip_selected :: "chip_info option"
  bad_block_table :: "u32 list"

text \<open>The session state \<^verbatim>\<open>np_prog_t\<close>; \<open>page_buf\<close>, \<open>page_page\<close> and
  \<open>page_offset\<close> are the fields of its \<^verbatim>\<open>np_page_t page\<close>. The receive buffer is
  passed to the handlers as an argument.\<close>

record np_prog =
  addr :: u32
  len :: u32
  addr_is_set :: bool
  page_buf :: "u8 list"
  page_page :: u32
  page_offset :: u32
  bytes_written :: u32
  bytes_ack :: u32
  nand_wr_in_progress :: bool
  nand_timeout :: u32
  chip_info :: "chip_info option"

section \<open>External calls\<close>

definition emit :: "event \<Rightarrow> world \<Rightarrow> world" where
  "emit e w = w\<lparr>trace := trace w @ [e]\<rparr>"

definition error_print :: "string \<Rightarrow> u32 list \<Rightarrow> world \<Rightarrow> world" where
  "error_print msg args w = emit (Error_print msg args) w"

definition comm_send :: "np_resp \<Rightarrow> world \<Rightarrow> bool \<times> world" where
  "comm_send r w = (send_fails w (length (trace w)), emit (Send r) w)"

definition nand_read_status :: "world \<Rightarrow> nand_status \<times> world" where
  "nand_read_status w =
     (let st = nand_reply w (length (trace w)) in (st, emit (Nand_read_status st) w))"

definition nand_erase_block :: "u32 \<Rightarrow> world \<Rightarrow> nand_status \<times> world" where
  "nand_erase_block pg w =
     (let st = nand_reply w (length (trace w)) in (st, emit (Nand_erase_block pg st) w))"

text \<open>The page write takes the buffer and a byte count: the event holds the bytes handed
  over.\<close>

definition nand_write_page_async :: "u8 list \<Rightarrow> u32 \<Rightarrow> u32 \<Rightarrow> world \<Rightarrow> world" where
  "nand_write_page_async buf pg n w = emit (Nand_write_page_async (take (unat n) buf) pg n) w"

text \<open>\<^verbatim>\<open>memcpy(dst + doff, src + soff, n)\<close>; \<open>None\<close> when the copy would leave either
  object, where C gives it no meaning.\<close>

definition memcpy :: "u8 list \<Rightarrow> nat \<Rightarrow> u8 list \<Rightarrow> nat \<Rightarrow> nat \<Rightarrow> u8 list option" where
  "memcpy dst doff src soff n =
     (if doff + n \<le> length dst \<and> soff + n \<le> length src
      then Some (take doff dst @ take n (drop soff src) @ drop (doff + n) dst)
      else None)"

section \<open>Responses\<close>

definition np_send_ok_status :: "world \<Rightarrow> int \<times> world" where
  "np_send_ok_status w = (0, snd (comm_send RESP_OK w))"

definition np_send_error :: "u8 \<Rightarrow> world \<Rightarrow> int \<times> world" where
  "np_send_error err_code w = (0, snd (comm_send (RESP_ERROR err_code) w))"

definition np_send_bad_block_info :: "u32 \<Rightarrow> world \<Rightarrow> int \<times> world" where
  "np_send_bad_block_info a w =
     (case comm_send (RESP_BAD_BLOCK a) w of (failed, w') \<Rightarrow> (if failed then - 1 else 0, w'))"

definition np_send_write_ack :: "u32 \<Rightarrow> world \<Rightarrow> int \<times> world" where
  "np_send_write_ack n w =
     (case comm_send (RESP_WRITE_ACK n) w of (failed, w') \<Rightarrow> (if failed then - 1 else 0, w'))"

section \<open>Write: start, data, end\<close>

text \<open>
  A handler returns \<open>Some (ret, prog', w')\<close>, or \<open>None\<close> where the C function has no
  result: it dereferences the null geometry, copies outside a buffer, divides by zero,
  or never returns.
\<close>

definition np_cmd_nand_write_start ::
  "np_prog \<Rightarrow> world \<Rightarrow> np_rx \<Rightarrow> (int \<times> np_prog \<times> world) option" where
  "np_cmd_nand_write_start prog w rx =
     (case chip_info prog of None \<Rightarrow> None | Some ci \<Rightarrow>
        let a = rx_addr rx; l = rx_len rx in
        if a + l > chip_size ci then
          Some (NP_ERR_ADDR_EXCEEDED, prog,
            error_print ''Write address 0x%lx+0x%lx is more then chip size 0x%lx''
              [a, l, chip_size ci] w)
        else if a AND (page_size ci - 1) \<noteq> 0 then
          Some (NP_ERR_ADDR_NOT_ALIGN, prog,
            error_print ''Address 0x%lx is not aligned to page size 0x%lx''
              [a, page_size ci] w)
        else if l = 0 then
          Some (NP_ERR_LEN_INVALID, prog, error_print ''Length is 0'' [] w)
        else if l AND (page_size ci - 1) \<noteq> 0 then
          Some (NP_ERR_ADDR_NOT_ALIGN, prog,
            error_print ''Length 0x%lx is not aligned to page size 0x%lx''
              [l, page_size ci] w)
        else if page_size ci = 0 then None
        else
          (case np_send_ok_status w of (r, w') \<Rightarrow>
             Some (r,
               prog\<lparr>addr := a, len := l, addr_is_set := True,
                 page_page := a div page_size ci, page_offset := 0,
                 bytes_written := 0, bytes_ack := 0\<rparr>, w')))"

definition np_nand_handle_status :: "np_prog \<Rightarrow> world \<Rightarrow> int \<times> np_prog \<times> world" where
  "np_nand_handle_status prog w =
     (case nand_read_status w of (st, w1) \<Rightarrow>
        (case st of
           NAND_ERROR \<Rightarrow>
             (case np_send_bad_block_info (addr prog) w1 of (r, w2) \<Rightarrow>
                if r \<noteq> 0 then (- 1, prog, w2)
                else (0, prog\<lparr>nand_wr_in_progress := False, nand_timeout := 0\<rparr>, w2))
         | NAND_READY \<Rightarrow>
             (0, prog\<lparr>nand_wr_in_progress := False, nand_timeout := 0\<rparr>, w1)
         | NAND_BUSY \<Rightarrow>
             (let prog1 = prog\<lparr>nand_timeout := nand_timeout prog + 1\<rparr> in
              if nand_timeout prog1 = NP_NAND_TIMEOUT then
                (- 1, prog1\<lparr>nand_wr_in_progress := False, nand_timeout := 0\<rparr>,
                  error_print ''NAND write timeout at 0x%lx'' [addr prog1] w1)
              else (0, prog1, w1))
         | _ \<Rightarrow>
             (- 1, prog\<lparr>nand_wr_in_progress := False, nand_timeout := 0\<rparr>,
               error_print ''Unknown NAND status'' [] w1)))"

text \<open>The \<^verbatim>\<open>do ... while (prog->nand_wr_in_progress)\<close> loop of \<^verbatim>\<open>np_nand_write\<close>.\<close>

function np_nand_write_wait :: "np_prog \<Rightarrow> world \<Rightarrow> int \<times> np_prog \<times> world" where
  "np_nand_write_wait prog w =
     (case np_nand_handle_status prog w of (r, prog', w') \<Rightarrow>
        if r \<noteq> 0 then (- 1, prog', w')
        else if nand_wr_in_progress prog' then np_nand_write_wait prog' w'
        else (0, prog', w'))"
  by pat_completeness auto
termination np_nand_write_wait
proof -
  have dec: "unat (NP_NAND_TIMEOUT - 1 - (t + 1)) < unat (NP_NAND_TIMEOUT - 1 - t)"
    if a: "t + 1 \<noteq> NP_NAND_TIMEOUT" for t :: u32
  proof -
    define x where "x = NP_NAND_TIMEOUT - 1 - t"
    have "x \<noteq> 0"
      using a unfolding x_def by (metis diff_add_cancel eq_iff_diff_eq_0)
    then have "unat (x - 1) < unat x"
      by (simp add: unat_minus_one unat_gt_0)
    moreover have "NP_NAND_TIMEOUT - 1 - (t + 1) = x - 1"
      by (simp add: x_def)
    ultimately show ?thesis
      by (simp add: x_def)
  qed
  show ?thesis
    apply (relation "measure (\<lambda>(prog, w). unat (NP_NAND_TIMEOUT - 1 - nand_timeout prog))")
     apply simp
    using dec
    apply (auto simp: np_nand_handle_status_def nand_read_status_def Let_def
        np_send_bad_block_info_def comm_send_def
        split: nand_status.splits prod.splits if_splits)
    done
qed

definition np_nand_write :: "np_prog \<Rightarrow> chip_info \<Rightarrow> world \<Rightarrow> int \<times> np_prog \<times> world" where
  "np_nand_write prog ci w =
     (case (if nand_wr_in_progress prog then np_nand_write_wait prog w else (0, prog, w)) of
        (r, prog1, w1) \<Rightarrow>
          if r \<noteq> 0 then (- 1, prog1, w1)
          else (0, prog1\<lparr>nand_wr_in_progress := True\<rparr>,
                 nand_write_page_async (page_buf prog1) (page_page prog1) (page_size ci) w1))"

text \<open>Lines 511 to 534 of \<^verbatim>\<open>np_cmd_nand_write_data\<close>: what follows the page commit.
  \<open>l\<close> is the fragment length, \<open>write_len\<close> the part copied before the commit.\<close>

definition np_cmd_nand_write_data_rest ::
  "np_prog \<Rightarrow> chip_info \<Rightarrow> world \<Rightarrow> np_rx \<Rightarrow> u32 \<Rightarrow> u32 \<Rightarrow> (int \<times> np_prog \<times> world) option" where
  "np_cmd_nand_write_data_rest prog ci w rx l write_len =
     (let bytes_left = l - write_len in
      case (if bytes_left \<noteq> 0
            then map_option (\<lambda>buf. prog\<lparr>page_buf := buf,
                     page_offset := page_offset prog + bytes_left\<rparr>)
                   (memcpy (page_buf prog) 0 (rx_data rx) (unat write_len) (unat bytes_left))
            else Some prog) of
        None \<Rightarrow> None
      | Some prog1 \<Rightarrow>
          let prog2 = prog1\<lparr>bytes_written := bytes_written prog1 + l\<rparr> in
          case (if bytes_written prog2 - bytes_ack prog2 \<ge> page_size ci \<or>
                   bytes_written prog2 = len prog2
                then (case np_send_write_ack (bytes_written prog2) w of (r, w1) \<Rightarrow>
                        (r, if r \<noteq> 0 then prog2
                            else prog2\<lparr>bytes_ack := bytes_written prog2\<rparr>, w1))
                else (0, prog2, w)) of
            (r, prog3, w1) \<Rightarrow>
              if r \<noteq> 0 then Some (- 1, prog3, w1)
              else if bytes_written prog3 > len prog3 then
                Some (NP_ERR_LEN_EXCEEDED, prog3,
                  error_print ''Actual write data length 0x%lx is more then 0x%lx''
                    [bytes_written prog3, len prog3] w1)
              else Some (0, prog3, w1))"

definition np_cmd_nand_write_data ::
  "np_prog \<Rightarrow> world \<Rightarrow> np_rx \<Rightarrow> (int \<times> np_prog \<times> world) option" where
  "np_cmd_nand_write_data prog w rx =
     (let l = (ucast (rx_data_len rx) :: u32) in
      if unat l + np_write_data_hdr_size > NP_PACKET_BUF_SIZE then
        Some (NP_ERR_CMD_DATA_SIZE, prog, error_print ''Data size is wrong 0x%lx'' [l] w)
      else if \<not> addr_is_set prog then
        Some (NP_ERR_ADDR_INVALID, prog, error_print ''Write address is not set'' [] w)
      else
        (case chip_info prog of None \<Rightarrow> None | Some ci \<Rightarrow>
           if addr prog \<ge> chip_size ci then
             Some (NP_ERR_ADDR_EXCEEDED, prog,
               error_print ''Write address 0x%lx is more then chip size 0x%lx''
                 [addr prog, chip_size ci] w)
           else
             let write_len = (if page_offset prog + l > page_size ci
                              then page_size ci - page_offset prog else l) in
             (case memcpy (page_buf prog) (unat (page_offset prog)) (rx_data rx) 0
                     (unat write_len) of
                None \<Rightarrow> None
              | Some buf \<Rightarrow>
                  let prog1 = prog\<lparr>page_buf := buf,
                                page_offset := page_offset prog + write_len\<rparr> in
                  if page_offset prog1 = page_size ci then
                    (case np_nand_write prog1 ci w of (r, prog2, w2) \<Rightarrow>
                       if r \<noteq> 0 then Some (NP_ERR_NAND_WR, prog2, w2)
                       else
                         np_cmd_nand_write_data_rest
                           (prog2\<lparr>addr := addr prog2 + page_size ci,
                              page_page := page_page prog2 + 1, page_offset := 0\<rparr>)
                           ci w2 rx l write_len)
                  else np_cmd_nand_write_data_rest prog1 ci w rx l write_len)))"

definition np_cmd_nand_write_end :: "np_prog \<Rightarrow> world \<Rightarrow> int \<times> np_prog \<times> world" where
  "np_cmd_nand_write_end prog w =
     (let prog1 = prog\<lparr>addr_is_set := False\<rparr> in
      if page_offset prog1 \<noteq> 0 then
        (NP_ERR_NAND_WR, prog1,
          error_print ''Data of 0x%lx length was not written'' [page_offset prog1] w)
      else (case np_send_ok_status w of (r, w') \<Rightarrow> (r, prog1, w')))"

definition np_cmd_nand_write ::
  "np_prog \<Rightarrow> world \<Rightarrow> np_rx \<Rightarrow> (int \<times> np_prog \<times> world) option" where
  "np_cmd_nand_write prog w rx =
     (if rx_code rx = NP_CMD_NAND_WRITE_S then
        np_cmd_nand_write_start prog (emit (Led_wr_set True) w) rx
      else if rx_code rx = NP_CMD_NAND_WRITE_D then
        np_cmd_nand_write_data prog w rx
      else if rx_code rx = NP_CMD_NAND_WRITE_E then
        (case np_cmd_nand_write_end prog w of (r, prog', w') \<Rightarrow>
           Some (r, prog', emit (Led_wr_set False) w'))
      else Some (0, prog, w))"

section \<open>Erase\<close>

text \<open>Modelled from the spec: the bad block table of \<^verbatim>\<open>nand_bad_block.c\<close>, which is not
  among the sources: an address-keyed membership set, looked up during erase, cleared
  on chip select and appended to by the scan.\<close>

definition nand_bad_block_table_lookup :: "u32 \<Rightarrow> world \<Rightarrow> bool" where
  "nand_bad_block_table_lookup a w = (a \<in> set (bad_block_table w))"

definition nand_bad_block_table_init :: "world \<Rightarrow> world" where
  "nand_bad_block_table_init w = (emit Bad_block_table_init w)\<lparr>bad_block_table := []\<rparr>"

definition nand_bad_block_table_add :: "u32 \<Rightarrow> world \<Rightarrow> bool \<times> world" where
  "nand_bad_block_table_add a w =
     (if bad_block_add_fails w (length (trace w))
      then (True, emit (Bad_block_table_add a) w)
      else (False, (emit (Bad_block_table_add a) w)\<lparr>bad_block_table := bad_block_table w @ [a]\<rparr>))"

definition np_nand_erase :: "chip_info \<Rightarrow> u32 \<Rightarrow> world \<Rightarrow> int \<times> world" where
  "np_nand_erase ci pg w =
     (let a = pg * page_size ci in
      case nand_erase_block pg w of (st, w1) \<Rightarrow>
        (case st of
           NAND_READY \<Rightarrow> (0, w1)
         | NAND_ERROR \<Rightarrow>
             (case np_send_bad_block_info a w1 of (r, w2) \<Rightarrow>
                if r \<noteq> 0 then (- 1, w2) else (0, w2))
         | NAND_TIMEOUT_ERROR \<Rightarrow> (0, error_print ''NAND erase timeout at 0x%lx'' [a] w1)
         | _ \<Rightarrow> (- 1, error_print ''Unknown NAND status'' [] w1)))"

text \<open>The \<^verbatim>\<open>while (len)\<close> loop of \<^verbatim>\<open>_np_cmd_nand_erase\<close>: \<open>cmd_len\<close> is
  \<^verbatim>\<open>erase_cmd->len\<close>, and \<open>a\<close>, \<open>pg\<close> and \<open>l\<close> are the loop's \<^verbatim>\<open>addr\<close>,
  \<^verbatim>\<open>page\<close> and \<^verbatim>\<open>len\<close>. The loop need not end on every geometry, so \<open>None\<close> is
  also the run that never returns.\<close>

partial_function (option) np_erase_loop ::
  "chip_info \<Rightarrow> u32 \<Rightarrow> u32 \<Rightarrow> u32 \<Rightarrow> u32 \<Rightarrow> u32 \<Rightarrow> world \<Rightarrow> (int \<times> world) option" where
  "np_erase_loop ci cmd_len pages_in_block a pg l w =
     (if l = 0 then Some (np_send_ok_status w)
      else if a \<ge> chip_size ci then
        Some (NP_ERR_ADDR_EXCEEDED,
          error_print ''Erase address 0x%lx is more then chip size 0x%lx''
            [a, chip_size ci] w)
      else
        let is_bad = nand_bad_block_table_lookup a w in
        case (if is_bad then np_send_bad_block_info a w else (0, w)) of (r1, w1) \<Rightarrow>
          if r1 \<noteq> 0 then Some (- 1, w1)
          else
            case (if \<not> is_bad then np_nand_erase ci pg w1 else (0, w1)) of (r2, w2) \<Rightarrow>
              if r2 \<noteq> 0 then Some (NP_ERR_NAND_ERASE, w2)
              else
                np_erase_loop ci cmd_len pages_in_block
                  (a + block_size ci) (pg + pages_in_block)
                  (if \<not> is_bad \<or> (is_bad \<and> cmd_len = chip_size ci)
                   then l - block_size ci else l)
                  w2)"

text \<open>\<^verbatim>\<open>_np_cmd_nand_erase\<close> and its wrapper.\<close>

definition np_cmd_nand_erase_inner ::
  "np_prog \<Rightarrow> world \<Rightarrow> np_rx \<Rightarrow> (int \<times> np_prog \<times> world) option" where
  "np_cmd_nand_erase_inner prog w rx =
     (case chip_info prog of None \<Rightarrow> None | Some ci \<Rightarrow>
        let l = rx_len rx; a = rx_addr rx in
        if a AND (block_size ci - 1) \<noteq> 0 then
          Some (NP_ERR_ADDR_NOT_ALIGN, prog,
            error_print ''Address 0x%lx is not aligned to block size 0x%lx''
              [a, block_size ci] w)
        else if l = 0 then
          Some (NP_ERR_LEN_INVALID, prog, error_print ''Length is 0'' [] w)
        else if l AND (block_size ci - 1) \<noteq> 0 then
          Some (NP_ERR_LEN_NOT_ALIGN, prog,
            error_print ''Length 0x%lx is not aligned to block size 0x%lx''
              [l, block_size ci] w)
        else if a + l > chip_size ci then
          Some (NP_ERR_ADDR_EXCEEDED, prog,
            error_print
              ''Erase address exceded 0x%lx+0x%lx is more then chip size 0x%lx''
              [a, l, chip_size ci] w)
        else if page_size ci = 0 then None
        else
          map_option (\<lambda>(r, w'). (r, prog, w'))
            (np_erase_loop ci (rx_len rx) (block_size ci div page_size ci)
               a (a div page_size ci) l w))"

definition np_cmd_nand_erase ::
  "np_prog \<Rightarrow> world \<Rightarrow> np_rx \<Rightarrow> (int \<times> np_prog \<times> world) option" where
  "np_cmd_nand_erase prog w rx =
     map_option (\<lambda>(r, prog', w'). (r, prog', emit (Led_wr_set False) w'))
       (np_cmd_nand_erase_inner prog (emit (Led_wr_set True) w) rx)"

section \<open>Read ID, read, chip select, bad block scan\<close>

text \<open>The bytes a driver call leaves in the buffer it is given: the reply of the world
  at the call, cut or padded with zeros to the \<open>n\<close> bytes asked for.\<close>

definition nand_bytes :: "nat \<Rightarrow> world \<Rightarrow> u8 list" where
  "nand_bytes n w = take n (nand_data_reply w (length (trace w)) @ replicate n 0)"

definition np_cmd_nand_read_id_inner :: "np_prog \<Rightarrow> world \<Rightarrow> int \<times> np_prog \<times> world" where
  "np_cmd_nand_read_id_inner prog w =
     (let w1 = emit Nand_read_id w in
      (0, prog, snd (comm_send (RESP_ID (nand_data_reply w (length (trace w)))) w1)))"

definition np_cmd_nand_read_id ::
  "np_prog \<Rightarrow> world \<Rightarrow> np_rx \<Rightarrow> (int \<times> np_prog \<times> world) option" where
  "np_cmd_nand_read_id prog w rx =
     (case np_cmd_nand_read_id_inner prog (emit (Led_rd_set True) w) of (r, prog', w') \<Rightarrow>
        Some (r, prog', emit (Led_rd_set False) w'))"

text \<open>\<^verbatim>\<open>np_nand_read\<close>: the result holds the first \<open>page_size\<close> bytes of the page
  buffer after the driver call.\<close>

definition np_nand_read :: "u32 \<Rightarrow> u32 \<Rightarrow> chip_info \<Rightarrow> world \<Rightarrow> int \<times> u8 list \<times> world" where
  "np_nand_read a pg ci w =
     (let st = nand_reply w (length (trace w));
          buf = nand_bytes (unat (page_size ci)) w;
          w1 = emit (Nand_read_page pg (page_size ci) st) w in
      case st of
        NAND_READY \<Rightarrow> (0, buf, w1)
      | NAND_ERROR \<Rightarrow>
          (case np_send_bad_block_info a w1 of (r, w2) \<Rightarrow>
             (if r \<noteq> 0 then - 1 else 0, buf, w2))
      | NAND_TIMEOUT_ERROR \<Rightarrow>
          (0, buf, error_print ''NAND write timeout at 0x%lx'' [a] w1)
      | _ \<Rightarrow> (- 1, buf, error_print ''Unknown NAND status'' [] w1))"

text \<open>\<^verbatim>\<open>while (!np_comm_cb->send_ready());\<close>\<close>

partial_function (option) np_wait_send_ready :: "world \<Rightarrow> world option" where
  "np_wait_send_ready w =
     (let r = send_ready_reply w (length (trace w)); w' = emit (Send_ready r) w in
      if r then Some w' else np_wait_send_ready w')"

text \<open>The inner loop of \<^verbatim>\<open>_np_cmd_nand_read\<close>, which streams one page; \<open>off\<close> and
  \<open>l\<close> are \<^verbatim>\<open>page.offset\<close> and \<^verbatim>\<open>len\<close>, which it returns with the return code.\<close>

partial_function (option) np_read_send_loop ::
  "chip_info \<Rightarrow> u8 list \<Rightarrow> u32 \<Rightarrow> u32 \<Rightarrow> world \<Rightarrow> (int \<times> u32 \<times> u32 \<times> world) option" where
  "np_read_send_loop ci buf off l w =
     (if off < page_size ci \<and> l \<noteq> 0 then
        let tx_data_len = (of_nat (NP_PACKET_BUF_SIZE - np_resp_header_size) :: u32);
            write_len0 = (if page_size ci - off \<ge> tx_data_len then tx_data_len
                          else page_size ci - off);
            write_len = (if write_len0 > l then l else write_len0) in
        if unat off + unat write_len > length buf then None
        else
          Option.bind (np_wait_send_ready w) (\<lambda>w1.
            case comm_send (RESP_DATA (take (unat write_len) (drop (unat off) buf))) w1 of
              (failed, w2) \<Rightarrow>
                if failed then Some (- 1, off, l, w2)
                else np_read_send_loop ci buf (off + write_len) (l - write_len) w2)
      else Some (0, off, l, w))"

text \<open>The outer \<^verbatim>\<open>while (len)\<close> loop of \<^verbatim>\<open>_np_cmd_nand_read\<close>.\<close>

partial_function (option) np_read_loop ::
  "chip_info \<Rightarrow> u32 \<Rightarrow> u32 \<Rightarrow> u32 \<Rightarrow> u32 \<Rightarrow> world \<Rightarrow> (int \<times> world) option" where
  "np_read_loop ci a pg off l w =
     (if l = 0 then Some (0, w)
      else if unat (page_size ci) > NP_MAX_PAGE_SIZE then None
      else
        case np_nand_read a pg ci w of (r, buf, w1) \<Rightarrow>
          if r \<noteq> 0 then Some (NP_ERR_NAND_RD, w1)
          else
            Option.bind (np_read_send_loop ci buf off l w1) (\<lambda>(r2, off2, l2, w2).
              if r2 \<noteq> 0 then Some (- 1, w2)
              else if l2 \<noteq> 0 then
                (if a + page_size ci \<ge> chip_size ci then
                   Some (NP_ERR_ADDR_EXCEEDED,
                     error_print ''Read address 0x%lx is more then chip size 0x%lx''
                       [a + page_size ci, page_size ci] w2)
                 else np_read_loop ci (a + page_size ci) (pg + 1) 0 l2 w2)
              else np_read_loop ci a pg off2 l2 w2))"

definition np_cmd_nand_read_inner ::
  "np_prog \<Rightarrow> world \<Rightarrow> np_rx \<Rightarrow> (int \<times> np_prog \<times> world) option" where
  "np_cmd_nand_read_inner prog w rx =
     (case chip_info prog of None \<Rightarrow> None | Some ci \<Rightarrow>
        let a = rx_addr rx; l = rx_len rx in
        if a + l > chip_size ci then
          Some (NP_ERR_ADDR_EXCEEDED, prog,
            error_print ''Read address 0x%lx+0x%lx is more then chip size 0x%lx''
              [a, l, chip_size ci] w)
        else if a AND (page_size ci - 1) \<noteq> 0 then
          Some (NP_ERR_ADDR_NOT_ALIGN, prog,
            error_print ''Read address 0x%lx is not aligned to page size 0x%lx''
              [a, page_size ci] w)
        else if l = 0 then
          Some (NP_ERR_LEN_INVALID, prog, error_print ''Length is 0'' [] w)
        else if l AND (page_size ci - 1) \<noteq> 0 then
          Some (NP_ERR_LEN_NOT_ALIGN, prog,
            error_print ''Read length 0x%lx is not aligned to page size 0x%lx''
              [l, page_size ci] w)
        else if page_size ci = 0 then None
        else
          map_option (\<lambda>(r, w'). (r, prog, w'))
            (np_read_loop ci a (a div page_size ci) 0 l w))"

definition np_cmd_nand_read ::
  "np_prog \<Rightarrow> world \<Rightarrow> np_rx \<Rightarrow> (int \<times> np_prog \<times> world) option" where
  "np_cmd_nand_read prog w rx =
     map_option (\<lambda>(r, prog', w'). (r, prog', emit (Led_rd_set False) w'))
       (np_cmd_nand_read_inner prog (emit (Led_rd_set True) w) rx)"

text \<open>Modelled from the spec: \<^verbatim>\<open>chip_select\<close> of the chip directory \<^verbatim>\<open>chip_db.c\<close>,
  which is not among the sources: it resolves a chip index to a geometry or fails.\<close>

definition chip_select :: "u32 \<Rightarrow> world \<Rightarrow> bool \<times> world" where
  "chip_select n w =
     (case chip_db w n of
        None \<Rightarrow> (True, emit (Chip_select n) w)
      | Some ci \<Rightarrow> (False, (emit (Chip_select n) w)\<lparr>chip_selected := Some ci\<rparr>))"

definition np_cmd_nand_select ::
  "np_prog \<Rightarrow> world \<Rightarrow> np_rx \<Rightarrow> (int \<times> np_prog \<times> world) option" where
  "np_cmd_nand_select prog w rx =
     (case chip_select (rx_chip_num rx) w of (failed, w1) \<Rightarrow>
        if \<not> failed then
          (let w2 = nand_bad_block_table_init (emit Nand_init w1) in
           case np_send_ok_status w2 of (r, w3) \<Rightarrow>
             Some (r, prog\<lparr>chip_info := chip_selected w2\<rparr>, w3))
        else
          Some (NP_ERR_CHIP_NOT_FOUND, prog\<lparr>chip_info := None\<rparr>,
            error_print ''Chip ID %lu not found'' [rx_chip_num rx] w1))"

text \<open>\<^verbatim>\<open>np_read_bad_block_info_from_page\<close>: the result holds \<^verbatim>\<open>*is_bad\<close>, which
  keeps the value \<open>is_bad\<close> it had where the function returns before it is assigned.\<close>

definition np_read_bad_block_info_from_page ::
  "u32 \<Rightarrow> u32 \<Rightarrow> chip_info \<Rightarrow> bool \<Rightarrow> world \<Rightarrow> int \<times> bool \<times> world" where
  "np_read_bad_block_info_from_page block pg ci is_bad w =
     (let a = block * block_size ci;
          st = nand_reply w (length (trace w));
          bad_block_data = hd (nand_bytes 1 w);
          w1 = emit (Nand_read_data pg (page_size ci) 1 st) w in
      case st of
        NAND_READY \<Rightarrow>
          if bad_block_data \<noteq> NP_NAND_GOOD_BLOCK_MARK then
            (case np_send_bad_block_info a w1 of (r, w2) \<Rightarrow>
               if r \<noteq> 0 then (- 1, True, w2)
               else (case nand_bad_block_table_add a w2 of (failed, w3) \<Rightarrow>
                       (if failed then - 1 else 0, True, w3)))
          else (0, False, w1)
      | NAND_ERROR \<Rightarrow>
          (NP_ERR_NAND_RD, is_bad,
            error_print ''NAND read bad block info error at 0x%lx'' [a] w1)
      | NAND_TIMEOUT_ERROR \<Rightarrow>
          (NP_ERR_NAND_RD, is_bad, error_print ''NAND read timeout at 0x%lx'' [a] w1)
      | _ \<Rightarrow> (NP_ERR_NAND_RD, is_bad, error_print ''Unknown NAND status'' [] w1))"

text \<open>The \<^verbatim>\<open>for\<close> loop of \<^verbatim>\<open>_np_cmd_read_bad_blocks\<close>.\<close>

function np_read_bad_blocks_loop ::
  "chip_info \<Rightarrow> u32 \<Rightarrow> u32 \<Rightarrow> u32 \<Rightarrow> bool \<Rightarrow> world \<Rightarrow> int \<times> world" where
  "np_read_bad_blocks_loop ci block_num page_num block is_bad w =
     (if block < block_num then
        let pg = block * page_num in
        case np_read_bad_block_info_from_page block pg ci is_bad w of (r1, is_bad1, w1) \<Rightarrow>
          if r1 \<noteq> 0 then (- 1, w1)
          else
            case (if \<not> is_bad1
                  then np_read_bad_block_info_from_page block (pg + 1) ci is_bad1 w1
                  else (0, is_bad1, w1)) of (r2, is_bad2, w2) \<Rightarrow>
              if r2 \<noteq> 0 then (- 1, w2)
              else np_read_bad_blocks_loop ci block_num page_num (block + 1) is_bad2 w2
      else np_send_ok_status w)"
  by pat_completeness auto

termination np_read_bad_blocks_loop
proof (relation "measure (\<lambda>(ci, block_num, page_num, block, is_bad, w).
                   unat block_num - unat block)")
  show "wf (measure (\<lambda>(ci, block_num, page_num, block, is_bad, w).
               unat block_num - unat block))"
    by simp
next
  fix ci :: chip_info and block_num page_num block :: u32 and is_bad :: bool and w :: world
    and is_bad2 :: bool and w2 :: world
  assume lt: "block < block_num"
  have "unat block < unat block_num"
    using lt by (simp add: word_less_nat_alt)
  moreover have "unat block_num < 2 ^ 32"
    using unsigned_less [of block_num, where ?'a = nat] by simp
  ultimately have "unat block + unat (1 :: u32) < 2 ^ LENGTH(32)"
    by simp
  then have "unat (block + 1) = unat block + unat (1 :: u32)"
    by (simp only: unat_add_lem)
  with \<open>unat block < unat block_num\<close>
  show "((ci, block_num, page_num, block + 1, is_bad2, w2),
      ci, block_num, page_num, block, is_bad, w)
    \<in> measure (\<lambda>(ci, block_num, page_num, block, is_bad, w). unat block_num - unat block)"
    by simp
qed

text \<open>\<^verbatim>\<open>_np_cmd_read_bad_blocks\<close>; \<^verbatim>\<open>is_bad\<close> is not initialised in C and is
  assigned before it is read.\<close>

definition np_cmd_read_bad_blocks_inner ::
  "np_prog \<Rightarrow> world \<Rightarrow> np_rx \<Rightarrow> (int \<times> np_prog \<times> world) option" where
  "np_cmd_read_bad_blocks_inner prog w rx =
     (case chip_info prog of None \<Rightarrow> None | Some ci \<Rightarrow>
        if block_size ci = 0 \<or> page_size ci = 0 then None
        else
          (case np_read_bad_blocks_loop ci (chip_size ci div block_size ci)
                  (block_size ci div page_size ci) 0 False w of (r, w') \<Rightarrow>
             Some (r, prog, w')))"

definition np_cmd_read_bad_blocks ::
  "np_prog \<Rightarrow> world \<Rightarrow> np_rx \<Rightarrow> (int \<times> np_prog \<times> world) option" where
  "np_cmd_read_bad_blocks prog w rx =
     map_option (\<lambda>(r, prog', w'). (r, prog', emit (Led_rd_set False) w'))
       (np_cmd_read_bad_blocks_inner prog (emit (Led_rd_set True) w) rx)"

section \<open>Dispatch\<close>

text \<open>The table \<^verbatim>\<open>cmd_handler\<close>, indexed by a valid command code.\<close>

definition cmd_handler ::
  "int \<Rightarrow> np_prog \<Rightarrow> world \<Rightarrow> np_rx \<Rightarrow> (int \<times> np_prog \<times> world) option" where
  "cmd_handler code =
     (if code = NP_CMD_NAND_READ_ID then np_cmd_nand_read_id
      else if code = NP_CMD_NAND_ERASE then np_cmd_nand_erase
      else if code = NP_CMD_NAND_READ then np_cmd_nand_read
      else if code = NP_CMD_NAND_WRITE_S then np_cmd_nand_write
      else if code = NP_CMD_NAND_WRITE_D then np_cmd_nand_write
      else if code = NP_CMD_NAND_WRITE_E then np_cmd_nand_write
      else if code = NP_CMD_NAND_SELECT then np_cmd_nand_select
      else np_cmd_read_bad_blocks)"

definition np_cmd_is_valid :: "int \<Rightarrow> bool" where
  "np_cmd_is_valid code = (code \<ge> 0 \<and> code < NP_CMD_NAND_LAST)"

definition np_cmd_handler ::
  "np_prog \<Rightarrow> world \<Rightarrow> np_rx \<Rightarrow> (int \<times> np_prog \<times> world) option" where
  "np_cmd_handler prog w rx =
     (if chip_info prog = None \<and> rx_code rx \<noteq> NP_CMD_NAND_SELECT then
        Some (NP_ERR_CHIP_NOT_SEL, prog, error_print ''Chip is not selected'' [] w)
      else if \<not> np_cmd_is_valid (rx_code rx) then
        Some (NP_ERR_CMD_INVALID, prog,
          error_print ''Invalid cmd code %d'' [word_of_int (rx_code rx)] w)
      else cmd_handler (rx_code rx) prog w rx)"

text \<open>\<^verbatim>\<open>np_packet_handler\<close>: the argument is the list of the buffers that
  \<^verbatim>\<open>peek\<close> hands out, one after the other, before it reports that none is pending.\<close>

fun np_packet_handler :: "np_rx list \<Rightarrow> np_prog \<Rightarrow> world \<Rightarrow> (np_prog \<times> world) option" where
  "np_packet_handler [] prog w = Some (prog, w)"
| "np_packet_handler (rx # rxs) prog w =
     (case np_cmd_handler prog w rx of
        None \<Rightarrow> None
      | Some (ret, prog1, w1) \<Rightarrow>
          np_packet_handler rxs prog1
            (if ret < 0 then snd (np_send_error (word_of_int (- ret)) w1) else w1))"

definition np_nand_handler :: "np_prog \<Rightarrow> world \<Rightarrow> np_prog \<times> world" where
  "np_nand_handler prog w =
     (if nand_wr_in_progress prog then
        (case np_nand_handle_status prog w of (r, prog1, w1) \<Rightarrow>
           if r \<noteq> 0 then (prog1, snd (np_send_error (word_of_int NP_ERR_NAND_WR) w1))
           else (prog1, w1))
      else (prog, w))"

definition np_handler :: "np_rx list \<Rightarrow> np_prog \<Rightarrow> world \<Rightarrow> (np_prog \<times> world) option" where
  "np_handler rxs prog w =
     map_option (\<lambda>(prog1, w1). np_nand_handler prog1 w1) (np_packet_handler rxs prog w)"

text \<open>Successive calls of \<^verbatim>\<open>np_handler\<close> by the scheduling loop, each with the buffers
  pending at that call.\<close>

fun np_handler_calls :: "np_rx list list \<Rightarrow> np_prog \<Rightarrow> world \<Rightarrow> (np_prog \<times> world) option" where
  "np_handler_calls [] prog w = Some (prog, w)"
| "np_handler_calls (rxs # rest) prog w =
     (case np_handler rxs prog w of
        None \<Rightarrow> None
      | Some (prog1, w1) \<Rightarrow> np_handler_calls rest prog1 w1)"

section \<open>A reference chip and session for concrete runs\<close>

text \<open>A chip with 2 KiB pages, 128 KiB blocks and 64 MiB in all; a world in which the
  hardware is always ready, every send succeeds and the chip directory knows chip 0
  only; the zero-initialised static session state; and the all-zero receive buffer from
  which the commands below are built.\<close>

definition chip0 :: chip_info where
  "chip0 = \<lparr>page_size = 0x800, block_size = 0x20000, chip_size = 0x4000000\<rparr>"

definition world0 :: world where
  "world0 = \<lparr>trace = [], nand_reply = (\<lambda>i. NAND_READY), nand_data_reply = (\<lambda>i. []),
     send_fails = (\<lambda>i. False), send_ready_reply = (\<lambda>i. True),
     bad_block_add_fails = (\<lambda>i. False),
     chip_db = (\<lambda>n. if n = 0 then Some chip0 else None),
     chip_selected = None, bad_block_table = []\<rparr>"

definition prog0 :: np_prog where
  "prog0 = \<lparr>addr = 0, len = 0, addr_is_set = False, page_buf = replicate 2048 0,
     page_page = 0, page_offset = 0, bytes_written = 0, bytes_ack = 0,
     nand_wr_in_progress = False, nand_timeout = 0, chip_info = None\<rparr>"

definition rx0 :: np_rx where
  "rx0 = \<lparr>rx_code = 0, rx_addr = 0, rx_len = 0, rx_data_len = 0, rx_data = [],
     rx_chip_num = 0\<rparr>"

definition erase_cmd :: "u32 \<Rightarrow> u32 \<Rightarrow> np_rx" where
  "erase_cmd a l = rx0\<lparr>rx_code := NP_CMD_NAND_ERASE, rx_addr := a, rx_len := l\<rparr>"

definition write_start_cmd :: "u32 \<Rightarrow> u32 \<Rightarrow> np_rx" where
  "write_start_cmd a l = rx0\<lparr>rx_code := NP_CMD_NAND_WRITE_S, rx_addr := a, rx_len := l\<rparr>"

definition write_data_cmd :: "u8 \<Rightarrow> u8 list \<Rightarrow> np_rx" where
  "write_data_cmd l d = rx0\<lparr>rx_code := NP_CMD_NAND_WRITE_D, rx_data_len := l, rx_data := d\<rparr>"

definition write_end_cmd :: np_rx where
  "write_end_cmd = rx0\<lparr>rx_code := NP_CMD_NAND_WRITE_E\<rparr>"

definition select_cmd :: "u32 \<Rightarrow> np_rx" where
  "select_cmd n = rx0\<lparr>rx_code := NP_CMD_NAND_SELECT, rx_chip_num := n\<rparr>"

section \<open>Derived notions used to state the properties\<close>

text \<open>The events of a command that is turned away while no chip is selected: a
  chip-select for an unknown chip, or any other command.\<close>

definition np_reject_events :: "np_rx \<Rightarrow> event list" where
  "np_reject_events rx =
     (if rx_code rx = NP_CMD_NAND_SELECT
      then [Chip_select (rx_chip_num rx),
            Error_print ''Chip ID %lu not found'' [rx_chip_num rx],
            Send (RESP_ERROR 107)]
      else [Error_print ''Chip is not selected'' [], Send (RESP_ERROR 106)])"



text \<open>What a trace shows of the flash and of the host: the pages whose erase was asked
  of the driver, the addresses reported in bad-block responses, the bytes handed to the
  asynchronous page write, and the values of the write-ack responses, each in trace
  order.\<close>

fun erased_pages :: "event list \<Rightarrow> u32 list" where
  "erased_pages [] = []"
| "erased_pages (Nand_erase_block pg st # evs) = pg # erased_pages evs"
| "erased_pages (e # evs) = erased_pages evs"

fun bad_block_reports :: "event list \<Rightarrow> u32 list" where
  "bad_block_reports [] = []"
| "bad_block_reports (Send (RESP_BAD_BLOCK a) # evs) = a # bad_block_reports evs"
| "bad_block_reports (e # evs) = bad_block_reports evs"

fun page_writes :: "event list \<Rightarrow> u8 list list" where
  "page_writes [] = []"
| "page_writes (Nand_write_page_async bs pg n # evs) = bs # page_writes evs"
| "page_writes (e # evs) = page_writes evs"

fun write_acks :: "event list \<Rightarrow> u32 list" where
  "write_acks [] = []"
| "write_acks (Send (RESP_WRITE_ACK n) # evs) = n # write_acks evs"
| "write_acks (e # evs) = write_acks evs"

fun error_responses :: "event list \<Rightarrow> u8 list" where
  "error_responses [] = []"
| "error_responses (Send (RESP_ERROR c) # evs) = c # error_responses evs"
| "error_responses (e # evs) = error_responses evs"

text \<open>What the erase loop has done when it returns, started at block address \<open>a\<close> with
  \<open>l\<close> bytes to go, on a chip with pages of \<open>2 ^ j\<close> and blocks of \<open>2 ^ k\<close> bytes and
  a bad block table \<open>tbl\<close>: the blocks erased or reported bad are the first \<open>n\<close> blocks
  from \<open>a\<close>, all inside the chip; no block of the table is erased; and \<open>n\<close> blocks
  are no more than \<open>l\<close> bytes when the command covers the whole chip or the table
  holds no block of the range asked for.\<close>

definition erase_post ::
  "chip_info \<Rightarrow> nat \<Rightarrow> nat \<Rightarrow> u32 \<Rightarrow> u32 list \<Rightarrow> u32 \<Rightarrow> u32 \<Rightarrow> event list \<Rightarrow> nat \<Rightarrow> bool" where
  "erase_post ci j k cmd_len tbl a l evs n =
     ((\<lambda>p. unat p * 2 ^ j) ` set (erased_pages evs) \<union> unat ` set (bad_block_reports evs) =
        (\<lambda>i. unat a + i * 2 ^ k) ` {..<n}
    \<and> (\<forall>i<n. unat a + i * 2 ^ k < unat (chip_size ci))
    \<and> (\<forall>p \<in> set (erased_pages evs). unat p * 2 ^ j \<notin> unat ` set tbl)
    \<and> (2 ^ k dvd unat l \<and>
        (cmd_len = chip_size ci \<or>
         (\<forall>b \<in> set tbl. \<not> (unat a \<le> unat b \<and> unat b < unat a + unat l)))
        \<longrightarrow> n * 2 ^ k \<le> unat l))"

text \<open>The calls of the driver's block erase along a trace, each with the page number
  passed and the status the driver returned.\<close>

fun erase_calls :: "event list \<Rightarrow> (u32 \<times> nand_status) list" where
  "erase_calls [] = []"
| "erase_calls (Nand_erase_block pg st # evs) = (pg, st) # erase_calls evs"
| "erase_calls (e # evs) = erase_calls evs"

text \<open>What became of the blocks the erase loop touched, when it returns \<open>r\<close> after the
  events \<open>evs\<close>, started with \<open>l\<close> bytes to go. A block whose erase the driver answered
  with the error status is reported bad; one answered with the timeout status is logged;
  any status other than ready, error and timeout makes the result the erase error. A
  bad block report is for a block of the table or for a block whose erase the driver
  answered with the error status. The blocks touched are \<open>n\<close>: those passed to the driver
  and those of the table that were reported. When the loop returns 0, the blocks that
  count for the length, which are those passed to the driver and, when the command
  covers the whole chip, the reported blocks of the table, make up the length.\<close>

definition erase_detail ::
  "chip_info \<Rightarrow> nat \<Rightarrow> u32 \<Rightarrow> u32 list \<Rightarrow> u32 \<Rightarrow> int \<Rightarrow> event list \<Rightarrow> nat \<Rightarrow> bool" where
  "erase_detail ci k cmd_len tbl l r evs n =
     ((\<forall>(p, st) \<in> set (erase_calls evs).
         (st = NAND_ERROR \<longleftrightarrow> p * page_size ci \<in> set (bad_block_reports evs)) \<and>
         (st = NAND_TIMEOUT_ERROR \<longrightarrow>
            Error_print ''NAND erase timeout at 0x%lx'' [p * page_size ci] \<in> set evs) \<and>
         (st = NAND_BUSY \<or> st = NAND_OTHER \<longrightarrow> r = NP_ERR_NAND_ERASE))
    \<and> (\<forall>b \<in> set (bad_block_reports evs).
         b \<in> set tbl \<or> (\<exists>p. (p, NAND_ERROR) \<in> set (erase_calls evs) \<and> b = p * page_size ci))
    \<and> n = length (erase_calls evs) + length (filter (\<lambda>b. b \<in> set tbl) (bad_block_reports evs))
    \<and> (2 ^ k dvd unat l \<and> r = 0 \<longrightarrow>
         (length (erase_calls evs) +
          (if cmd_len = chip_size ci
           then length (filter (\<lambda>b. b \<in> set tbl) (bad_block_reports evs)) else 0)) * 2 ^ k =
         unat l))"






text \<open>The page writes in flight along a trace. The state is the number of page writes
  issued and not yet seen to resolve, and whether the last event was a busy status
  reading. A page write adds one; a status reading other than busy resolves what is in
  flight, and so does the write-timeout message when it follows a busy status reading
  directly, which is how \<^verbatim>\<open>np_nand_handle_status\<close> gives a write up (the read path
  prints the same message, after a page read).\<close>

fun in_flight_step :: "nat \<times> bool \<Rightarrow> event \<Rightarrow> nat \<times> bool" where
  "in_flight_step (n, b) (Nand_write_page_async bs pg k) = (Suc n, False)"
| "in_flight_step (n, b) (Nand_read_status st) =
     (if st = NAND_BUSY then (n, True) else (0, False))"
| "in_flight_step (n, b) (Error_print m args) =
     (if b \<and> m = ''NAND write timeout at 0x%lx'' then 0 else n, False)"
| "in_flight_step (n, b) e = (n, False)"

definition in_flight :: "nat \<times> bool \<Rightarrow> event list \<Rightarrow> nat" where
  "in_flight s evs = fst (foldl in_flight_step s evs)"

text \<open>At most one page write is in flight at every moment of the trace \<open>evs\<close>, entered
  in state \<open>s\<close>.\<close>

fun one_in_flight :: "nat \<times> bool \<Rightarrow> event list \<Rightarrow> bool" where
  "one_in_flight s [] = (fst s \<le> 1)"
| "one_in_flight s (e # evs) = (fst s \<le> 1 \<and> one_in_flight (in_flight_step s e) evs)"

text \<open>The number of page writes the in-flight flag of the session state stands for.\<close>

definition wr_flag :: "np_prog \<Rightarrow> nat" where
  "wr_flag prog = (if nand_wr_in_progress prog then 1 else 0)"

text \<open>A step from state \<open>prog\<close> and world \<open>w\<close> to \<open>prog'\<close> and \<open>w'\<close> that only adds
  events and keeps the flag honest: entered with no more page writes in flight than the
  flag says, it never has more than one in flight and ends with no more than the flag
  says.\<close>

definition flight :: "np_prog \<Rightarrow> world \<Rightarrow> np_prog \<Rightarrow> world \<Rightarrow> bool" where
  "flight prog w prog' w' \<longleftrightarrow>
     (\<exists>evs. trace w' = trace w @ evs \<and>
        (\<forall>s. fst s \<le> wr_flag prog \<longrightarrow>
           one_in_flight s evs \<and> in_flight s evs \<le> wr_flag prog'))"

text \<open>A step that only adds events, none of them a page write.\<close>

definition no_page_write :: "world \<Rightarrow> world \<Rightarrow> bool" where
  "no_page_write w w' \<longleftrightarrow>
     length (trace w) \<le> length (trace w') \<and>
     take (length (trace w)) (trace w') = trace w \<and>
     page_writes (drop (length (trace w)) (trace w')) = []"

section \<open>Basic facts\<close>

lemmas np_err_defs =
  NP_ERR_INTERNAL_def NP_ERR_ADDR_EXCEEDED_def NP_ERR_ADDR_INVALID_def
  NP_ERR_ADDR_NOT_ALIGN_def NP_ERR_NAND_WR_def NP_ERR_NAND_RD_def
  NP_ERR_NAND_ERASE_def NP_ERR_CHIP_NOT_SEL_def NP_ERR_CHIP_NOT_FOUND_def
  NP_ERR_CMD_DATA_SIZE_def NP_ERR_CMD_INVALID_def NP_ERR_BUF_OVERFLOW_def
  NP_ERR_LEN_NOT_ALIGN_def NP_ERR_LEN_EXCEEDED_def NP_ERR_LEN_INVALID_def

lemmas np_cmd_defs =
  NP_CMD_NAND_READ_ID_def NP_CMD_NAND_ERASE_def NP_CMD_NAND_READ_def
  NP_CMD_NAND_WRITE_S_def NP_CMD_NAND_WRITE_D_def NP_CMD_NAND_WRITE_E_def
  NP_CMD_NAND_SELECT_def NP_CMD_NAND_READ_BB_def NP_CMD_NAND_LAST_def

lemma unat_ucast_8_32: "unat (ucast (x :: u8) :: u32) = unat x"
  by (simp add: unsigned_ucast_eq take_bit_nat_eq_self_iff)
    (use unsigned_less [of x, where ?'a = nat] in simp)

lemma unat_pow2_32: "k < 32 \<Longrightarrow> unat (2 ^ k :: u32) = 2 ^ k"
proof -
  assume k: "k < 32"
  have "(2 ^ k :: u32) = of_nat (2 ^ k)"
    by simp
  then have "unat (2 ^ k :: u32) = (2 ^ k) mod 2 ^ 32"
    by (simp only: unat_of_nat) simp
  moreover have "(2 :: nat) ^ k < 2 ^ 32"
    using k by (intro power_strict_increasing) simp_all
  ultimately show ?thesis
    by simp
qed

lemma aligned_iff_dvd: "(a :: u32) AND (2 ^ k - 1) = 0 \<longleftrightarrow> 2 ^ k dvd unat a"
  by (simp add: and_mask_dvd_nat mask_eq_decr_exp)

lemma unat_add_no_wrap: "unat (a :: u32) + unat b < 2 ^ 32 \<Longrightarrow> unat (a + b) = unat a + unat b"
  using unat_add_lem [of a b] by simp

lemma unat_sub_no_wrap: "unat (b :: u32) \<le> unat a \<Longrightarrow> unat (a - b) = unat a - unat b"
  by (simp add: unat_sub word_le_nat_alt)

lemma unat_lt_2p32: "unat (a :: u32) < 2 ^ 32"
  using unsigned_less [of a, where ?'a = nat] by simp

lemma pow2_div_pow2_32:
  assumes "j \<le> k" "k < 32"
  shows "unat ((2 ^ k :: u32) div 2 ^ j) = 2 ^ (k - j)"
  using assms by (simp add: unat_div unat_pow2_32 power_diff)

lemma div_mult_aligned:
  assumes "j < 32" "2 ^ j dvd unat (a :: u32)"
  shows "unat (a div 2 ^ j) * 2 ^ j = unat a"
  using assms by (simp add: unat_div unat_pow2_32)

lemma image_run_Suc:
  "(\<lambda>i. A + i * K) ` {..<Suc n} = insert (A :: nat) ((\<lambda>i. A + K + i * K) ` {..<n})"
  by (auto simp: lessThan_Suc_eq_insert_0 image_image algebra_simps)

lemma emit_trace [simp]: "trace (emit e w) = trace w @ [e]"
  by (simp add: emit_def)

lemma emit_fields [simp]:
  "nand_reply (emit e w) = nand_reply w"
  "nand_data_reply (emit e w) = nand_data_reply w"
  "send_fails (emit e w) = send_fails w"
  "send_ready_reply (emit e w) = send_ready_reply w"
  "bad_block_add_fails (emit e w) = bad_block_add_fails w"
  "chip_db (emit e w) = chip_db w"
  "chip_selected (emit e w) = chip_selected w"
  "bad_block_table (emit e w) = bad_block_table w"
  by (simp_all add: emit_def)

lemma erased_pages_append [simp]: "erased_pages (xs @ ys) = erased_pages xs @ erased_pages ys"
  by (induction xs rule: erased_pages.induct) simp_all

lemma bad_block_reports_append [simp]:
  "bad_block_reports (xs @ ys) = bad_block_reports xs @ bad_block_reports ys"
  by (induction xs rule: bad_block_reports.induct) simp_all

lemma page_writes_append [simp]: "page_writes (xs @ ys) = page_writes xs @ page_writes ys"
  by (induction xs rule: page_writes.induct) simp_all

lemma write_acks_append [simp]: "write_acks (xs @ ys) = write_acks xs @ write_acks ys"
  by (induction xs rule: write_acks.induct) simp_all

lemma error_responses_append [simp]:
  "error_responses (xs @ ys) = error_responses xs @ error_responses ys"
  by (induction xs rule: error_responses.induct) simp_all

section \<open>Chip selection gate\<close>

lemma np_cmd_handler_not_selected:
  assumes "chip_info prog = None" and "rx_code rx \<noteq> NP_CMD_NAND_SELECT"
  shows "np_cmd_handler prog w rx =
           Some (NP_ERR_CHIP_NOT_SEL, prog, error_print ''Chip is not selected'' [] w)"
  using assms by (simp add: np_cmd_handler_def)

lemma np_cmd_handler_select_fails:
  assumes "rx_code rx = NP_CMD_NAND_SELECT" and "chip_db w (rx_chip_num rx) = None"
  shows "np_cmd_handler prog w rx =
           Some (NP_ERR_CHIP_NOT_FOUND, prog\<lparr>chip_info := None\<rparr>,
             error_print ''Chip ID %lu not found'' [rx_chip_num rx]
               (emit (Chip_select (rx_chip_num rx)) w))"
  using assms
  by (simp add: np_cmd_handler_def np_cmd_is_valid_def cmd_handler_def np_cmd_defs
      np_cmd_nand_select_def chip_select_def)

lemma np_packet_handler_rejects:
  assumes "chip_info prog = None"
    and "\<forall>rx \<in> set rxs. rx_code rx = NP_CMD_NAND_SELECT \<longrightarrow> chip_db w (rx_chip_num rx) = None"
  shows "np_packet_handler rxs prog w =
           Some (prog, w\<lparr>trace := trace w @ concat (map np_reject_events rxs)\<rparr>)"
  using assms
proof (induction rxs arbitrary: w)
  case Nil
  then show ?case by simp
next
  case (Cons rx rxs)
  show ?case
  proof (cases "rx_code rx = NP_CMD_NAND_SELECT")
    case True
    have p: "prog\<lparr>chip_info := None\<rparr> = prog"
      using Cons.prems(1) by simp
    let ?w = "w\<lparr>trace := trace w @ np_reject_events rx\<rparr>"
    have "np_packet_handler (rx # rxs) prog w = np_packet_handler rxs prog ?w"
      using True Cons.prems np_cmd_handler_select_fails [of rx w prog] p
      by (simp add: NP_ERR_CHIP_NOT_FOUND_def np_send_error_def comm_send_def
          error_print_def emit_def np_reject_events_def)
    also have "\<dots> = Some (prog, ?w\<lparr>trace := trace ?w @ concat (map np_reject_events rxs)\<rparr>)"
      using Cons.prems by (intro Cons.IH) simp_all
    finally show ?thesis by simp
  next
    case False
    let ?w = "w\<lparr>trace := trace w @ np_reject_events rx\<rparr>"
    have "np_packet_handler (rx # rxs) prog w = np_packet_handler rxs prog ?w"
      using False Cons.prems np_cmd_handler_not_selected [of prog rx w]
      by (simp add: NP_ERR_CHIP_NOT_SEL_def np_send_error_def comm_send_def
          error_print_def emit_def np_reject_events_def)
    also have "\<dots> = Some (prog, ?w\<lparr>trace := trace ?w @ concat (map np_reject_events rxs)\<rparr>)"
      using Cons.prems by (intro Cons.IH) simp_all
    finally show ?thesis by simp
  qed
qed

text \<open>
  C5. While no chip is selected, the dispatcher answers every command whose opcode is
  not chip-select with the chip-not-selected error, leaving the session state as it is
  and adding nothing to the trace but the error message: no handler runs. A chip-select
  that fails, from any state, sets the geometry to null and is answered chip-not-found
  (107); every later command of the packet handler is then turned away, a non-select
  one with chip-not-selected (106), as long as no chip-select finds its chip.
\<close>

theorem chip_not_selected_rejects:
  assumes "rx_code sel = NP_CMD_NAND_SELECT"
    and "chip_db w (rx_chip_num sel) = None"
    and "\<forall>rx \<in> set rxs. rx_code rx = NP_CMD_NAND_SELECT \<longrightarrow> chip_db w (rx_chip_num rx) = None"
  shows "(\<forall>p v rx. chip_info p = None \<and> rx_code rx \<noteq> NP_CMD_NAND_SELECT \<longrightarrow>
            np_cmd_handler p v rx =
              Some (NP_ERR_CHIP_NOT_SEL, p, error_print ''Chip is not selected'' [] v))
     \<and> np_packet_handler (sel # rxs) prog w =
          Some (prog\<lparr>chip_info := None\<rparr>,
            w\<lparr>trace := trace w @ concat (map np_reject_events (sel # rxs))\<rparr>)"
proof -
  let ?w = "w\<lparr>trace := trace w @ np_reject_events sel\<rparr>"
  have "np_packet_handler (sel # rxs) prog w =
          np_packet_handler rxs (prog\<lparr>chip_info := None\<rparr>) ?w"
    using assms(1,2) np_cmd_handler_select_fails [of sel w prog]
    by (simp add: NP_ERR_CHIP_NOT_FOUND_def np_send_error_def comm_send_def
        error_print_def emit_def np_reject_events_def)
  also have "\<dots> = Some (prog\<lparr>chip_info := None\<rparr>,
      ?w\<lparr>trace := trace ?w @ concat (map np_reject_events rxs)\<rparr>)"
    using assms(3) by (intro np_packet_handler_rejects) simp_all
  finally show ?thesis
    by (simp add: np_cmd_handler_not_selected)
qed

theorem chip_not_selected_rejects_witness:
  "rx_code (select_cmd 7) = NP_CMD_NAND_SELECT \<and> chip_db world0 7 = None \<and>
   chip_info (prog0\<lparr>chip_info := Some chip0\<rparr>) \<noteq> None \<and>
   np_packet_handler [select_cmd 7, erase_cmd 0 0x20000, write_data_cmd 1 [0]]
     (prog0\<lparr>chip_info := Some chip0\<rparr>) world0 =
   Some (prog0\<lparr>chip_info := None\<rparr>,
     world0\<lparr>trace :=
       [Chip_select 7, Error_print ''Chip ID %lu not found'' [7], Send (RESP_ERROR 107),
        Error_print ''Chip is not selected'' [], Send (RESP_ERROR 106),
        Error_print ''Chip is not selected'' [], Send (RESP_ERROR 106)]\<rparr>)"
  using chip_not_selected_rejects [of "select_cmd 7" world0
      "[erase_cmd 0 0x20000, write_data_cmd 1 [0]]" "prog0\<lparr>chip_info := Some chip0\<rparr>"]
  by (simp add: select_cmd_def erase_cmd_def write_data_cmd_def rx0_def world0_def prog0_def
      np_reject_events_def np_cmd_defs)

section \<open>Write-start validation\<close>

text \<open>
  C6. A write-start whose length is non-zero and within the chip, with a page-aligned
  address, but whose length is not page-aligned is rejected with no change of the
  session state and no event but the error message. The code it returns is the one
  for an address that is not aligned (-102), not the one for a length that is not
  aligned (-111).
\<close>

theorem write_start_unaligned_length:
  assumes "chip_info prog = Some ci"
    and "\<not> rx_addr rx + rx_len rx > chip_size ci"
    and "rx_addr rx AND (page_size ci - 1) = 0"
    and "rx_len rx \<noteq> 0"
    and "rx_len rx AND (page_size ci - 1) \<noteq> 0"
  shows "np_cmd_nand_write_start prog w rx =
     Some (NP_ERR_ADDR_NOT_ALIGN, prog,
       error_print ''Length 0x%lx is not aligned to page size 0x%lx''
         [rx_len rx, page_size ci] w)
     \<and> NP_ERR_ADDR_NOT_ALIGN \<noteq> NP_ERR_LEN_NOT_ALIGN"
  using assms
  by (simp add: np_cmd_nand_write_start_def Let_def NP_ERR_ADDR_NOT_ALIGN_def
      NP_ERR_LEN_NOT_ALIGN_def)

theorem write_start_unaligned_length_witness:
  "np_cmd_nand_write_start (prog0\<lparr>chip_info := Some chip0\<rparr>) world0 (write_start_cmd 0 1) =
     Some (- 102, prog0\<lparr>chip_info := Some chip0\<rparr>,
       error_print ''Length 0x%lx is not aligned to page size 0x%lx'' [1, 0x800] world0)
   \<and> NP_ERR_LEN_NOT_ALIGN = - 111"
  using write_start_unaligned_length [of "prog0\<lparr>chip_info := Some chip0\<rparr>" chip0
      "write_start_cmd 0 1" world0]
  by (simp add: write_start_cmd_def rx0_def chip0_def prog0_def NP_ERR_ADDR_NOT_ALIGN_def
      NP_ERR_LEN_NOT_ALIGN_def)

section \<open>Write-end and the address-valid flag\<close>

lemma write_data_addr_not_set:
  assumes "\<not> addr_is_set prog"
  shows "np_cmd_nand_write_data prog w rx =
     Some (if unat (rx_data_len rx) + np_write_data_hdr_size > NP_PACKET_BUF_SIZE
           then (NP_ERR_CMD_DATA_SIZE, prog,
                  error_print ''Data size is wrong 0x%lx'' [ucast (rx_data_len rx)] w)
           else (NP_ERR_ADDR_INVALID, prog, error_print ''Write address is not set'' [] w))"
  using assms by (simp add: np_cmd_nand_write_data_def Let_def unat_ucast_8_32)

lemma np_cmd_nand_write_start_sets:
  assumes "np_cmd_nand_write_start prog w rx = Some (r, prog', w')"
    and "addr_is_set prog' \<noteq> addr_is_set prog"
  shows "r = 0 \<and> addr_is_set prog'"
  using assms
  by (auto simp: np_cmd_nand_write_start_def Let_def np_send_ok_status_def
      split: option.splits if_splits)

lemma other_handlers_keep_prog:
  "np_cmd_nand_read_id prog w rx = Some (r, prog', w') \<Longrightarrow> prog' = prog"
  "np_cmd_nand_erase prog w rx = Some (r, prog', w') \<Longrightarrow> prog' = prog"
  "np_cmd_nand_read prog w rx = Some (r, prog', w') \<Longrightarrow> prog' = prog"
  "np_cmd_read_bad_blocks prog w rx = Some (r, prog', w') \<Longrightarrow> prog' = prog"
  by (auto simp: np_cmd_nand_read_id_def np_cmd_nand_read_id_inner_def Let_def
      np_cmd_nand_erase_def np_cmd_nand_erase_inner_def
      np_cmd_nand_read_def np_cmd_nand_read_inner_def
      np_cmd_read_bad_blocks_def np_cmd_read_bad_blocks_inner_def
      split: option.splits if_splits prod.splits)

lemma np_cmd_nand_select_prog:
  "np_cmd_nand_select prog w rx = Some (r, prog', w') \<Longrightarrow> \<exists>c. prog' = prog\<lparr>chip_info := c\<rparr>"
  by (auto simp: np_cmd_nand_select_def Let_def split: prod.splits if_splits)

lemma np_cmd_handler_sets_addr:
  assumes "np_cmd_handler prog w rx = Some (r, prog', w')"
    and "\<not> addr_is_set prog" and "addr_is_set prog'"
  shows "rx_code rx = NP_CMD_NAND_WRITE_S \<and> r = 0"
proof -
  consider (a) "r = NP_ERR_CHIP_NOT_SEL \<and> prog' = prog" | (b) "r = NP_ERR_CMD_INVALID \<and> prog' = prog"
    | (c) "cmd_handler (rx_code rx) prog w rx = Some (r, prog', w')"
    using assms(1) by (auto simp: np_cmd_handler_def split: if_splits)
  then show ?thesis
  proof cases
    case a
    then show ?thesis using assms by simp
  next
    case b
    then show ?thesis using assms by simp
  next
    case c
    then consider "prog' = prog" | "\<exists>c. prog' = prog\<lparr>chip_info := c\<rparr>"
      | "np_cmd_nand_write prog w rx = Some (r, prog', w')"
      by (auto simp: cmd_handler_def split: if_splits dest: other_handlers_keep_prog np_cmd_nand_select_prog)
    then show ?thesis
    proof cases
      case 1
      then show ?thesis using assms by simp
    next
      case 2
      then show ?thesis using assms by auto
    next
      case 3
      then show ?thesis
        using assms(2,3) write_data_addr_not_set [OF assms(2), of w rx]
          np_cmd_nand_write_start_sets [of prog "emit (Led_wr_set True) w" rx r prog' w']
        by (auto simp: np_cmd_nand_write_def np_cmd_nand_write_end_def Let_def
            split: if_splits prod.splits)
    qed
  qed
qed

lemma np_cmd_handler_write_data_addr_not_set:
  assumes "\<not> addr_is_set p" "rx_code rx = NP_CMD_NAND_WRITE_D"
  shows "np_cmd_handler p v rx =
     Some (if chip_info p = None
           then (NP_ERR_CHIP_NOT_SEL, p, error_print ''Chip is not selected'' [] v)
           else if unat (rx_data_len rx) + np_write_data_hdr_size > NP_PACKET_BUF_SIZE
           then (NP_ERR_CMD_DATA_SIZE, p,
                  error_print ''Data size is wrong 0x%lx'' [ucast (rx_data_len rx)] v)
           else (NP_ERR_ADDR_INVALID, p, error_print ''Write address is not set'' [] v))"
  using assms write_data_addr_not_set [OF assms(1), of v rx]
  by (simp add: np_cmd_handler_def np_cmd_is_valid_def cmd_handler_def np_cmd_nand_write_def
      np_cmd_defs)

lemma np_cmd_handler_write_end:
  assumes "chip_info prog \<noteq> None" "rx_code rx = NP_CMD_NAND_WRITE_E"
    and "np_cmd_nand_write_end prog w = (r, prog1, w1)"
  shows "np_cmd_handler prog w rx = Some (r, prog1, emit (Led_wr_set False) w1)"
  using assms
  by (auto simp: np_cmd_handler_def np_cmd_is_valid_def cmd_handler_def np_cmd_nand_write_def
      np_cmd_defs)

lemma np_nand_handler_addr_is_set:
  "addr_is_set (fst (np_nand_handler p v)) = addr_is_set p"
  by (auto simp: np_nand_handler_def np_nand_handle_status_def Let_def
      split: prod.splits nand_status.splits if_splits)

lemma np_packet_handler_keeps_addr_clear:
  assumes "\<not> addr_is_set p" "\<forall>rx \<in> set rxs. rx_code rx \<noteq> NP_CMD_NAND_WRITE_S"
    "np_packet_handler rxs p v = Some (p2, v2)"
  shows "\<not> addr_is_set p2"
  using assms
proof (induction rxs arbitrary: p v)
  case Nil
  then show ?case
    by simp
next
  case (Cons rx rxs)
  from Cons.prems(3) obtain ret p1 v1 where
    s: "np_cmd_handler p v rx = Some (ret, p1, v1)"
    and t: "np_packet_handler rxs p1
        (if ret < 0 then snd (np_send_error (word_of_int (- ret)) v1) else v1) = Some (p2, v2)"
    by (auto split: option.splits)
  have "\<not> addr_is_set p1"
    using np_cmd_handler_sets_addr [OF s Cons.prems(1)] Cons.prems(2) by auto
  from Cons.IH [OF this _ t] Cons.prems(2) show ?case
    by simp
qed

lemma np_handler_calls_keeps_addr_clear:
  assumes "\<not> addr_is_set p" "\<forall>rx \<in> set (concat rxss). rx_code rx \<noteq> NP_CMD_NAND_WRITE_S"
    "np_handler_calls rxss p v = Some (p2, v2)"
  shows "\<not> addr_is_set p2"
  using assms
proof (induction rxss arbitrary: p v)
  case Nil
  then show ?case
    by simp
next
  case (Cons rxs rxss)
  from Cons.prems(3) obtain p1 v1 pa va where
    a: "np_packet_handler rxs p v = Some (pa, va)" "np_nand_handler pa va = (p1, v1)"
    and b: "np_handler_calls rxss p1 v1 = Some (p2, v2)"
    by (auto simp: np_handler_def split: option.splits prod.splits)
  have "\<not> addr_is_set pa"
    using np_packet_handler_keeps_addr_clear [OF Cons.prems(1) _ a(1)] Cons.prems(2) by simp
  then have "\<not> addr_is_set p1"
    using np_nand_handler_addr_is_set [of pa va] a(2) by simp
  from Cons.IH [OF this _ b] Cons.prems(2) show ?case
    by simp
qed

text \<open>
  C10 (as amended). Write-end clears the address-valid flag whatever the page buffer
  holds: also when it fails with the incomplete-page error (non-zero fill offset).
  While the flag is clear the dispatcher rejects every write-data command with the
  state unchanged: with the chip-not-selected error when no chip is selected at that
  moment, otherwise with the data-size error when the payload does not fit the packet
  buffer, which is checked before the flag, and otherwise with the address-invalid
  error. No command but a write-start that returns success sets the flag again, the
  completion poller leaves it alone, and so it stays clear over any run of the main
  loop that holds no write-start.
\<close>

theorem write_end_clears_addr_is_set:
  assumes "np_cmd_nand_write_end prog w = (r, prog1, w1)"
  shows "\<not> addr_is_set prog1 \<and> (page_offset prog \<noteq> 0 \<longrightarrow> r = NP_ERR_NAND_WR)
    \<and> (\<forall>rx. chip_info prog \<noteq> None \<and> rx_code rx = NP_CMD_NAND_WRITE_E \<longrightarrow>
          np_cmd_handler prog w rx = Some (r, prog1, emit (Led_wr_set False) w1))
    \<and> (\<forall>p v rx. \<not> addr_is_set p \<and> rx_code rx = NP_CMD_NAND_WRITE_D \<longrightarrow>
          np_cmd_handler p v rx =
            Some (if chip_info p = None
                  then (NP_ERR_CHIP_NOT_SEL, p, error_print ''Chip is not selected'' [] v)
                  else if unat (rx_data_len rx) + np_write_data_hdr_size > NP_PACKET_BUF_SIZE
                  then (NP_ERR_CMD_DATA_SIZE, p,
                         error_print ''Data size is wrong 0x%lx'' [ucast (rx_data_len rx)] v)
                  else (NP_ERR_ADDR_INVALID, p,
                         error_print ''Write address is not set'' [] v)))
    \<and> (\<forall>p v rx. \<not> addr_is_set p \<longrightarrow>
          np_cmd_nand_write_data p v rx =
            Some (if unat (rx_data_len rx) + np_write_data_hdr_size > NP_PACKET_BUF_SIZE
                  then (NP_ERR_CMD_DATA_SIZE, p,
                         error_print ''Data size is wrong 0x%lx'' [ucast (rx_data_len rx)] v)
                  else (NP_ERR_ADDR_INVALID, p,
                         error_print ''Write address is not set'' [] v)))
    \<and> (\<forall>p v rx r' p' v'. \<not> addr_is_set p \<and> np_cmd_handler p v rx = Some (r', p', v')
          \<and> addr_is_set p' \<longrightarrow> rx_code rx = NP_CMD_NAND_WRITE_S \<and> r' = 0)
    \<and> (\<forall>p v. addr_is_set (fst (np_nand_handler p v)) = addr_is_set p)
    \<and> (\<forall>rxss p v p2 v2. \<not> addr_is_set p \<and>
          (\<forall>rx \<in> set (concat rxss). rx_code rx \<noteq> NP_CMD_NAND_WRITE_S) \<and>
          np_handler_calls rxss p v = Some (p2, v2) \<longrightarrow> \<not> addr_is_set p2)"
proof -
  have a: "\<not> addr_is_set prog1 \<and> (page_offset prog \<noteq> 0 \<longrightarrow> r = NP_ERR_NAND_WR)"
    using assms
    by (auto simp: np_cmd_nand_write_end_def Let_def split: if_splits prod.splits)
  have b: "np_cmd_handler prog w rx = Some (r, prog1, emit (Led_wr_set False) w1)"
    if "chip_info prog \<noteq> None \<and> rx_code rx = NP_CMD_NAND_WRITE_E" for rx
    using that assms by (simp add: np_cmd_handler_write_end)
  have c: "np_cmd_handler p v rx =
            Some (if chip_info p = None
                  then (NP_ERR_CHIP_NOT_SEL, p, error_print ''Chip is not selected'' [] v)
                  else if unat (rx_data_len rx) + np_write_data_hdr_size > NP_PACKET_BUF_SIZE
                  then (NP_ERR_CMD_DATA_SIZE, p,
                         error_print ''Data size is wrong 0x%lx'' [ucast (rx_data_len rx)] v)
                  else (NP_ERR_ADDR_INVALID, p,
                         error_print ''Write address is not set'' [] v))"
    if "\<not> addr_is_set p \<and> rx_code rx = NP_CMD_NAND_WRITE_D" for p v rx
  proof -
    from that have "\<not> addr_is_set p" "rx_code rx = NP_CMD_NAND_WRITE_D"
      by simp_all
    then show ?thesis
      by (rule np_cmd_handler_write_data_addr_not_set)
  qed
  have e: "rx_code rx = NP_CMD_NAND_WRITE_S \<and> r' = 0"
    if "\<not> addr_is_set p \<and> np_cmd_handler p v rx = Some (r', p', v') \<and> addr_is_set p'"
    for p v rx r' p' v'
    using that np_cmd_handler_sets_addr [of p v rx r' p' v'] by simp
  have f: "\<not> addr_is_set p2"
    if "\<not> addr_is_set p \<and>
          (\<forall>rx \<in> set (concat rxss). rx_code rx \<noteq> NP_CMD_NAND_WRITE_S) \<and>
          np_handler_calls rxss p v = Some (p2, v2)" for rxss p v p2 v2
    using that np_handler_calls_keeps_addr_clear [of p rxss v p2 v2] by simp
  show ?thesis
    apply (rule conjI)
     apply (rule a [THEN conjunct1])
    apply (rule conjI)
     apply (rule a [THEN conjunct2])
    apply (rule conjI)
     apply (intro allI impI)
     apply (rule b; assumption)
    apply (rule conjI)
     apply (intro allI impI)
     apply (rule c; assumption)
    apply (rule conjI)
     apply (intro allI impI)
     apply (rule write_data_addr_not_set; assumption)
    apply (rule conjI)
     apply (intro allI impI)
     apply (rule e; assumption)
    apply (rule conjI)
     apply (intro allI)
     apply (rule np_nand_handler_addr_is_set)
    apply (intro allI impI)
    apply (rule f; assumption)
    done
qed

theorem write_end_clears_addr_is_set_witness:
  "np_cmd_nand_write_end (prog0\<lparr>chip_info := Some chip0, addr_is_set := True, page_offset := 5\<rparr>)
      world0 =
     (NP_ERR_NAND_WR, prog0\<lparr>chip_info := Some chip0, addr_is_set := False, page_offset := 5\<rparr>,
       error_print ''Data of 0x%lx length was not written'' [5] world0)
   \<and> np_cmd_handler
        (prog0\<lparr>chip_info := Some chip0, addr_is_set := False, page_offset := 5\<rparr>)
        (error_print ''Data of 0x%lx length was not written'' [5] world0)
        (write_data_cmd 2 [1, 2]) =
      Some (NP_ERR_ADDR_INVALID,
        prog0\<lparr>chip_info := Some chip0, addr_is_set := False, page_offset := 5\<rparr>,
        error_print ''Write address is not set'' []
          (error_print ''Data of 0x%lx length was not written'' [5] world0))
   \<and> np_cmd_handler
        (prog0\<lparr>chip_info := None, addr_is_set := False, page_offset := 5\<rparr>)
        world0 (write_data_cmd 2 [1, 2]) =
      Some (NP_ERR_CHIP_NOT_SEL,
        prog0\<lparr>chip_info := None, addr_is_set := False, page_offset := 5\<rparr>,
        error_print ''Chip is not selected'' [] world0)"
proof -
  have e: "np_cmd_nand_write_end
      (prog0\<lparr>chip_info := Some chip0, addr_is_set := True, page_offset := 5\<rparr>) world0 =
     (NP_ERR_NAND_WR, prog0\<lparr>chip_info := Some chip0, addr_is_set := False, page_offset := 5\<rparr>,
       error_print ''Data of 0x%lx length was not written'' [5] world0)"
    by (simp add: np_cmd_nand_write_end_def prog0_def)
  note t = write_end_clears_addr_is_set [OF e, THEN conjunct2, THEN conjunct2, THEN conjunct2,
      THEN conjunct1]
  from t [THEN spec, THEN spec, THEN spec,
      of "prog0\<lparr>chip_info := Some chip0, addr_is_set := False, page_offset := 5\<rparr>"
        "write_data_cmd 2 [1, 2]"
        "error_print ''Data of 0x%lx length was not written'' [5] world0"]
    t [THEN spec, THEN spec, THEN spec,
      of "prog0\<lparr>chip_info := None, addr_is_set := False, page_offset := 5\<rparr>"
        "write_data_cmd 2 [1, 2]" world0]
  show ?thesis
    using e
    by (simp add: write_data_cmd_def rx0_def np_write_data_hdr_size_def NP_PACKET_BUF_SIZE_def)
qed

theorem write_data_after_end_counterexample:
  "fst (np_cmd_nand_write_end
     (prog0\<lparr>chip_info := Some chip0, addr_is_set := True, page_offset := 5\<rparr>) world0) =
     NP_ERR_NAND_WR
   \<and> map_option fst (np_cmd_nand_write_data
        (fst (snd (np_cmd_nand_write_end
           (prog0\<lparr>chip_info := Some chip0, addr_is_set := True, page_offset := 5\<rparr>) world0)))
        (snd (snd (np_cmd_nand_write_end
           (prog0\<lparr>chip_info := Some chip0, addr_is_set := True, page_offset := 5\<rparr>) world0)))
        (write_data_cmd 255 (replicate 62 0))) = Some NP_ERR_CMD_DATA_SIZE
   \<and> NP_ERR_CMD_DATA_SIZE \<noteq> NP_ERR_ADDR_INVALID
   \<and> np_packet_handler [write_end_cmd, select_cmd 5, write_data_cmd 2 [1, 2]]
          (prog0\<lparr>chip_info := Some chip0, addr_is_set := True, page_offset := 5\<rparr>) world0 =
       Some (prog0\<lparr>chip_info := None, addr_is_set := False, page_offset := 5\<rparr>,
         world0\<lparr>trace :=
           [Error_print ''Data of 0x%lx length was not written'' [5],
            Led_wr_set False, Send (RESP_ERROR 103), Chip_select 5,
            Error_print ''Chip ID %lu not found'' [5], Send (RESP_ERROR 107),
            Error_print ''Chip is not selected'' [], Send (RESP_ERROR 106)]\<rparr>)"
  by (simp add: np_cmd_nand_write_end_def prog0_def np_cmd_nand_write_data_def Let_def
      write_data_cmd_def rx0_def np_write_data_hdr_size_def NP_PACKET_BUF_SIZE_def
      NP_ERR_CMD_DATA_SIZE_def NP_ERR_ADDR_INVALID_def
      np_cmd_handler_def np_cmd_is_valid_def cmd_handler_def np_cmd_nand_write_def np_cmd_defs
      np_err_defs write_end_cmd_def select_cmd_def np_cmd_nand_select_def chip_select_def
      world0_def emit_def error_print_def np_send_error_def comm_send_def)

section \<open>Erase\<close>

lemma np_nand_erase_timeout:
  assumes "nand_reply w (length (trace w)) = NAND_TIMEOUT_ERROR"
  shows "np_nand_erase ci pg w =
     (0, error_print ''NAND erase timeout at 0x%lx'' [pg * page_size ci]
           (emit (Nand_erase_block pg NAND_TIMEOUT_ERROR) w))"
  using assms by (simp add: np_nand_erase_def nand_erase_block_def Let_def)

lemma np_nand_erase_ready:
  assumes "nand_reply w (length (trace w)) = NAND_READY"
  shows "np_nand_erase ci pg w = (0, emit (Nand_erase_block pg NAND_READY) w)"
  using assms by (simp add: np_nand_erase_def nand_erase_block_def Let_def)

text \<open>
  C8. When the driver answers a block erase with the timeout status, in a turn of the
  erase loop on a block that is not in the bad block table, \<^verbatim>\<open>np_nand_erase\<close>
  returns 0 and sends nothing: the failure is only logged. The loop goes on with the
  next block and with the remaining length one block shorter, exactly as it does when
  the driver answers ready, and when that was the last block the command ends with the
  ok status.
\<close>

theorem erase_timeout_only_logged:
  assumes "l \<noteq> 0" and "a < chip_size ci"
    and "\<not> nand_bad_block_table_lookup a w"
    and "nand_reply w (length (trace w)) = NAND_TIMEOUT_ERROR"
  shows "np_nand_erase ci pg w =
           (0, error_print ''NAND erase timeout at 0x%lx'' [pg * page_size ci]
                 (emit (Nand_erase_block pg NAND_TIMEOUT_ERROR) w))
    \<and> np_erase_loop ci cmd_len pib a pg l w =
        np_erase_loop ci cmd_len pib (a + block_size ci) (pg + pib) (l - block_size ci)
          (error_print ''NAND erase timeout at 0x%lx'' [pg * page_size ci]
             (emit (Nand_erase_block pg NAND_TIMEOUT_ERROR) w))
    \<and> (l = block_size ci \<longrightarrow>
        np_erase_loop ci cmd_len pib a pg l w =
          Some (0, emit (Send RESP_OK)
            (error_print ''NAND erase timeout at 0x%lx'' [pg * page_size ci]
               (emit (Nand_erase_block pg NAND_TIMEOUT_ERROR) w))))
    \<and> (\<forall>v. \<not> nand_bad_block_table_lookup a v \<and>
          nand_reply v (length (trace v)) = NAND_READY \<longrightarrow>
        np_erase_loop ci cmd_len pib a pg l v =
          np_erase_loop ci cmd_len pib (a + block_size ci) (pg + pib) (l - block_size ci)
            (emit (Nand_erase_block pg NAND_READY) v))"
proof -
  let ?w = "error_print ''NAND erase timeout at 0x%lx'' [pg * page_size ci]
             (emit (Nand_erase_block pg NAND_TIMEOUT_ERROR) w)"
  have e: "np_nand_erase ci pg w = (0, ?w)"
    using assms(4) by (rule np_nand_erase_timeout)
  have s: "np_erase_loop ci cmd_len pib a pg l w =
      np_erase_loop ci cmd_len pib (a + block_size ci) (pg + pib) (l - block_size ci) ?w"
    using assms(1-3) e
    by (subst np_erase_loop.simps) (simp add: Let_def not_le [symmetric])
  have z: "np_erase_loop ci cmd_len pib (a + block_size ci) (pg + pib) 0 ?w =
      Some (0, emit (Send RESP_OK) ?w)"
    by (subst np_erase_loop.simps) (simp add: np_send_ok_status_def comm_send_def)
  have "np_erase_loop ci cmd_len pib a pg l w = Some (0, emit (Send RESP_OK) ?w)"
    if "l = block_size ci"
    using s z that by simp
  moreover have "np_erase_loop ci cmd_len pib a pg l v =
      np_erase_loop ci cmd_len pib (a + block_size ci) (pg + pib) (l - block_size ci)
        (emit (Nand_erase_block pg NAND_READY) v)"
    if "\<not> nand_bad_block_table_lookup a v" "nand_reply v (length (trace v)) = NAND_READY"
    for v
    using assms(1,2) that np_nand_erase_ready [of v ci pg]
    by (subst np_erase_loop.simps) (simp add: Let_def not_le [symmetric])
  ultimately show ?thesis
    using e s by blast
qed

theorem erase_timeout_only_logged_witness:
  "np_cmd_nand_erase (prog0\<lparr>chip_info := Some chip0\<rparr>)
     (world0\<lparr>nand_reply := (\<lambda>i. NAND_TIMEOUT_ERROR)\<rparr>) (erase_cmd 0 0x20000) =
   Some (0, prog0\<lparr>chip_info := Some chip0\<rparr>,
     world0\<lparr>nand_reply := (\<lambda>i. NAND_TIMEOUT_ERROR),
       trace := [Led_wr_set True, Nand_erase_block 0 NAND_TIMEOUT_ERROR,
         Error_print ''NAND erase timeout at 0x%lx'' [0], Send RESP_OK, Led_wr_set False]\<rparr>)"
proof -
  let ?w = "emit (Led_wr_set True) (world0\<lparr>nand_reply := (\<lambda>i. NAND_TIMEOUT_ERROR)\<rparr>)"
  have "np_erase_loop chip0 0x20000 (0x20000 div 0x800) 0 0 0x20000 ?w =
     Some (0, emit (Send RESP_OK)
            (error_print ''NAND erase timeout at 0x%lx'' [0 * page_size chip0]
               (emit (Nand_erase_block 0 NAND_TIMEOUT_ERROR) ?w)))"
    using erase_timeout_only_logged [of "0x20000" 0 chip0 ?w 0 "0x20000" "0x20000 div 0x800",
        THEN conjunct2, THEN conjunct2, THEN conjunct1]
    by (simp add: chip0_def world0_def nand_bad_block_table_lookup_def)
  then show ?thesis
    by (simp add: np_cmd_nand_erase_def np_cmd_nand_erase_inner_def erase_cmd_def rx0_def
        prog0_def chip0_def world0_def emit_def error_print_def NP_CMD_NAND_ERASE_def)
qed

lemma world_trace_append [simp]:
  "(w\<lparr>trace := trace w @ xs\<rparr>)\<lparr>trace := trace (w\<lparr>trace := trace w @ xs\<rparr>) @ ys\<rparr> =
     w\<lparr>trace := trace w @ xs @ ys\<rparr>"
  by simp

lemma np_erase_loop_step:
  assumes "l \<noteq> 0" and "a < chip_size ci"
  shows "\<exists>evs1.
      (erased_pages evs1 = [] \<and> bad_block_reports evs1 = [a] \<and>
         nand_bad_block_table_lookup a w
       \<or> erased_pages evs1 = [pg] \<and> set (bad_block_reports evs1) \<subseteq> {pg * page_size ci} \<and>
         \<not> nand_bad_block_table_lookup a w)
    \<and> ((\<exists>r. np_erase_loop ci cmd_len pib a pg l w = Some (r, w\<lparr>trace := trace w @ evs1\<rparr>))
       \<or> np_erase_loop ci cmd_len pib a pg l w =
           np_erase_loop ci cmd_len pib (a + block_size ci) (pg + pib)
             (if \<not> nand_bad_block_table_lookup a w \<or> cmd_len = chip_size ci
              then l - block_size ci else l)
             (w\<lparr>trace := trace w @ evs1\<rparr>))"
proof (cases "nand_bad_block_table_lookup a w")
  case True
  let ?evs = "[Send (RESP_BAD_BLOCK a)]"
  have "(\<exists>r. np_erase_loop ci cmd_len pib a pg l w = Some (r, w\<lparr>trace := trace w @ ?evs\<rparr>))
       \<or> np_erase_loop ci cmd_len pib a pg l w =
           np_erase_loop ci cmd_len pib (a + block_size ci) (pg + pib)
             (if \<not> nand_bad_block_table_lookup a w \<or> cmd_len = chip_size ci
              then l - block_size ci else l)
             (w\<lparr>trace := trace w @ ?evs\<rparr>)"
    using assms True
    by (subst np_erase_loop.simps, subst (2) np_erase_loop.simps)
      (simp add: Let_def not_le [symmetric] np_send_bad_block_info_def comm_send_def emit_def)
  with True show ?thesis
    by (intro exI [of _ ?evs]) simp
next
  case False
  define st where "st = nand_reply w (length (trace w))"
  let ?e = "Nand_erase_block pg st"
  define evs where "evs =
     (case st of NAND_READY \<Rightarrow> [?e]
      | NAND_ERROR \<Rightarrow> [?e, Send (RESP_BAD_BLOCK (pg * page_size ci))]
      | NAND_TIMEOUT_ERROR \<Rightarrow>
          [?e, Error_print ''NAND erase timeout at 0x%lx'' [pg * page_size ci]]
      | _ \<Rightarrow> [?e, Error_print ''Unknown NAND status'' []])"
  have ev: "erased_pages evs = [pg] \<and> set (bad_block_reports evs) \<subseteq> {pg * page_size ci}"
    by (cases st) (simp_all add: evs_def)
  have en: "\<exists>r. np_nand_erase ci pg w = (r, w\<lparr>trace := trace w @ evs\<rparr>)"
    by (cases st)
      (simp_all add: np_nand_erase_def nand_erase_block_def Let_def st_def [symmetric] evs_def
        np_send_bad_block_info_def comm_send_def emit_def error_print_def)
  then obtain r2 where r2: "np_nand_erase ci pg w = (r2, w\<lparr>trace := trace w @ evs\<rparr>)"
    by blast
  have "(\<exists>r. np_erase_loop ci cmd_len pib a pg l w = Some (r, w\<lparr>trace := trace w @ evs\<rparr>))
       \<or> np_erase_loop ci cmd_len pib a pg l w =
           np_erase_loop ci cmd_len pib (a + block_size ci) (pg + pib)
             (if \<not> nand_bad_block_table_lookup a w \<or> cmd_len = chip_size ci
              then l - block_size ci else l)
             (w\<lparr>trace := trace w @ evs\<rparr>)"
    using assms False r2
    by (subst np_erase_loop.simps, subst (2) np_erase_loop.simps)
      (simp add: Let_def not_le [symmetric])
  with False ev show ?thesis
    by (intro exI [of _ evs]) simp
qed

lemma erase_post_0:
  "erased_pages evs = [] \<Longrightarrow> bad_block_reports evs = [] \<Longrightarrow>
   erase_post ci j k cmd_len tbl a l evs 0"
  by (simp add: erase_post_def)

lemma erase_post_1:
  assumes "(\<lambda>p. unat p * 2 ^ j) ` set (erased_pages evs) \<union> unat ` set (bad_block_reports evs) =
      {unat a}"
    and "\<forall>p \<in> set (erased_pages evs). unat p * 2 ^ j \<notin> unat ` set tbl"
    and "unat a < unat (chip_size ci)"
    and "2 ^ k dvd unat l \<Longrightarrow> 2 ^ k \<le> unat l"
  shows "erase_post ci j k cmd_len tbl a l evs 1"
  unfolding erase_post_def
proof (intro conjI)
  show "(\<lambda>p. unat p * 2 ^ j) ` set (erased_pages evs) \<union> unat ` set (bad_block_reports evs) =
      (\<lambda>i. unat a + i * 2 ^ k) ` {..<1}"
    using assms(1) by (simp add: lessThan_Suc)
  show "\<forall>i<1. unat a + i * 2 ^ k < unat (chip_size ci)"
    using assms(3) by simp
  show "\<forall>p \<in> set (erased_pages evs). unat p * 2 ^ j \<notin> unat ` set tbl"
    by (rule assms(2))
  show "2 ^ k dvd unat l \<and>
        (cmd_len = chip_size ci \<or>
         (\<forall>b \<in> set tbl. \<not> (unat a \<le> unat b \<and> unat b < unat a + unat l)))
        \<longrightarrow> 1 * 2 ^ k \<le> unat l"
    using assms(4) by simp
qed

lemma erase_post_Suc:
  assumes one: "(\<lambda>p. unat p * 2 ^ j) ` set (erased_pages evs1) \<union>
        unat ` set (bad_block_reports evs1) = {unat a}"
    and good: "\<forall>p \<in> set (erased_pages evs1). unat p * 2 ^ j \<notin> unat ` set tbl"
    and ua: "unat a < unat (chip_size ci)"
    and a': "unat a' = unat a + 2 ^ k"
    and l0: "2 ^ k dvd unat l \<Longrightarrow> 2 ^ k \<le> unat l"
    and l': "2 ^ k dvd unat l \<Longrightarrow> unat a \<notin> unat ` set tbl \<or> cmd_len = chip_size ci \<Longrightarrow>
        unat l' = unat l - 2 ^ k"
    and rest: "erase_post ci j k cmd_len tbl a' l' evs n"
  shows "erase_post ci j k cmd_len tbl a l (evs1 @ evs) (Suc n)"
  unfolding erase_post_def
proof (intro conjI)
  have r1: "(\<lambda>p. unat p * 2 ^ j) ` set (erased_pages evs) \<union> unat ` set (bad_block_reports evs) =
        (\<lambda>i. unat a + 2 ^ k + i * 2 ^ k) ` {..<n}"
    using rest a' by (simp add: erase_post_def)
  have "(\<lambda>p. unat p * 2 ^ j) ` set (erased_pages (evs1 @ evs)) \<union>
      unat ` set (bad_block_reports (evs1 @ evs)) =
      ((\<lambda>p. unat p * 2 ^ j) ` set (erased_pages evs1) \<union> unat ` set (bad_block_reports evs1)) \<union>
      ((\<lambda>p. unat p * 2 ^ j) ` set (erased_pages evs) \<union> unat ` set (bad_block_reports evs))"
    by (simp add: image_Un Un_ac)
  also have "\<dots> = insert (unat a) ((\<lambda>i. unat a + 2 ^ k + i * 2 ^ k) ` {..<n})"
    by (simp only: one r1) simp
  also have "\<dots> = (\<lambda>i. unat a + i * 2 ^ k) ` {..<Suc n}"
    by (simp only: image_run_Suc)
  finally show "(\<lambda>p. unat p * 2 ^ j) ` set (erased_pages (evs1 @ evs)) \<union>
      unat ` set (bad_block_reports (evs1 @ evs)) = (\<lambda>i. unat a + i * 2 ^ k) ` {..<Suc n}" .
  show "\<forall>i<Suc n. unat a + i * 2 ^ k < unat (chip_size ci)"
  proof (intro allI impI)
    fix i assume i: "i < Suc n"
    show "unat a + i * 2 ^ k < unat (chip_size ci)"
    proof (cases i)
      case 0
      then show ?thesis using ua by simp
    next
      case (Suc i')
      then have "i' < n" using i by simp
      then have "unat a' + i' * 2 ^ k < unat (chip_size ci)"
        using rest by (simp add: erase_post_def)
      then show ?thesis using Suc a' by (simp add: algebra_simps)
    qed
  qed
  have "\<forall>p \<in> set (erased_pages evs). unat p * 2 ^ j \<notin> unat ` set tbl"
    using rest by (simp add: erase_post_def)
  then show "\<forall>p \<in> set (erased_pages (evs1 @ evs)). unat p * 2 ^ j \<notin> unat ` set tbl"
    using good by (simp add: ball_Un)
  show "2 ^ k dvd unat l \<and>
        (cmd_len = chip_size ci \<or>
         (\<forall>b \<in> set tbl. \<not> (unat a \<le> unat b \<and> unat b < unat a + unat l)))
        \<longrightarrow> Suc n * 2 ^ k \<le> unat l"
  proof (intro impI, elim conjE)
    assume h: "2 ^ k dvd unat l" "cmd_len = chip_size ci \<or>
         (\<forall>b \<in> set tbl. \<not> (unat a \<le> unat b \<and> unat b < unat a + unat l))"
    have ge: "2 ^ k \<le> unat l"
      using h(1) by (rule l0)
    have pos: "(0 :: nat) < 2 ^ k"
      by simp
    have dec: "unat a \<notin> unat ` set tbl \<or> cmd_len = chip_size ci"
    proof (rule disjCI)
      assume ne: "cmd_len \<noteq> chip_size ci"
      show "unat a \<notin> unat ` set tbl"
      proof
        assume "unat a \<in> unat ` set tbl"
        then obtain b where b: "b \<in> set tbl" "unat a = unat b"
          by auto
        then have "\<not> (unat a \<le> unat b \<and> unat b < unat a + unat l)"
          using h(2) ne by blast
        then show False
          using b(2) ge pos by simp
      qed
    qed
    with h(1) have ul: "unat l' = unat l - 2 ^ k"
      by (rule l')
    have d1: "2 ^ k dvd unat l'"
      using ul h(1) ge by (simp add: dvd_diff_nat)
    have d2: "cmd_len = chip_size ci \<or>
         (\<forall>b \<in> set tbl. \<not> (unat a' \<le> unat b \<and> unat b < unat a' + unat l'))"
    proof (cases "cmd_len = chip_size ci")
      case True
      then show ?thesis by simp
    next
      case False
      then have q: "\<forall>b \<in> set tbl. \<not> (unat a \<le> unat b \<and> unat b < unat a + unat l)"
        using h(2) by simp
      have "\<not> (unat a' \<le> unat b \<and> unat b < unat a' + unat l')" if "b \<in> set tbl" for b
        using q that a' ul ge by fastforce
      then show ?thesis by blast
    qed
    have "n * 2 ^ k \<le> unat l'"
      using rest d1 d2 unfolding erase_post_def by blast
    then show "Suc n * 2 ^ k \<le> unat l"
      using ul ge by simp
  qed
qed

lemma np_erase_loop_run:
  assumes geo: "page_size ci = 2 ^ j" "block_size ci = 2 ^ k" "j \<le> k" "k < 32"
      "unat (chip_size ci) + 2 ^ k \<le> 2 ^ 32"
    and inv: "unat pg * 2 ^ j = unat a" "2 ^ k dvd unat a"
  shows "\<exists>r evs n.
      np_erase_loop ci cmd_len (block_size ci div page_size ci) a pg l w =
        Some (r, w\<lparr>trace := trace w @ evs\<rparr>)
    \<and> erase_post ci j k cmd_len (bad_block_table w) a l evs n"
  using inv
proof (induction "unat (chip_size ci) - unat a" arbitrary: a pg l w rule: less_induct)
  case less
  define pib where "pib = block_size ci div page_size ci"
  have "\<exists>r evs n.
      np_erase_loop ci cmd_len pib a pg l w = Some (r, w\<lparr>trace := trace w @ evs\<rparr>)
    \<and> erase_post ci j k cmd_len (bad_block_table w) a l evs n"
  proof (cases "l = 0 \<or> chip_size ci \<le> a")
    case True
    then have "\<exists>r e. np_erase_loop ci cmd_len pib a pg l w = Some (r, w\<lparr>trace := trace w @ [e]\<rparr>)
        \<and> erased_pages [e] = [] \<and> bad_block_reports [e] = []"
      by (subst np_erase_loop.simps)
        (auto simp: np_send_ok_status_def comm_send_def emit_def error_print_def)
    then obtain r e where
      e: "np_erase_loop ci cmd_len pib a pg l w = Some (r, w\<lparr>trace := trace w @ [e]\<rparr>)"
      "erased_pages [e] = []" "bad_block_reports [e] = []"
      by blast
    have "erase_post ci j k cmd_len (bad_block_table w) a l [e] 0"
      using e(2,3) by (rule erase_post_0)
    with e(1) show ?thesis
      by blast
  next
    case False
    then have l0: "l \<noteq> 0" and lt: "a < chip_size ci"
      by (simp_all add: not_le)
    have ua: "unat a < unat (chip_size ci)"
      using lt by (simp add: word_less_nat_alt)
    have bs: "unat (block_size ci) = 2 ^ k"
      using geo by (simp add: unat_pow2_32)
    have upib: "unat pib = 2 ^ (k - j)"
      using geo by (simp add: pib_def pow2_div_pow2_32)
    have a': "unat (a + block_size ci) = unat a + 2 ^ k"
      using ua geo(5) bs by (simp add: unat_add_no_wrap)
    have e: "(unat pg + 2 ^ (k - j)) * 2 ^ j = unat a + 2 ^ k"
      using less.prems(1) geo(3) by (simp add: algebra_simps flip: power_add)
    have "unat pg + 2 ^ (k - j) \<le> (unat pg + 2 ^ (k - j)) * 2 ^ j"
      by simp
    then have "unat pg + 2 ^ (k - j) < 2 ^ 32"
      using e ua geo(5) by linarith
    then have pg': "unat (pg + pib) = unat pg + 2 ^ (k - j)"
      using upib by (simp add: unat_add_no_wrap)
    have inv1: "unat (pg + pib) * 2 ^ j = unat (a + block_size ci)"
      using pg' a' e by simp
    have inv2: "2 ^ k dvd unat (a + block_size ci)"
      using a' less.prems(2) by simp
    have pa: "unat (pg * page_size ci) = unat a"
    proof -
      have "pg * page_size ci = of_nat (unat pg * 2 ^ j)"
        using geo(1) by simp
      also have "\<dots> = of_nat (unat a)"
        using less.prems(1) by simp
      also have "\<dots> = a"
        by simp
      finally show ?thesis
        by simp
    qed
    have lk: "nand_bad_block_table_lookup a w \<longleftrightarrow> unat a \<in> unat ` set (bad_block_table w)"
      unfolding nand_bad_block_table_lookup_def
    proof
      assume "a \<in> set (bad_block_table w)"
      then show "unat a \<in> unat ` set (bad_block_table w)"
        by simp
    next
      assume "unat a \<in> unat ` set (bad_block_table w)"
      then obtain x where x: "x \<in> set (bad_block_table w)" "unat a = unat x"
        by auto
      then have "a = x"
        by (simp add: word_unat_eq_iff)
      with x show "a \<in> set (bad_block_table w)"
        by simp
    qed
    define l' where "l' = (if \<not> nand_bad_block_table_lookup a w \<or> cmd_len = chip_size ci
                then l - block_size ci else l)"
    from np_erase_loop_step [OF l0 lt, where pg = pg and w = w and cmd_len = cmd_len
        and pib = pib]
    obtain evs1 where
      kind: "erased_pages evs1 = [] \<and> bad_block_reports evs1 = [a] \<and>
               nand_bad_block_table_lookup a w
             \<or> erased_pages evs1 = [pg] \<and> set (bad_block_reports evs1) \<subseteq> {pg * page_size ci} \<and>
               \<not> nand_bad_block_table_lookup a w"
      and run: "(\<exists>r. np_erase_loop ci cmd_len pib a pg l w =
                    Some (r, w\<lparr>trace := trace w @ evs1\<rparr>))
             \<or> np_erase_loop ci cmd_len pib a pg l w =
                 np_erase_loop ci cmd_len pib (a + block_size ci) (pg + pib) l'
                   (w\<lparr>trace := trace w @ evs1\<rparr>)"
      unfolding l'_def by blast
    have touched1: "(\<lambda>p. unat p * 2 ^ j) ` set (erased_pages evs1) \<union>
        unat ` set (bad_block_reports evs1) = {unat a}"
    proof -
      from kind show ?thesis
      proof
        assume "erased_pages evs1 = [] \<and> bad_block_reports evs1 = [a] \<and>
               nand_bad_block_table_lookup a w"
        then show ?thesis by simp
      next
        assume k2: "erased_pages evs1 = [pg] \<and>
          set (bad_block_reports evs1) \<subseteq> {pg * page_size ci} \<and>
          \<not> nand_bad_block_table_lookup a w"
        then have "unat ` set (bad_block_reports evs1) \<subseteq> {unat a}"
          using pa by auto
        then show ?thesis
          using k2 less.prems(1) by auto
      qed
    qed
    have good1: "\<forall>p \<in> set (erased_pages evs1).
        unat p * 2 ^ j \<notin> unat ` set (bad_block_table w)"
      using kind less.prems(1) lk by auto
    have lge: "2 ^ k \<le> unat l" if "2 ^ k dvd unat l"
      using that l0 by (metis dvd_imp_le unat_gt_0)
    from run show ?thesis
    proof
      assume "\<exists>r. np_erase_loop ci cmd_len pib a pg l w = Some (r, w\<lparr>trace := trace w @ evs1\<rparr>)"
      then obtain r where
        r: "np_erase_loop ci cmd_len pib a pg l w = Some (r, w\<lparr>trace := trace w @ evs1\<rparr>)"
        by blast
      have "erase_post ci j k cmd_len (bad_block_table w) a l evs1 1"
        using touched1 good1 ua lge by (rule erase_post_1)
      with r show ?thesis
        by blast
    next
      define w1 where "w1 = w\<lparr>trace := trace w @ evs1\<rparr>"
      assume "np_erase_loop ci cmd_len pib a pg l w =
          np_erase_loop ci cmd_len pib (a + block_size ci) (pg + pib) l'
            (w\<lparr>trace := trace w @ evs1\<rparr>)"
      then have c: "np_erase_loop ci cmd_len pib a pg l w =
          np_erase_loop ci cmd_len pib (a + block_size ci) (pg + pib) l' w1"
        by (simp add: w1_def)
      have "(0 :: nat) < 2 ^ k"
        by simp
      then have m: "unat (chip_size ci) - unat (a + block_size ci) < unat (chip_size ci) - unat a"
        using a' ua by linarith
      have "\<exists>r evs n.
          np_erase_loop ci cmd_len (block_size ci div page_size ci) (a + block_size ci)
            (pg + pib) l' w1 = Some (r, w1\<lparr>trace := trace w1 @ evs\<rparr>)
        \<and> erase_post ci j k cmd_len (bad_block_table w1) (a + block_size ci) l' evs n"
        using m inv1 inv2 by (rule less.hyps)
      then obtain r evs n where
        ih: "np_erase_loop ci cmd_len pib (a + block_size ci) (pg + pib) l' w1 =
               Some (r, w1\<lparr>trace := trace w1 @ evs\<rparr>)"
          "erase_post ci j k cmd_len (bad_block_table w1) (a + block_size ci) l' evs n"
        unfolding pib_def by blast
      have res: "np_erase_loop ci cmd_len pib a pg l w =
          Some (r, w\<lparr>trace := trace w @ evs1 @ evs\<rparr>)"
        using c ih(1) by (simp add: w1_def)
      have ul: "unat l' = unat l - 2 ^ k"
        if "2 ^ k dvd unat l"
          and "unat a \<notin> unat ` set (bad_block_table w) \<or> cmd_len = chip_size ci"
        using that lge lk bs by (simp add: l'_def unat_sub_no_wrap)
      have "erase_post ci j k cmd_len (bad_block_table w) a l (evs1 @ evs) (Suc n)"
        using touched1 good1 ua a' lge ul
      proof (rule erase_post_Suc)
        show "erase_post ci j k cmd_len (bad_block_table w) (a + block_size ci) l' evs n"
          using ih(2) by (simp add: w1_def)
      qed
      with res show ?thesis
        by blast
    qed
  qed
  then show ?case
    by (simp add: pib_def)
qed

lemma erase_post_cong:
  "erased_pages evs = erased_pages evs' \<Longrightarrow> bad_block_reports evs = bad_block_reports evs' \<Longrightarrow>
   erase_post ci j k cmd_len tbl a l evs n = erase_post ci j k cmd_len tbl a l evs' n"
  by (simp add: erase_post_def)

lemma erase_post_led:
  "erase_post ci j k cmd_len tbl a l (Led_wr_set True # evs @ [Led_wr_set False]) n =
   erase_post ci j k cmd_len tbl a l evs n"
  by (rule erase_post_cong) simp_all

lemma np_cmd_nand_erase_wrap:
  assumes "np_cmd_nand_erase_inner prog (emit (Led_wr_set True) w) rx =
      Some (r, prog', (emit (Led_wr_set True) w)\<lparr>trace := trace w @ Led_wr_set True # evs\<rparr>)"
  shows "np_cmd_nand_erase prog w rx =
      Some (r, prog', w\<lparr>trace := trace w @ Led_wr_set True # evs @ [Led_wr_set False]\<rparr>)"
  using assms by (simp add: np_cmd_nand_erase_def emit_def)

lemma np_cmd_nand_erase_inner_invalid:
  assumes "chip_info prog = Some ci"
    and "rx_addr rx AND (block_size ci - 1) \<noteq> 0 \<or> rx_len rx = 0 \<or>
      rx_len rx AND (block_size ci - 1) \<noteq> 0 \<or> rx_addr rx + rx_len rx > chip_size ci"
  shows "\<exists>r m args. np_cmd_nand_erase_inner prog w rx =
      Some (r, prog, w\<lparr>trace := trace w @ [Error_print m args]\<rparr>)"
proof -
  consider (a) "rx_addr rx AND (block_size ci - 1) \<noteq> 0"
    | (b) "rx_addr rx AND (block_size ci - 1) = 0" "rx_len rx = 0"
    | (c) "rx_addr rx AND (block_size ci - 1) = 0" "rx_len rx \<noteq> 0"
        "rx_len rx AND (block_size ci - 1) \<noteq> 0"
    | (d) "rx_addr rx AND (block_size ci - 1) = 0" "rx_len rx \<noteq> 0"
        "rx_len rx AND (block_size ci - 1) = 0" "rx_addr rx + rx_len rx > chip_size ci"
    using assms(2) by blast
  then show ?thesis
  proof cases
    case a
    then show ?thesis
      using assms(1)
      by (simp add: np_cmd_nand_erase_inner_def Let_def error_print_def emit_def) blast
  next
    case b
    then show ?thesis
      using assms(1)
      by (simp add: np_cmd_nand_erase_inner_def Let_def error_print_def emit_def) blast
  next
    case c
    then show ?thesis
      using assms(1)
      by (simp add: np_cmd_nand_erase_inner_def Let_def error_print_def emit_def) blast
  next
    case d
    then show ?thesis
      using assms(1)
      by (simp add: np_cmd_nand_erase_inner_def Let_def error_print_def emit_def) blast
  qed
qed

lemma np_cmd_nand_erase_run:
  assumes geo: "page_size ci = 2 ^ j" "block_size ci = 2 ^ k" "j \<le> k" "k < 32"
      "unat (chip_size ci) + 2 ^ k \<le> 2 ^ 32"
    and ci: "chip_info prog = Some ci"
  shows "\<exists>r evs n.
      np_cmd_nand_erase prog w rx = Some (r, prog, w\<lparr>trace := trace w @ evs\<rparr>)
    \<and> erase_post ci j k (rx_len rx) (bad_block_table w) (rx_addr rx) (rx_len rx) evs n"
proof (cases "rx_addr rx AND (block_size ci - 1) \<noteq> 0 \<or> rx_len rx = 0 \<or>
    rx_len rx AND (block_size ci - 1) \<noteq> 0 \<or> rx_addr rx + rx_len rx > chip_size ci")
  case True
  define w0 where "w0 = emit (Led_wr_set True) w"
  from np_cmd_nand_erase_inner_invalid [OF ci True, of w0]
  obtain r m args where "np_cmd_nand_erase_inner prog w0 rx =
      Some (r, prog, w0\<lparr>trace := trace w0 @ [Error_print m args]\<rparr>)"
    by blast
  then have "np_cmd_nand_erase_inner prog (emit (Led_wr_set True) w) rx =
      Some (r, prog, (emit (Led_wr_set True) w)\<lparr>trace :=
        trace w @ Led_wr_set True # [Error_print m args]\<rparr>)"
    by (simp add: w0_def)
  then have "np_cmd_nand_erase prog w rx = Some (r, prog,
      w\<lparr>trace := trace w @ Led_wr_set True # [Error_print m args] @ [Led_wr_set False]\<rparr>)"
    by (rule np_cmd_nand_erase_wrap)
  moreover have "erase_post ci j k (rx_len rx) (bad_block_table w) (rx_addr rx) (rx_len rx)
      (Led_wr_set True # [Error_print m args] @ [Led_wr_set False]) 0"
    by (rule erase_post_0) simp_all
  ultimately show ?thesis
    by blast
next
  case False
  define w0 where "w0 = emit (Led_wr_set True) w"
  have al: "2 ^ k dvd unat (rx_addr rx)"
    using False geo(2) by (simp add: aligned_iff_dvd)
  have "2 ^ j dvd (2 :: nat) ^ k"
    using geo(3) by (simp add: le_imp_power_dvd)
  then have "2 ^ j dvd unat (rx_addr rx)"
    using al by (rule dvd_trans)
  moreover have j: "j < 32"
    using geo(3,4) by simp
  ultimately have pg: "unat (rx_addr rx div page_size ci) * 2 ^ j = unat (rx_addr rx)"
    using geo(1) by (simp add: div_mult_aligned)
  have ps: "page_size ci \<noteq> 0"
    using geo(1) j by simp
  from np_erase_loop_run [OF geo pg al, of "rx_len rx" "rx_len rx" w0]
  obtain r evs n where
    run: "np_erase_loop ci (rx_len rx) (block_size ci div page_size ci) (rx_addr rx)
            (rx_addr rx div page_size ci) (rx_len rx) w0 =
          Some (r, w0\<lparr>trace := trace w0 @ evs\<rparr>)"
      "erase_post ci j k (rx_len rx) (bad_block_table w0) (rx_addr rx) (rx_len rx) evs n"
    by blast
  have v: "rx_addr rx AND (block_size ci - 1) = 0" "rx_len rx \<noteq> 0"
    "rx_len rx AND (block_size ci - 1) = 0" "\<not> rx_addr rx + rx_len rx > chip_size ci"
    using False by simp_all
  have "np_cmd_nand_erase_inner prog w0 rx = Some (r, prog, w0\<lparr>trace := trace w0 @ evs\<rparr>)"
    using v ci ps run(1) by (simp add: np_cmd_nand_erase_inner_def Let_def)
  then have "np_cmd_nand_erase_inner prog (emit (Led_wr_set True) w) rx =
      Some (r, prog, (emit (Led_wr_set True) w)\<lparr>trace := trace w @ Led_wr_set True # evs\<rparr>)"
    by (simp add: w0_def)
  then have "np_cmd_nand_erase prog w rx = Some (r, prog,
      w\<lparr>trace := trace w @ Led_wr_set True # evs @ [Led_wr_set False]\<rparr>)"
    by (rule np_cmd_nand_erase_wrap)
  moreover have "erase_post ci j k (rx_len rx) (bad_block_table w) (rx_addr rx) (rx_len rx)
      (Led_wr_set True # evs @ [Led_wr_set False]) n"
    using run(2) by (simp only: erase_post_led) (simp add: w0_def)
  ultimately show ?thesis
    by blast
qed

lemma world0_simps:
  "trace world0 = []" "nand_reply world0 i = NAND_READY" "nand_data_reply world0 i = []"
  "send_fails world0 i = False" "send_ready_reply world0 i = True"
  "bad_block_add_fails world0 i = False" "chip_db world0 n = (if n = 0 then Some chip0 else None)"
  "chip_selected world0 = None" "bad_block_table world0 = []"
  by (simp_all add: world0_def)

lemma chip0_simps:
  "page_size chip0 = 0x800" "block_size chip0 = 0x20000" "chip_size chip0 = 0x4000000"
  by (simp_all add: chip0_def)

lemmas erase_eval_defs =
  emit_def error_print_def Let_def nand_bad_block_table_lookup_def
  np_send_bad_block_info_def np_send_ok_status_def comm_send_def np_nand_erase_def
  nand_erase_block_def world0_simps chip0_simps


lemma erase_post_bounds:
  assumes "erase_post ci j k cmd_len tbl a l evs n" and "p \<in> set (erased_pages evs)"
  shows "unat a \<le> unat p * 2 ^ j \<and> unat p * 2 ^ j < unat (chip_size ci)
    \<and> unat p * 2 ^ j \<notin> unat ` set tbl
    \<and> (2 ^ k dvd unat l \<and>
        (cmd_len = chip_size ci \<or>
         (\<forall>b \<in> set tbl. \<not> (unat a \<le> unat b \<and> unat b < unat a + unat l)))
        \<longrightarrow> unat p * 2 ^ j < unat a + unat l)"
proof -
  have "unat p * 2 ^ j \<in> (\<lambda>p. unat p * 2 ^ j) ` set (erased_pages evs) \<union>
      unat ` set (bad_block_reports evs)"
    using assms(2) by simp
  then have "unat p * 2 ^ j \<in> (\<lambda>i. unat a + i * 2 ^ k) ` {..<n}"
    using assms(1) by (simp only: erase_post_def)
  then obtain i where i: "i < n" "unat p * 2 ^ j = unat a + i * 2 ^ k"
    by auto
  have lt: "unat a + i * 2 ^ k < unat (chip_size ci)"
    using assms(1) i(1) by (simp add: erase_post_def)
  have nb: "unat p * 2 ^ j \<notin> unat ` set tbl"
    using assms by (simp add: erase_post_def)
  have "unat p * 2 ^ j < unat a + unat l"
    if "2 ^ k dvd unat l" "cmd_len = chip_size ci \<or>
         (\<forall>b \<in> set tbl. \<not> (unat a \<le> unat b \<and> unat b < unat a + unat l))"
  proof -
    have "n * 2 ^ k \<le> unat l"
      using assms(1) that unfolding erase_post_def by blast
    moreover have "Suc i * 2 ^ k \<le> n * 2 ^ k"
      using i(1) by (intro mult_le_mono1) simp
    then have "2 ^ k + i * 2 ^ k \<le> n * 2 ^ k"
      by simp
    moreover have "(0 :: nat) < 2 ^ k"
      by simp
    ultimately show ?thesis
      using i(2) by linarith
  qed
  with i lt nb show ?thesis
    by simp
qed

lemma erase_calls_append [simp]: "erase_calls (xs @ ys) = erase_calls xs @ erase_calls ys"
  by (induction xs rule: erase_calls.induct) simp_all

lemma erased_pages_calls: "erased_pages evs = map fst (erase_calls evs)"
  by (induction evs rule: erase_calls.induct) simp_all

lemma erase_detail_0:
  assumes "erase_calls evs = []" "bad_block_reports evs = []" "r = 0 \<Longrightarrow> l = 0"
  shows "erase_detail ci k cmd_len tbl l r evs 0"
  using assms by (auto simp: erase_detail_def)

text \<open>One turn of the loop on the block at \<open>a\<close>, page \<open>pg\<close>, followed by the rest.\<close>

lemma erase_detail_Suc:
  assumes kind: "erase_calls evs1 = [] \<and> bad_block_reports evs1 = [a] \<and> a \<in> set tbl
      \<or> (\<exists>st. erase_calls evs1 = [(pg, st)] \<and> a \<notin> set tbl \<and> pg * page_size ci = a \<and>
           bad_block_reports evs1 = (if st = NAND_ERROR then [a] else []) \<and>
           (st = NAND_TIMEOUT_ERROR \<longrightarrow>
              Error_print ''NAND erase timeout at 0x%lx'' [a] \<in> set evs1) \<and>
           (st = NAND_BUSY \<or> st = NAND_OTHER \<longrightarrow> r = NP_ERR_NAND_ERASE))"
    and l0: "2 ^ k dvd unat l \<Longrightarrow> 2 ^ k \<le> unat l"
    and l': "2 ^ k dvd unat l \<Longrightarrow> r = 0 \<Longrightarrow>
        unat l' = unat l - (if a \<notin> set tbl \<or> cmd_len = chip_size ci then 2 ^ k else 0)"
    and rest: "erase_detail ci k cmd_len tbl l' r evs n"
    and fresh: "a \<notin> set (bad_block_reports evs)"
      "\<forall>(p, st) \<in> set (erase_calls evs). p * page_size ci \<noteq> a"
  shows "erase_detail ci k cmd_len tbl l r (evs1 @ evs) (Suc n)"
proof -
  let ?T = "\<lambda>xs. length (filter (\<lambda>b. b \<in> set tbl) (bad_block_reports xs))"
  let ?C = "\<lambda>xs. length (erase_calls xs) + (if cmd_len = chip_size ci then ?T xs else 0)"
  have r1: "\<forall>(p, st) \<in> set (erase_calls evs).
         (st = NAND_ERROR \<longleftrightarrow> p * page_size ci \<in> set (bad_block_reports evs)) \<and>
         (st = NAND_TIMEOUT_ERROR \<longrightarrow>
            Error_print ''NAND erase timeout at 0x%lx'' [p * page_size ci] \<in> set evs) \<and>
         (st = NAND_BUSY \<or> st = NAND_OTHER \<longrightarrow> r = NP_ERR_NAND_ERASE)"
    and r2: "\<forall>b \<in> set (bad_block_reports evs).
         b \<in> set tbl \<or> (\<exists>p. (p, NAND_ERROR) \<in> set (erase_calls evs) \<and> b = p * page_size ci)"
    and r3: "n = length (erase_calls evs) + ?T evs"
    and r4: "2 ^ k dvd unat l' \<and> r = 0 \<longrightarrow> ?C evs * 2 ^ k = unat l'"
    using rest unfolding erase_detail_def by blast+
  have s1: "\<forall>(p, st) \<in> set (erase_calls evs1).
         (st = NAND_ERROR \<longleftrightarrow> p * page_size ci \<in> set (bad_block_reports evs1)) \<and>
         (st = NAND_TIMEOUT_ERROR \<longrightarrow>
            Error_print ''NAND erase timeout at 0x%lx'' [p * page_size ci] \<in> set evs1) \<and>
         (st = NAND_BUSY \<or> st = NAND_OTHER \<longrightarrow> r = NP_ERR_NAND_ERASE)"
    using kind by auto
  have s2: "\<forall>b \<in> set (bad_block_reports evs1).
         b \<in> set tbl \<or> (\<exists>p. (p, NAND_ERROR) \<in> set (erase_calls evs1) \<and> b = p * page_size ci)"
    using kind by (auto split: if_splits)
  have s3: "length (erase_calls evs1) + ?T evs1 = 1"
    using kind by auto
  have s4: "?C evs1 = (if a \<notin> set tbl \<or> cmd_len = chip_size ci then 1 else 0)"
    using kind by auto
  have c1: "\<forall>(p, st) \<in> set (erase_calls (evs1 @ evs)).
         (st = NAND_ERROR \<longleftrightarrow> p * page_size ci \<in> set (bad_block_reports (evs1 @ evs))) \<and>
         (st = NAND_TIMEOUT_ERROR \<longrightarrow>
            Error_print ''NAND erase timeout at 0x%lx'' [p * page_size ci] \<in> set (evs1 @ evs)) \<and>
         (st = NAND_BUSY \<or> st = NAND_OTHER \<longrightarrow> r = NP_ERR_NAND_ERASE)"
  proof (intro ballI, clarify)
    fix p st assume "(p, st) \<in> set (erase_calls (evs1 @ evs))"
    then consider (one) "(p, st) \<in> set (erase_calls evs1)" | (two) "(p, st) \<in> set (erase_calls evs)"
      by auto
    then show "(st = NAND_ERROR \<longleftrightarrow> p * page_size ci \<in> set (bad_block_reports (evs1 @ evs))) \<and>
         (st = NAND_TIMEOUT_ERROR \<longrightarrow>
            Error_print ''NAND erase timeout at 0x%lx'' [p * page_size ci] \<in> set (evs1 @ evs)) \<and>
         (st = NAND_BUSY \<or> st = NAND_OTHER \<longrightarrow> r = NP_ERR_NAND_ERASE)"
    proof cases
      case one
      then have k: "erase_calls evs1 = [(p, st)]" "p * page_size ci = a"
        "bad_block_reports evs1 = (if st = NAND_ERROR then [a] else [])"
        using kind by auto
      from s1 one fresh(1) k show ?thesis
        by (auto split: if_splits)
    next
      case two
      then have "p * page_size ci \<noteq> a"
        using fresh(2) by blast
      moreover have "set (bad_block_reports evs1) \<subseteq> {a}"
        using kind by (auto split: if_splits)
      ultimately have "p * page_size ci \<notin> set (bad_block_reports evs1)"
        by blast
      with r1 two show ?thesis
        by auto
    qed
  qed
  have c2: "\<forall>b \<in> set (bad_block_reports (evs1 @ evs)).
         b \<in> set tbl \<or>
         (\<exists>p. (p, NAND_ERROR) \<in> set (erase_calls (evs1 @ evs)) \<and> b = p * page_size ci)"
    using r2 s2 by fastforce
  have c3: "Suc n = length (erase_calls (evs1 @ evs)) + ?T (evs1 @ evs)"
    using r3 s3 by simp
  have c4: "?C (evs1 @ evs) * 2 ^ k = unat l" if d: "2 ^ k dvd unat l" and z: "r = 0"
  proof -
    have ge: "2 ^ k \<le> unat l"
      using d by (rule l0)
    have ul: "unat l' = unat l - (if a \<notin> set tbl \<or> cmd_len = chip_size ci then 2 ^ k else 0)"
      using d z by (rule l')
    have "2 ^ k dvd unat l'"
      using ul d ge by (simp add: dvd_diff_nat)
    then have e: "?C evs * 2 ^ k = unat l'"
      using r4 z by blast
    have "?C (evs1 @ evs) = ?C evs1 + ?C evs"
      by simp
    then have "?C (evs1 @ evs) * 2 ^ k = ?C evs1 * 2 ^ k + unat l'"
      using e by (simp only: add_mult_distrib)
    then show ?thesis
      using s4 ul ge by (simp split: if_splits)
  qed
  show ?thesis
    unfolding erase_detail_def using c1 c2 c3 c4 by blast
qed

lemma np_erase_loop_step_detail:
  assumes "l \<noteq> 0" and "a < chip_size ci" and pa: "pg * page_size ci = a"
  shows "\<exists>evs1 r.
      (erase_calls evs1 = [] \<and> bad_block_reports evs1 = [a] \<and> a \<in> set (bad_block_table w)
       \<or> (\<exists>st. erase_calls evs1 = [(pg, st)] \<and> a \<notin> set (bad_block_table w) \<and>
            bad_block_reports evs1 = (if st = NAND_ERROR then [a] else []) \<and>
            (st = NAND_TIMEOUT_ERROR \<longrightarrow>
               Error_print ''NAND erase timeout at 0x%lx'' [a] \<in> set evs1) \<and>
            (st = NAND_BUSY \<or> st = NAND_OTHER \<longrightarrow> r = NP_ERR_NAND_ERASE)))
    \<and> (r \<noteq> 0 \<and> np_erase_loop ci cmd_len pib a pg l w = Some (r, w\<lparr>trace := trace w @ evs1\<rparr>)
       \<or> r = 0 \<and> np_erase_loop ci cmd_len pib a pg l w =
           np_erase_loop ci cmd_len pib (a + block_size ci) (pg + pib)
             (if \<not> nand_bad_block_table_lookup a w \<or> cmd_len = chip_size ci
              then l - block_size ci else l)
             (w\<lparr>trace := trace w @ evs1\<rparr>))"
proof (cases "nand_bad_block_table_lookup a w")
  case True
  let ?evs = "[Send (RESP_BAD_BLOCK a)]"
  define r :: int where "r = (if send_fails w (length (trace w)) then - 1 else 0)"
  have "r \<noteq> 0 \<and> np_erase_loop ci cmd_len pib a pg l w = Some (r, w\<lparr>trace := trace w @ ?evs\<rparr>)
       \<or> r = 0 \<and> np_erase_loop ci cmd_len pib a pg l w =
           np_erase_loop ci cmd_len pib (a + block_size ci) (pg + pib)
             (if \<not> nand_bad_block_table_lookup a w \<or> cmd_len = chip_size ci
              then l - block_size ci else l)
             (w\<lparr>trace := trace w @ ?evs\<rparr>)"
    using assms(1,2) True unfolding r_def
    by (subst np_erase_loop.simps, subst (2) np_erase_loop.simps)
      (simp add: Let_def not_le [symmetric] np_send_bad_block_info_def comm_send_def emit_def)
  moreover have "a \<in> set (bad_block_table w)"
    using True by (simp add: nand_bad_block_table_lookup_def)
  ultimately show ?thesis
    by (intro exI [of _ ?evs] exI [of _ r]) simp
next
  case False
  define st where "st = nand_reply w (length (trace w))"
  let ?e = "Nand_erase_block pg st"
  define evs where "evs =
     (case st of NAND_READY \<Rightarrow> [?e]
      | NAND_ERROR \<Rightarrow> [?e, Send (RESP_BAD_BLOCK a)]
      | NAND_TIMEOUT_ERROR \<Rightarrow> [?e, Error_print ''NAND erase timeout at 0x%lx'' [a]]
      | _ \<Rightarrow> [?e, Error_print ''Unknown NAND status'' []])"
  define r2 :: int where "r2 =
     (case st of NAND_READY \<Rightarrow> 0
      | NAND_ERROR \<Rightarrow> (if send_fails w (Suc (length (trace w))) then - 1 else 0)
      | NAND_TIMEOUT_ERROR \<Rightarrow> 0
      | _ \<Rightarrow> - 1)"
  define r :: int where "r = (if r2 \<noteq> 0 then NP_ERR_NAND_ERASE else 0)"
  have na: "a \<notin> set (bad_block_table w)"
    using False by (simp add: nand_bad_block_table_lookup_def)
  have ev: "erase_calls evs = [(pg, st)]"
      "bad_block_reports evs = (if st = NAND_ERROR then [a] else [])"
      "st = NAND_TIMEOUT_ERROR \<longrightarrow> Error_print ''NAND erase timeout at 0x%lx'' [a] \<in> set evs"
      "st = NAND_BUSY \<or> st = NAND_OTHER \<longrightarrow> r = NP_ERR_NAND_ERASE"
    by (cases st; simp add: evs_def r_def r2_def)+
  have en: "np_nand_erase ci pg w = (r2, w\<lparr>trace := trace w @ evs\<rparr>)"
    by (cases st)
      (simp_all add: np_nand_erase_def nand_erase_block_def Let_def st_def [symmetric] evs_def
        r2_def pa np_send_bad_block_info_def comm_send_def emit_def error_print_def)
  have "r \<noteq> 0 \<and> np_erase_loop ci cmd_len pib a pg l w = Some (r, w\<lparr>trace := trace w @ evs\<rparr>)
       \<or> r = 0 \<and> np_erase_loop ci cmd_len pib a pg l w =
           np_erase_loop ci cmd_len pib (a + block_size ci) (pg + pib)
             (if \<not> nand_bad_block_table_lookup a w \<or> cmd_len = chip_size ci
              then l - block_size ci else l)
             (w\<lparr>trace := trace w @ evs\<rparr>)"
    using assms(1,2) False en unfolding r_def
    by (subst np_erase_loop.simps, subst (2) np_erase_loop.simps)
      (simp add: Let_def not_le [symmetric] NP_ERR_NAND_ERASE_def)
  with na ev show ?thesis
    by (intro exI [of _ evs] exI [of _ r]) simp
qed

lemma erase_detail_cong:
  assumes "erase_calls evs = erase_calls evs'"
    and "bad_block_reports evs = bad_block_reports evs'"
    and "set evs \<subseteq> set evs'"
    and "erase_detail ci k cmd_len tbl l r evs n"
  shows "erase_detail ci k cmd_len tbl l r evs' n"
proof -
  note d = assms(4) [unfolded erase_detail_def assms(1,2)]
  have 1: "\<forall>(p, st) \<in> set (erase_calls evs').
         (st = NAND_ERROR \<longleftrightarrow> p * page_size ci \<in> set (bad_block_reports evs')) \<and>
         (st = NAND_TIMEOUT_ERROR \<longrightarrow>
            Error_print ''NAND erase timeout at 0x%lx'' [p * page_size ci] \<in> set evs') \<and>
         (st = NAND_BUSY \<or> st = NAND_OTHER \<longrightarrow> r = NP_ERR_NAND_ERASE)"
  proof (intro ballI, clarify)
    fix p st assume m: "(p, st) \<in> set (erase_calls evs')"
    from d [THEN conjunct1, rule_format, OF m]
    show "(st = NAND_ERROR \<longleftrightarrow> p * page_size ci \<in> set (bad_block_reports evs')) \<and>
         (st = NAND_TIMEOUT_ERROR \<longrightarrow>
            Error_print ''NAND erase timeout at 0x%lx'' [p * page_size ci] \<in> set evs') \<and>
         (st = NAND_BUSY \<or> st = NAND_OTHER \<longrightarrow> r = NP_ERR_NAND_ERASE)"
      using assms(3) by (simp add: subset_iff)
  qed
  show ?thesis
    unfolding erase_detail_def
    using 1 d [THEN conjunct2] by (intro conjI) (elim conjE; assumption)+
qed

lemma erase_detail_led:
  "erase_detail ci k cmd_len tbl l r evs n \<Longrightarrow>
   erase_detail ci k cmd_len tbl l r (Led_wr_set True # evs @ [Led_wr_set False]) n"
  by (rule erase_detail_cong [of evs]) (simp_all add: subset_iff)

lemma np_erase_loop_run_detail:
  assumes geo: "page_size ci = 2 ^ j" "block_size ci = 2 ^ k" "j \<le> k" "k < 32"
      "unat (chip_size ci) + 2 ^ k \<le> 2 ^ 32"
    and inv: "unat pg * 2 ^ j = unat a" "2 ^ k dvd unat a"
  shows "\<exists>r evs n.
      np_erase_loop ci cmd_len (block_size ci div page_size ci) a pg l w =
        Some (r, w\<lparr>trace := trace w @ evs\<rparr>)
    \<and> erase_post ci j k cmd_len (bad_block_table w) a l evs n
    \<and> erase_detail ci k cmd_len (bad_block_table w) l r evs n"
  using inv
proof (induction "unat (chip_size ci) - unat a" arbitrary: a pg l w rule: less_induct)
  case less
  define pib where "pib = block_size ci div page_size ci"
  define tbl where "tbl = bad_block_table w"
  have "\<exists>r evs n.
      np_erase_loop ci cmd_len pib a pg l w = Some (r, w\<lparr>trace := trace w @ evs\<rparr>)
    \<and> erase_post ci j k cmd_len tbl a l evs n
    \<and> erase_detail ci k cmd_len tbl l r evs n"
  proof (cases "l = 0 \<or> chip_size ci \<le> a")
    case True
    then have "\<exists>r e. np_erase_loop ci cmd_len pib a pg l w = Some (r, w\<lparr>trace := trace w @ [e]\<rparr>)
        \<and> erased_pages [e] = [] \<and> bad_block_reports [e] = [] \<and> erase_calls [e] = []
        \<and> (r = 0 \<longrightarrow> l = 0)"
      by (subst np_erase_loop.simps)
        (auto simp: np_send_ok_status_def comm_send_def emit_def error_print_def
          NP_ERR_ADDR_EXCEEDED_def)
    then obtain r e where
      e: "np_erase_loop ci cmd_len pib a pg l w = Some (r, w\<lparr>trace := trace w @ [e]\<rparr>)"
      "erased_pages [e] = []" "bad_block_reports [e] = []" "erase_calls [e] = []"
      "r = 0 \<Longrightarrow> l = 0"
      by blast
    have "erase_post ci j k cmd_len tbl a l [e] 0"
      using e(2,3) by (rule erase_post_0)
    moreover have "erase_detail ci k cmd_len tbl l r [e] 0"
      using e(4,3,5) by (rule erase_detail_0)
    ultimately show ?thesis
      using e(1) by blast
  next
    case False
    then have l0: "l \<noteq> 0" and lt: "a < chip_size ci"
      by (simp_all add: not_le)
    have ua: "unat a < unat (chip_size ci)"
      using lt by (simp add: word_less_nat_alt)
    have bs: "unat (block_size ci) = 2 ^ k"
      using geo by (simp add: unat_pow2_32)
    have upib: "unat pib = 2 ^ (k - j)"
      using geo by (simp add: pib_def pow2_div_pow2_32)
    have a': "unat (a + block_size ci) = unat a + 2 ^ k"
      using ua geo(5) bs by (simp add: unat_add_no_wrap)
    have e: "(unat pg + 2 ^ (k - j)) * 2 ^ j = unat a + 2 ^ k"
      using less.prems(1) geo(3) by (simp add: algebra_simps flip: power_add)
    have "unat pg + 2 ^ (k - j) \<le> (unat pg + 2 ^ (k - j)) * 2 ^ j"
      by simp
    then have "unat pg + 2 ^ (k - j) < 2 ^ 32"
      using e ua geo(5) by linarith
    then have pg': "unat (pg + pib) = unat pg + 2 ^ (k - j)"
      using upib by (simp add: unat_add_no_wrap)
    have inv1: "unat (pg + pib) * 2 ^ j = unat (a + block_size ci)"
      using pg' a' e by simp
    have inv2: "2 ^ k dvd unat (a + block_size ci)"
      using a' less.prems(2) by simp
    have pa: "pg * page_size ci = a"
    proof -
      have "pg * page_size ci = of_nat (unat pg * 2 ^ j)"
        using geo(1) by simp
      also have "\<dots> = of_nat (unat a)"
        using less.prems(1) by simp
      also have "\<dots> = a"
        by simp
      finally show ?thesis .
    qed
    have lk: "nand_bad_block_table_lookup a w \<longleftrightarrow> a \<in> set tbl"
      by (simp add: nand_bad_block_table_lookup_def tbl_def)
    have mem: "unat a \<in> unat ` set tbl \<longleftrightarrow> a \<in> set tbl"
    proof
      assume "unat a \<in> unat ` set tbl"
      then obtain x where x: "x \<in> set tbl" "unat a = unat x"
        by auto
      then have "a = x"
        by (simp add: word_unat_eq_iff)
      with x show "a \<in> set tbl"
        by simp
    qed simp
    define l' where "l' = (if \<not> nand_bad_block_table_lookup a w \<or> cmd_len = chip_size ci
                then l - block_size ci else l)"
    from np_erase_loop_step_detail [OF l0 lt pa, where w = w and cmd_len = cmd_len
        and pib = pib]
    obtain evs1 rs where
      kind: "erase_calls evs1 = [] \<and> bad_block_reports evs1 = [a] \<and> a \<in> set tbl
       \<or> (\<exists>st. erase_calls evs1 = [(pg, st)] \<and> a \<notin> set tbl \<and>
            bad_block_reports evs1 = (if st = NAND_ERROR then [a] else []) \<and>
            (st = NAND_TIMEOUT_ERROR \<longrightarrow>
               Error_print ''NAND erase timeout at 0x%lx'' [a] \<in> set evs1) \<and>
            (st = NAND_BUSY \<or> st = NAND_OTHER \<longrightarrow> rs = NP_ERR_NAND_ERASE))"
      and run: "rs \<noteq> 0 \<and> np_erase_loop ci cmd_len pib a pg l w =
                    Some (rs, w\<lparr>trace := trace w @ evs1\<rparr>)
             \<or> rs = 0 \<and> np_erase_loop ci cmd_len pib a pg l w =
                 np_erase_loop ci cmd_len pib (a + block_size ci) (pg + pib) l'
                   (w\<lparr>trace := trace w @ evs1\<rparr>)"
      unfolding l'_def tbl_def by blast
    have touched1: "(\<lambda>p. unat p * 2 ^ j) ` set (erased_pages evs1) \<union>
        unat ` set (bad_block_reports evs1) = {unat a}"
      using kind less.prems(1) by (auto simp: erased_pages_calls split: if_splits)
    have good1: "\<forall>p \<in> set (erased_pages evs1). unat p * 2 ^ j \<notin> unat ` set tbl"
      using kind less.prems(1) mem by (auto simp: erased_pages_calls)
    have lge: "2 ^ k \<le> unat l" if "2 ^ k dvd unat l"
      using that l0 by (metis dvd_imp_le unat_gt_0)
    have kind_r: "erase_calls evs1 = [] \<and> bad_block_reports evs1 = [a] \<and> a \<in> set tbl
       \<or> (\<exists>st. erase_calls evs1 = [(pg, st)] \<and> a \<notin> set tbl \<and> pg * page_size ci = a \<and>
            bad_block_reports evs1 = (if st = NAND_ERROR then [a] else []) \<and>
            (st = NAND_TIMEOUT_ERROR \<longrightarrow>
               Error_print ''NAND erase timeout at 0x%lx'' [a] \<in> set evs1) \<and>
            (st = NAND_BUSY \<or> st = NAND_OTHER \<longrightarrow> r = NP_ERR_NAND_ERASE))"
      if "rs = 0 \<or> r = rs" for r
    proof -
      from that have "rs = NP_ERR_NAND_ERASE \<longrightarrow> r = NP_ERR_NAND_ERASE"
        by (auto simp: NP_ERR_NAND_ERASE_def)
      then show ?thesis
        using kind pa by blast
    qed
    from run show ?thesis
    proof
      assume h: "rs \<noteq> 0 \<and> np_erase_loop ci cmd_len pib a pg l w =
          Some (rs, w\<lparr>trace := trace w @ evs1\<rparr>)"
      have "erase_post ci j k cmd_len tbl a l evs1 1"
        using touched1 good1 ua lge by (rule erase_post_1)
      moreover have "erase_detail ci k cmd_len tbl l rs (evs1 @ []) (Suc 0)"
      proof (rule erase_detail_Suc [where l' = l])
        show "erase_calls evs1 = [] \<and> bad_block_reports evs1 = [a] \<and> a \<in> set tbl
          \<or> (\<exists>st. erase_calls evs1 = [(pg, st)] \<and> a \<notin> set tbl \<and> pg * page_size ci = a \<and>
            bad_block_reports evs1 = (if st = NAND_ERROR then [a] else []) \<and>
            (st = NAND_TIMEOUT_ERROR \<longrightarrow>
               Error_print ''NAND erase timeout at 0x%lx'' [a] \<in> set evs1) \<and>
            (st = NAND_BUSY \<or> st = NAND_OTHER \<longrightarrow> rs = NP_ERR_NAND_ERASE))"
          by (rule kind_r) simp
        show "2 ^ k \<le> unat l" if "2 ^ k dvd unat l"
          using that by (rule lge)
        show "unat l = unat l - (if a \<notin> set tbl \<or> cmd_len = chip_size ci then 2 ^ k else 0)"
          if "rs = 0"
          using that h by simp
        show "erase_detail ci k cmd_len tbl l rs [] 0"
          using h by (intro erase_detail_0) simp_all
      qed simp_all
      ultimately show ?thesis
        using h by (intro exI [of _ rs] exI [of _ evs1] exI [of _ 1]) simp
    next
      define w1 where "w1 = w\<lparr>trace := trace w @ evs1\<rparr>"
      assume h: "rs = 0 \<and> np_erase_loop ci cmd_len pib a pg l w =
          np_erase_loop ci cmd_len pib (a + block_size ci) (pg + pib) l'
            (w\<lparr>trace := trace w @ evs1\<rparr>)"
      then have c: "np_erase_loop ci cmd_len pib a pg l w =
          np_erase_loop ci cmd_len pib (a + block_size ci) (pg + pib) l' w1"
        by (simp add: w1_def)
      have t1: "bad_block_table w1 = tbl"
        by (simp add: w1_def tbl_def)
      have "(0 :: nat) < 2 ^ k"
        by simp
      then have m: "unat (chip_size ci) - unat (a + block_size ci) < unat (chip_size ci) - unat a"
        using a' ua by linarith
      have "\<exists>r evs n.
          np_erase_loop ci cmd_len (block_size ci div page_size ci) (a + block_size ci)
            (pg + pib) l' w1 = Some (r, w1\<lparr>trace := trace w1 @ evs\<rparr>)
        \<and> erase_post ci j k cmd_len (bad_block_table w1) (a + block_size ci) l' evs n
        \<and> erase_detail ci k cmd_len (bad_block_table w1) l' r evs n"
        using m inv1 inv2 by (rule less.hyps)
      then obtain r evs n where
        ih: "np_erase_loop ci cmd_len pib (a + block_size ci) (pg + pib) l' w1 =
               Some (r, w1\<lparr>trace := trace w1 @ evs\<rparr>)"
          "erase_post ci j k cmd_len tbl (a + block_size ci) l' evs n"
          "erase_detail ci k cmd_len tbl l' r evs n"
        unfolding pib_def t1 by blast
      have res: "np_erase_loop ci cmd_len pib a pg l w =
          Some (r, w\<lparr>trace := trace w @ evs1 @ evs\<rparr>)"
        using c ih(1) by (simp add: w1_def)
      have ul: "unat l' = unat l - 2 ^ k"
        if "2 ^ k dvd unat l"
          and "unat a \<notin> unat ` set tbl \<or> cmd_len = chip_size ci"
        using that lge lk mem bs by (simp add: l'_def unat_sub_no_wrap)
      have ul2: "unat l' = unat l - (if a \<notin> set tbl \<or> cmd_len = chip_size ci then 2 ^ k else 0)"
        if "2 ^ k dvd unat l"
        using that lge lk bs by (simp add: l'_def unat_sub_no_wrap)
      have post: "erase_post ci j k cmd_len tbl a l (evs1 @ evs) (Suc n)"
        using touched1 good1 ua a' lge ul ih(2) by (rule erase_post_Suc)
      have j32: "j < 32"
        using geo(3,4) by simp
      have later: "unat a < x"
        if "x \<in> (\<lambda>p. unat p * 2 ^ j) ` set (erased_pages evs) \<union>
              unat ` set (bad_block_reports evs)" for x
      proof -
        from that ih(2) have "x \<in> (\<lambda>i. unat (a + block_size ci) + i * 2 ^ k) ` {..<n}"
          by (simp only: erase_post_def)
        then show ?thesis
          using a' by auto
      qed
      have "erase_detail ci k cmd_len tbl l r (evs1 @ evs) (Suc n)"
      proof (rule erase_detail_Suc [where l' = l'])
        show "erase_calls evs1 = [] \<and> bad_block_reports evs1 = [a] \<and> a \<in> set tbl
          \<or> (\<exists>st. erase_calls evs1 = [(pg, st)] \<and> a \<notin> set tbl \<and> pg * page_size ci = a \<and>
            bad_block_reports evs1 = (if st = NAND_ERROR then [a] else []) \<and>
            (st = NAND_TIMEOUT_ERROR \<longrightarrow>
               Error_print ''NAND erase timeout at 0x%lx'' [a] \<in> set evs1) \<and>
            (st = NAND_BUSY \<or> st = NAND_OTHER \<longrightarrow> r = NP_ERR_NAND_ERASE))"
          using h by (intro kind_r) simp
        show "2 ^ k \<le> unat l" if "2 ^ k dvd unat l"
          using that by (rule lge)
        show "unat l' = unat l - (if a \<notin> set tbl \<or> cmd_len = chip_size ci then 2 ^ k else 0)"
          if "2 ^ k dvd unat l"
          using that by (rule ul2)
        show "erase_detail ci k cmd_len tbl l' r evs n"
          by (rule ih(3))
        show "a \<notin> set (bad_block_reports evs)"
        proof
          assume "a \<in> set (bad_block_reports evs)"
          then have "unat a \<in> (\<lambda>p. unat p * 2 ^ j) ` set (erased_pages evs) \<union>
              unat ` set (bad_block_reports evs)"
            by simp
          then show False
            using later by blast
        qed
        show "\<forall>(p, st) \<in> set (erase_calls evs). p * page_size ci \<noteq> a"
        proof (intro ballI, clarify)
          fix p st assume m: "(p, st) \<in> set (erase_calls evs)" and eq: "a = p * page_size ci"
          have pe: "p \<in> set (erased_pages evs)"
            using m by (force simp: erased_pages_calls)
          then have "unat p * 2 ^ j \<in> (\<lambda>p. unat p * 2 ^ j) ` set (erased_pages evs) \<union>
              unat ` set (bad_block_reports evs)"
            by simp
          then have gt: "unat a < unat p * 2 ^ j"
            using later by blast
          have "unat p * 2 ^ j < unat (chip_size ci)"
            using erase_post_bounds [OF ih(2) pe] by simp
          then have "unat p * 2 ^ j < 2 ^ 32"
            using geo(5) by linarith
          then have "unat (p * page_size ci) = unat p * 2 ^ j"
            using geo(1) j32 by (simp add: unat_word_ariths unat_pow2_32)
          then show False
            using gt eq by simp
        qed
      qed
      with post res show ?thesis
        by blast
    qed
  qed
  then show ?case
    by (simp add: pib_def tbl_def)
qed

lemma np_cmd_nand_erase_run_detail:
  assumes geo: "page_size ci = 2 ^ j" "block_size ci = 2 ^ k" "j \<le> k" "k < 32"
      "unat (chip_size ci) + 2 ^ k \<le> 2 ^ 32"
    and ci: "chip_info prog = Some ci"
    and valid: "rx_addr rx AND (block_size ci - 1) = 0" "rx_len rx \<noteq> 0"
      "rx_len rx AND (block_size ci - 1) = 0" "\<not> rx_addr rx + rx_len rx > chip_size ci"
  shows "\<exists>r evs n.
      np_cmd_nand_erase prog w rx = Some (r, prog, w\<lparr>trace := trace w @ evs\<rparr>)
    \<and> erase_post ci j k (rx_len rx) (bad_block_table w) (rx_addr rx) (rx_len rx) evs n
    \<and> erase_detail ci k (rx_len rx) (bad_block_table w) (rx_len rx) r evs n"
proof -
  define w0 where "w0 = emit (Led_wr_set True) w"
  have al: "2 ^ k dvd unat (rx_addr rx)"
    using valid(1) geo(2) by (simp add: aligned_iff_dvd)
  have "2 ^ j dvd (2 :: nat) ^ k"
    using geo(3) by (simp add: le_imp_power_dvd)
  then have "2 ^ j dvd unat (rx_addr rx)"
    using al by (rule dvd_trans)
  moreover have j: "j < 32"
    using geo(3,4) by simp
  ultimately have pg: "unat (rx_addr rx div page_size ci) * 2 ^ j = unat (rx_addr rx)"
    using geo(1) by (simp add: div_mult_aligned)
  have ps: "page_size ci \<noteq> 0"
    using geo(1) j by simp
  from np_erase_loop_run_detail [OF geo pg al, of "rx_len rx" "rx_len rx" w0]
  obtain r evs n where
    run: "np_erase_loop ci (rx_len rx) (block_size ci div page_size ci) (rx_addr rx)
            (rx_addr rx div page_size ci) (rx_len rx) w0 =
          Some (r, w0\<lparr>trace := trace w0 @ evs\<rparr>)"
      "erase_post ci j k (rx_len rx) (bad_block_table w0) (rx_addr rx) (rx_len rx) evs n"
      "erase_detail ci k (rx_len rx) (bad_block_table w0) (rx_len rx) r evs n"
    by blast
  have t0: "bad_block_table w0 = bad_block_table w"
    by (simp add: w0_def emit_def)
  have "np_cmd_nand_erase_inner prog w0 rx = Some (r, prog, w0\<lparr>trace := trace w0 @ evs\<rparr>)"
    using valid ci ps run(1) by (simp add: np_cmd_nand_erase_inner_def Let_def)
  then have "np_cmd_nand_erase_inner prog (emit (Led_wr_set True) w) rx =
      Some (r, prog, (emit (Led_wr_set True) w)\<lparr>trace := trace w @ Led_wr_set True # evs\<rparr>)"
    by (simp add: w0_def)
  then have "np_cmd_nand_erase prog w rx = Some (r, prog,
      w\<lparr>trace := trace w @ Led_wr_set True # evs @ [Led_wr_set False]\<rparr>)"
    by (rule np_cmd_nand_erase_wrap)
  moreover have "erase_post ci j k (rx_len rx) (bad_block_table w) (rx_addr rx) (rx_len rx)
      (Led_wr_set True # evs @ [Led_wr_set False]) n"
    using run(2) by (simp only: erase_post_led t0)
  moreover have "erase_detail ci k (rx_len rx) (bad_block_table w) (rx_len rx) r
      (Led_wr_set True # evs @ [Led_wr_set False]) n"
    using run(3) unfolding t0 by (rule erase_detail_led)
  ultimately show ?thesis
    by blast
qed

text \<open>
  C2 (as amended). For every erase request that passes validation (block-aligned address
  and length, non-zero length, address plus length within the chip), on a chip whose
  page and block sizes are powers of two, the command returns, and the blocks it touches
  are the first \<open>n\<close> blocks from the start address, where \<open>n\<close> counts the blocks
  passed to the driver's erase and the reported blocks of the bad block table. A block of
  the table is reported as a bad block and is not passed to the driver. Every other block
  touched is passed to the driver's erase; it starts inside \<open>[addr, chip size)\<close>, and
  then it is erased when the driver answers ready, reported as a bad block when, and only
  when, the driver answers error, and only logged, neither erased nor reported, when the
  driver answers timeout; any other answer ends the command with \<^verbatim>\<open>NP_ERR_NAND_ERASE\<close>.
  Every bad block report is for a block of the table or for a block whose erase the
  driver answered with error. When the command returns 0, the blocks passed to the
  driver, together with the reported table blocks when the request covers the whole chip,
  make up the length asked for. No block outside \<open>[addr, addr + len)\<close> is erased when
  the request covers the whole chip or the table holds no block of that range; otherwise
  the loop does not count the blocks it skips and goes on past \<open>addr + len\<close>.
\<close>

theorem erase_touched_blocks:
  assumes geo: "page_size ci = 2 ^ j" "block_size ci = 2 ^ k" "j \<le> k" "k < 32"
      "unat (chip_size ci) + 2 ^ k \<le> 2 ^ 32"
    and ci: "chip_info prog = Some ci"
    and valid: "rx_addr rx AND (block_size ci - 1) = 0" "rx_len rx \<noteq> 0"
      "rx_len rx AND (block_size ci - 1) = 0"
      "unat (rx_addr rx) + unat (rx_len rx) \<le> unat (chip_size ci)"
  shows "\<exists>r evs n.
      np_cmd_nand_erase prog w rx = Some (r, prog, w\<lparr>trace := trace w @ evs\<rparr>)
    \<and> (\<lambda>p. unat p * unat (page_size ci)) ` set (erased_pages evs) \<union>
        unat ` set (bad_block_reports evs) =
        (\<lambda>i. unat (rx_addr rx) + i * unat (block_size ci)) ` {..<n}
    \<and> n = length (erase_calls evs) +
          length (filter (\<lambda>b. b \<in> set (bad_block_table w)) (bad_block_reports evs))
    \<and> erased_pages evs = map fst (erase_calls evs)
    \<and> (\<forall>p \<in> set (erased_pages evs).
          unat (rx_addr rx) \<le> unat p * unat (page_size ci) \<and>
          unat p * unat (page_size ci) < unat (chip_size ci) \<and>
          unat p * unat (page_size ci) \<notin> unat ` set (bad_block_table w))
    \<and> (\<forall>(p, st) \<in> set (erase_calls evs).
          (st = NAND_ERROR \<longleftrightarrow> p * page_size ci \<in> set (bad_block_reports evs)) \<and>
          (st = NAND_TIMEOUT_ERROR \<longrightarrow>
             Error_print ''NAND erase timeout at 0x%lx'' [p * page_size ci] \<in> set evs) \<and>
          (st = NAND_BUSY \<or> st = NAND_OTHER \<longrightarrow> r = NP_ERR_NAND_ERASE))
    \<and> (\<forall>b \<in> set (bad_block_reports evs).
          b \<in> set (bad_block_table w) \<or>
          (\<exists>p. (p, NAND_ERROR) \<in> set (erase_calls evs) \<and> b = p * page_size ci))
    \<and> (r = 0 \<longrightarrow>
          (length (erase_calls evs) +
           (if rx_len rx = chip_size ci
            then length (filter (\<lambda>b. b \<in> set (bad_block_table w)) (bad_block_reports evs))
            else 0)) * unat (block_size ci) = unat (rx_len rx))
    \<and> (rx_len rx = chip_size ci \<or>
        (\<forall>b \<in> set (bad_block_table w).
           \<not> (unat (rx_addr rx) \<le> unat b \<and> unat b < unat (rx_addr rx) + unat (rx_len rx)))
        \<longrightarrow> (\<forall>p \<in> set (erased_pages evs).
              unat p * unat (page_size ci) < unat (rx_addr rx) + unat (rx_len rx)))"
proof -
  have j: "j < 32"
    using geo(3,4) by simp
  have ps: "unat (page_size ci) = 2 ^ j" and bs: "unat (block_size ci) = 2 ^ k"
    using geo(1,2,4) j by (simp_all add: unat_pow2_32)
  have dl: "2 ^ k dvd unat (rx_len rx)"
    using valid(3) geo(2) by (simp add: aligned_iff_dvd)
  have "(0 :: nat) < 2 ^ k"
    by simp
  then have "unat (rx_addr rx) + unat (rx_len rx) < 2 ^ 32"
    using valid(4) geo(5) by linarith
  then have "unat (rx_addr rx + rx_len rx) = unat (rx_addr rx) + unat (rx_len rx)"
    by (rule unat_add_no_wrap)
  then have v4: "\<not> rx_addr rx + rx_len rx > chip_size ci"
    using valid(4) by (simp add: word_less_nat_alt)
  from np_cmd_nand_erase_run_detail [OF geo ci valid(1-3) v4, of w]
  obtain r evs n where
    run: "np_cmd_nand_erase prog w rx = Some (r, prog, w\<lparr>trace := trace w @ evs\<rparr>)"
    and post: "erase_post ci j k (rx_len rx) (bad_block_table w) (rx_addr rx) (rx_len rx) evs n"
    and det: "erase_detail ci k (rx_len rx) (bad_block_table w) (rx_len rx) r evs n"
    by blast
  have t: "(\<lambda>p. unat p * unat (page_size ci)) ` set (erased_pages evs) \<union>
        unat ` set (bad_block_reports evs) =
        (\<lambda>i. unat (rx_addr rx) + i * unat (block_size ci)) ` {..<n}"
    using post by (simp add: erase_post_def ps bs)
  have b: "\<forall>p \<in> set (erased_pages evs).
          unat (rx_addr rx) \<le> unat p * unat (page_size ci) \<and>
          unat p * unat (page_size ci) < unat (chip_size ci) \<and>
          unat p * unat (page_size ci) \<notin> unat ` set (bad_block_table w)"
    using erase_post_bounds [OF post] by (simp add: ps)
  have c: "\<forall>p \<in> set (erased_pages evs).
              unat p * unat (page_size ci) < unat (rx_addr rx) + unat (rx_len rx)"
    if "rx_len rx = chip_size ci \<or>
        (\<forall>b \<in> set (bad_block_table w).
           \<not> (unat (rx_addr rx) \<le> unat b \<and> unat b < unat (rx_addr rx) + unat (rx_len rx)))"
    using erase_post_bounds [OF post] dl that unfolding ps by blast
  note d = det [unfolded erase_detail_def]
  have d1: "\<forall>(p, st) \<in> set (erase_calls evs).
          (st = NAND_ERROR \<longleftrightarrow> p * page_size ci \<in> set (bad_block_reports evs)) \<and>
          (st = NAND_TIMEOUT_ERROR \<longrightarrow>
             Error_print ''NAND erase timeout at 0x%lx'' [p * page_size ci] \<in> set evs) \<and>
          (st = NAND_BUSY \<or> st = NAND_OTHER \<longrightarrow> r = NP_ERR_NAND_ERASE)"
    by (rule d [THEN conjunct1])
  have d2: "\<forall>b \<in> set (bad_block_reports evs).
          b \<in> set (bad_block_table w) \<or>
          (\<exists>p. (p, NAND_ERROR) \<in> set (erase_calls evs) \<and> b = p * page_size ci)"
    by (rule d [THEN conjunct2, THEN conjunct1])
  have d3: "n = length (erase_calls evs) +
          length (filter (\<lambda>b. b \<in> set (bad_block_table w)) (bad_block_reports evs))"
    by (rule d [THEN conjunct2, THEN conjunct2, THEN conjunct1])
  have d4: "r = 0 \<longrightarrow>
          (length (erase_calls evs) +
           (if rx_len rx = chip_size ci
            then length (filter (\<lambda>b. b \<in> set (bad_block_table w)) (bad_block_reports evs))
            else 0)) * unat (block_size ci) = unat (rx_len rx)"
    using d [THEN conjunct2, THEN conjunct2, THEN conjunct2] dl unfolding bs by blast
  have e: "erased_pages evs = map fst (erase_calls evs)"
    by (rule erased_pages_calls)
  show ?thesis
    apply (rule exI [of _ r], rule exI [of _ evs], rule exI [of _ n])
    apply (rule conjI, rule run)
    apply (rule conjI, rule t)
    apply (rule conjI, rule d3)
    apply (rule conjI, rule e)
    apply (rule conjI, rule b)
    apply (rule conjI, rule d1)
    apply (rule conjI, rule d2)
    apply (rule conjI, rule d4)
    apply (rule impI, rule c, assumption)
    done
qed

theorem erase_touched_blocks_witness:
  "np_cmd_nand_erase (prog0\<lparr>chip_info := Some chip0\<rparr>)
      (world0\<lparr>bad_block_table := [0x60000],
         nand_reply := (\<lambda>i. if i = 1 then NAND_ERROR
                            else if i = 3 then NAND_TIMEOUT_ERROR else NAND_READY)\<rparr>)
      (erase_cmd 0 0x60000) =
     Some (0, prog0\<lparr>chip_info := Some chip0\<rparr>,
       world0\<lparr>bad_block_table := [0x60000],
         nand_reply := (\<lambda>i. if i = 1 then NAND_ERROR
                            else if i = 3 then NAND_TIMEOUT_ERROR else NAND_READY),
         trace := [Led_wr_set True, Nand_erase_block 0 NAND_ERROR, Send (RESP_BAD_BLOCK 0),
           Nand_erase_block 64 NAND_TIMEOUT_ERROR,
           Error_print ''NAND erase timeout at 0x%lx'' [0x20000],
           Nand_erase_block 128 NAND_READY, Send RESP_OK, Led_wr_set False]\<rparr>)
   \<and> (\<lambda>p. unat p * unat (page_size chip0)) `
        set (erased_pages [Led_wr_set True, Nand_erase_block 0 NAND_ERROR,
           Send (RESP_BAD_BLOCK 0), Nand_erase_block 64 NAND_TIMEOUT_ERROR,
           Error_print ''NAND erase timeout at 0x%lx'' [0x20000],
           Nand_erase_block 128 NAND_READY, Send RESP_OK, Led_wr_set False]) \<union>
      unat ` set (bad_block_reports [Led_wr_set True, Nand_erase_block 0 NAND_ERROR,
           Send (RESP_BAD_BLOCK 0), Nand_erase_block 64 NAND_TIMEOUT_ERROR,
           Error_print ''NAND erase timeout at 0x%lx'' [0x20000],
           Nand_erase_block 128 NAND_READY, Send RESP_OK, Led_wr_set False]) =
      (\<lambda>i. unat (0 :: u32) + i * unat (block_size chip0)) ` {..<3}
   \<and> list_all (\<lambda>p. unat p * unat (page_size chip0) < unat (0 :: u32) + unat (0x60000 :: u32))
        (erased_pages [Led_wr_set True, Nand_erase_block 0 NAND_ERROR,
           Send (RESP_BAD_BLOCK 0), Nand_erase_block 64 NAND_TIMEOUT_ERROR,
           Error_print ''NAND erase timeout at 0x%lx'' [0x20000],
           Nand_erase_block 128 NAND_READY, Send RESP_OK, Led_wr_set False])
   \<and> list_all (\<lambda>(p, st).
         (st = NAND_ERROR \<longleftrightarrow>
            p * page_size chip0 \<in> set (bad_block_reports [Led_wr_set True,
              Nand_erase_block 0 NAND_ERROR,
              Send (RESP_BAD_BLOCK 0), Nand_erase_block 64 NAND_TIMEOUT_ERROR,
              Error_print ''NAND erase timeout at 0x%lx'' [0x20000],
              Nand_erase_block 128 NAND_READY, Send RESP_OK, Led_wr_set False])))
        (erase_calls [Led_wr_set True, Nand_erase_block 0 NAND_ERROR,
           Send (RESP_BAD_BLOCK 0), Nand_erase_block 64 NAND_TIMEOUT_ERROR,
           Error_print ''NAND erase timeout at 0x%lx'' [0x20000],
           Nand_erase_block 128 NAND_READY, Send RESP_OK, Led_wr_set False])"
proof -
  let ?P = "prog0\<lparr>chip_info := Some chip0\<rparr>"
  let ?f = "\<lambda>i :: nat. if i = 1 then NAND_ERROR
                            else if i = 3 then NAND_TIMEOUT_ERROR else NAND_READY"
  let ?W = "world0\<lparr>bad_block_table := [0x60000], nand_reply := ?f\<rparr>"
  let ?R = "erase_cmd 0 0x60000"
  let ?E = "[Led_wr_set True, Nand_erase_block 0 NAND_ERROR, Send (RESP_BAD_BLOCK 0),
           Nand_erase_block 64 NAND_TIMEOUT_ERROR,
           Error_print ''NAND erase timeout at 0x%lx'' [0x20000],
           Nand_erase_block 128 NAND_READY, Send RESP_OK, Led_wr_set False]"
  have "np_erase_loop chip0 0x60000 64 0 0 0x60000
      (world0\<lparr>bad_block_table := [0x60000], nand_reply := ?f, trace := [Led_wr_set True]\<rparr>) =
    Some (0, world0\<lparr>bad_block_table := [0x60000], nand_reply := ?f,
         trace := [Led_wr_set True, Nand_erase_block 0 NAND_ERROR, Send (RESP_BAD_BLOCK 0),
           Nand_erase_block 64 NAND_TIMEOUT_ERROR,
           Error_print ''NAND erase timeout at 0x%lx'' [0x20000],
           Nand_erase_block 128 NAND_READY, Send RESP_OK]\<rparr>)"
    apply (subst np_erase_loop.simps, simp add: erase_eval_defs)
    apply (subst np_erase_loop.simps, simp add: erase_eval_defs)
    apply (subst np_erase_loop.simps, simp add: erase_eval_defs)
    apply (subst np_erase_loop.simps, simp add: erase_eval_defs)
    done
  then have run: "np_cmd_nand_erase ?P ?W ?R = Some (0, ?P, ?W\<lparr>trace := ?E\<rparr>)"
    by (simp add: np_cmd_nand_erase_def np_cmd_nand_erase_inner_def erase_cmd_def rx0_def
        emit_def chip0_simps world0_simps NP_CMD_NAND_ERASE_def)
  have g: "page_size chip0 = 2 ^ 11" "block_size chip0 = 2 ^ 17" "(11 :: nat) \<le> 17"
    "(17 :: nat) < 32" "unat (chip_size chip0) + 2 ^ 17 \<le> 2 ^ 32"
    by (simp_all add: chip0_simps)
  have c: "chip_info ?P = Some chip0"
    by simp
  have v: "rx_addr ?R AND (block_size chip0 - 1) = 0" "rx_len ?R \<noteq> 0"
    "rx_len ?R AND (block_size chip0 - 1) = 0"
    "unat (rx_addr ?R) + unat (rx_len ?R) \<le> unat (chip_size chip0)"
    by (simp_all add: chip0_simps erase_cmd_def rx0_def)
  from erase_touched_blocks [OF g c v, of ?W]
  obtain r evs n where
    a: "np_cmd_nand_erase ?P ?W ?R = Some (r, ?P, ?W\<lparr>trace := trace ?W @ evs\<rparr>)"
    and t: "(\<lambda>p. unat p * unat (page_size chip0)) ` set (erased_pages evs) \<union>
        unat ` set (bad_block_reports evs) =
        (\<lambda>i. unat (rx_addr ?R) + i * unat (block_size chip0)) ` {..<n}"
    and n: "n = length (erase_calls evs) +
          length (filter (\<lambda>b. b \<in> set (bad_block_table ?W)) (bad_block_reports evs))"
    and d: "\<forall>(p, st) \<in> set (erase_calls evs).
          (st = NAND_ERROR \<longleftrightarrow> p * page_size chip0 \<in> set (bad_block_reports evs)) \<and>
          (st = NAND_TIMEOUT_ERROR \<longrightarrow>
             Error_print ''NAND erase timeout at 0x%lx'' [p * page_size chip0] \<in> set evs) \<and>
          (st = NAND_BUSY \<or> st = NAND_OTHER \<longrightarrow> r = NP_ERR_NAND_ERASE)"
    and rg: "rx_len ?R = chip_size chip0 \<or>
        (\<forall>b \<in> set (bad_block_table ?W).
           \<not> (unat (rx_addr ?R) \<le> unat b \<and> unat b < unat (rx_addr ?R) + unat (rx_len ?R)))
        \<longrightarrow> (\<forall>p \<in> set (erased_pages evs).
              unat p * unat (page_size chip0) < unat (rx_addr ?R) + unat (rx_len ?R))"
    by (elim exE conjE) blast
  have "?W\<lparr>trace := trace ?W @ evs\<rparr> = ?W\<lparr>trace := ?E\<rparr>"
    using a unfolding run by simp
  then have "trace (?W\<lparr>trace := trace ?W @ evs\<rparr>) = trace (?W\<lparr>trace := ?E\<rparr>)"
    by (rule arg_cong)
  then have evs: "evs = ?E"
    by (simp add: world0_simps)
  have n3: "n = 3"
    unfolding n evs by simp
  have t': "(\<lambda>p. unat p * unat (page_size chip0)) ` set (erased_pages ?E) \<union>
        unat ` set (bad_block_reports ?E) =
        (\<lambda>i. unat (0 :: u32) + i * unat (block_size chip0)) ` {..<3}"
    using t unfolding evs n3 by (simp only: erase_cmd_def rx0_def np_rx.simps)
  have rg0: "\<forall>p \<in> set (erased_pages ?E).
         unat p * unat (page_size chip0) < unat (0 :: u32) + unat (0x60000 :: u32)"
  proof -
    have "\<forall>b \<in> set (bad_block_table ?W).
           \<not> (unat (rx_addr ?R) \<le> unat b \<and> unat b < unat (rx_addr ?R) + unat (rx_len ?R))"
      by (simp add: erase_cmd_def rx0_def)
    with rg have "\<forall>p \<in> set (erased_pages evs).
              unat p * unat (page_size chip0) < unat (rx_addr ?R) + unat (rx_len ?R)"
      by blast
    then show ?thesis
      unfolding evs by (simp only: erase_cmd_def rx0_def np_rx.simps)
  qed
  have rg': "list_all (\<lambda>p. unat p * unat (page_size chip0) < unat (0 :: u32) + unat (0x60000 :: u32))
        (erased_pages ?E)"
    using rg0 by (simp only: list_all_iff)
  have d': "list_all (\<lambda>(p, st).
         (st = NAND_ERROR \<longleftrightarrow> p * page_size chip0 \<in> set (bad_block_reports ?E)))
        (erase_calls ?E)"
    unfolding list_all_iff using d unfolding evs by fast
  show ?thesis
    using run t' rg' d' by (intro conjI)
qed

theorem erase_outside_range_counterexample:
  "np_cmd_nand_erase (prog0\<lparr>chip_info := Some chip0\<rparr>)
      (world0\<lparr>bad_block_table := [0]\<rparr>) (erase_cmd 0 0x20000) =
     Some (0, prog0\<lparr>chip_info := Some chip0\<rparr>,
       world0\<lparr>bad_block_table := [0],
         trace := [Led_wr_set True, Send (RESP_BAD_BLOCK 0), Nand_erase_block 64 NAND_READY,
           Send RESP_OK, Led_wr_set False]\<rparr>)
   \<and> unat (64 * page_size chip0) = unat (0 :: u32) + unat (0x20000 :: u32)
   \<and> np_cmd_nand_erase (prog0\<lparr>chip_info := Some chip0\<rparr>)
      (world0\<lparr>nand_reply := (\<lambda>i. NAND_TIMEOUT_ERROR)\<rparr>) (erase_cmd 0 0x20000) =
     Some (0, prog0\<lparr>chip_info := Some chip0\<rparr>,
       world0\<lparr>nand_reply := (\<lambda>i. NAND_TIMEOUT_ERROR),
         trace := [Led_wr_set True, Nand_erase_block 0 NAND_TIMEOUT_ERROR,
           Error_print ''NAND erase timeout at 0x%lx'' [0], Send RESP_OK, Led_wr_set False]\<rparr>)"
proof -
  have "np_erase_loop chip0 0x20000 64 0 0 0x20000
      (world0\<lparr>bad_block_table := [0], trace := [Led_wr_set True]\<rparr>) =
    Some (0, world0\<lparr>bad_block_table := [0],
         trace := [Led_wr_set True, Send (RESP_BAD_BLOCK 0), Nand_erase_block 64 NAND_READY,
           Send RESP_OK]\<rparr>)"
    apply (subst np_erase_loop.simps, simp add: erase_eval_defs)
    apply (subst np_erase_loop.simps, simp add: erase_eval_defs)
    apply (subst np_erase_loop.simps, simp add: erase_eval_defs)
    done
  moreover have "np_erase_loop chip0 0x20000 64 0 0 0x20000
      (world0\<lparr>nand_reply := (\<lambda>i. NAND_TIMEOUT_ERROR), trace := [Led_wr_set True]\<rparr>) =
    Some (0, world0\<lparr>nand_reply := (\<lambda>i. NAND_TIMEOUT_ERROR),
         trace := [Led_wr_set True, Nand_erase_block 0 NAND_TIMEOUT_ERROR,
           Error_print ''NAND erase timeout at 0x%lx'' [0], Send RESP_OK]\<rparr>)"
    apply (subst np_erase_loop.simps, simp add: erase_eval_defs)
    apply (subst np_erase_loop.simps, simp add: erase_eval_defs)
    done
  ultimately show ?thesis
    by (simp add: np_cmd_nand_erase_def np_cmd_nand_erase_inner_def erase_cmd_def rx0_def
        emit_def chip0_simps world0_simps NP_CMD_NAND_ERASE_def)
qed

text \<open>
  C9. During any erase command, on a chip whose page and block sizes are powers of two,
  the erase-block primitive is never called for a block that starts at or beyond the
  chip size, and the command returns. When the block cursor of the loop is at or past
  the chip end while length remains, the loop returns the address-exceeded error and
  erases nothing.
\<close>

theorem erase_stays_inside_chip:
  assumes geo: "page_size ci = 2 ^ j" "block_size ci = 2 ^ k" "j \<le> k" "k < 32"
      "unat (chip_size ci) + 2 ^ k \<le> 2 ^ 32"
    and ci: "chip_info prog = Some ci"
  shows "\<exists>r evs.
      np_cmd_nand_erase prog w rx = Some (r, prog, w\<lparr>trace := trace w @ evs\<rparr>)
    \<and> (\<forall>p \<in> set (erased_pages evs). unat p * unat (page_size ci) < unat (chip_size ci))
    \<and> (\<forall>cmd_len pib a pg l v. l \<noteq> 0 \<and> chip_size ci \<le> a \<longrightarrow>
          np_erase_loop ci cmd_len pib a pg l v =
            Some (NP_ERR_ADDR_EXCEEDED,
              error_print ''Erase address 0x%lx is more then chip size 0x%lx''
                [a, chip_size ci] v))"
proof -
  have j: "j < 32"
    using geo(3,4) by simp
  have ps: "unat (page_size ci) = 2 ^ j"
    using geo(1) j by (simp add: unat_pow2_32)
  from np_cmd_nand_erase_run [OF geo ci, of w rx]
  obtain r evs n where
    run: "np_cmd_nand_erase prog w rx = Some (r, prog, w\<lparr>trace := trace w @ evs\<rparr>)"
    and post: "erase_post ci j k (rx_len rx) (bad_block_table w) (rx_addr rx) (rx_len rx) evs n"
    by blast
  have b: "\<forall>p \<in> set (erased_pages evs). unat p * unat (page_size ci) < unat (chip_size ci)"
    using erase_post_bounds [OF post] by (simp add: ps)
  have g: "np_erase_loop ci cmd_len pib a pg l v =
            Some (NP_ERR_ADDR_EXCEEDED,
              error_print ''Erase address 0x%lx is more then chip size 0x%lx''
                [a, chip_size ci] v)"
    if "l \<noteq> 0" "chip_size ci \<le> a" for cmd_len pib a pg l v
    using that by (subst np_erase_loop.simps) simp
  from run b g show ?thesis
    by blast
qed

theorem erase_stays_inside_chip_witness:
  "np_cmd_nand_erase (prog0\<lparr>chip_info := Some chip0\<rparr>)
      (world0\<lparr>bad_block_table := [0x3FE0000]\<rparr>) (erase_cmd 0x3FE0000 0x20000) =
     Some (NP_ERR_ADDR_EXCEEDED, prog0\<lparr>chip_info := Some chip0\<rparr>,
       world0\<lparr>bad_block_table := [0x3FE0000],
         trace := [Led_wr_set True, Send (RESP_BAD_BLOCK 0x3FE0000),
           Error_print ''Erase address 0x%lx is more then chip size 0x%lx''
             [0x4000000, 0x4000000],
           Led_wr_set False]\<rparr>)
   \<and> (\<exists>r evs.
      np_cmd_nand_erase (prog0\<lparr>chip_info := Some chip0\<rparr>)
        (world0\<lparr>bad_block_table := [0x3FE0000]\<rparr>) (erase_cmd 0x3FE0000 0x20000) =
        Some (r, prog0\<lparr>chip_info := Some chip0\<rparr>,
          world0\<lparr>bad_block_table := [0x3FE0000], trace := evs\<rparr>)
    \<and> (\<forall>p \<in> set (erased_pages evs). unat p * 2048 < 67108864))"
proof -
  have "np_erase_loop chip0 0x20000 64 0x3FE0000 0x7FC0 0x20000
      (world0\<lparr>bad_block_table := [0x3FE0000], trace := [Led_wr_set True]\<rparr>) =
    Some (NP_ERR_ADDR_EXCEEDED, world0\<lparr>bad_block_table := [0x3FE0000],
         trace := [Led_wr_set True, Send (RESP_BAD_BLOCK 0x3FE0000),
           Error_print ''Erase address 0x%lx is more then chip size 0x%lx''
             [0x4000000, 0x4000000]]\<rparr>)"
    apply (subst np_erase_loop.simps, simp add: erase_eval_defs)
    apply (subst np_erase_loop.simps, simp add: erase_eval_defs)
    done
  then have "np_cmd_nand_erase (prog0\<lparr>chip_info := Some chip0\<rparr>)
      (world0\<lparr>bad_block_table := [0x3FE0000]\<rparr>) (erase_cmd 0x3FE0000 0x20000) =
     Some (NP_ERR_ADDR_EXCEEDED, prog0\<lparr>chip_info := Some chip0\<rparr>,
       world0\<lparr>bad_block_table := [0x3FE0000],
         trace := [Led_wr_set True, Send (RESP_BAD_BLOCK 0x3FE0000),
           Error_print ''Erase address 0x%lx is more then chip size 0x%lx''
             [0x4000000, 0x4000000],
           Led_wr_set False]\<rparr>)"
    by (simp add: np_cmd_nand_erase_def np_cmd_nand_erase_inner_def erase_cmd_def rx0_def
        emit_def chip0_simps world0_simps NP_CMD_NAND_ERASE_def)
  moreover have "\<exists>r evs.
      np_cmd_nand_erase (prog0\<lparr>chip_info := Some chip0\<rparr>)
        (world0\<lparr>bad_block_table := [0x3FE0000]\<rparr>) (erase_cmd 0x3FE0000 0x20000) =
        Some (r, prog0\<lparr>chip_info := Some chip0\<rparr>,
          world0\<lparr>bad_block_table := [0x3FE0000], trace := evs\<rparr>)
    \<and> (\<forall>p \<in> set (erased_pages evs). unat p * 2048 < 67108864)"
    using erase_stays_inside_chip [of chip0 11 17 "prog0\<lparr>chip_info := Some chip0\<rparr>"
        "world0\<lparr>bad_block_table := [0x3FE0000]\<rparr>" "erase_cmd 0x3FE0000 0x20000"]
    by (simp add: chip0_simps world0_simps) blast
  ultimately show ?thesis
    by blast
qed

section \<open>The completion poll and the wait for the previous page write\<close>

lemma hs_ready:
  assumes "nand_reply w (length (trace w)) = NAND_READY"
  shows "np_nand_handle_status prog w =
    (0, prog\<lparr>nand_wr_in_progress := False, nand_timeout := 0\<rparr>,
      w\<lparr>trace := trace w @ [Nand_read_status NAND_READY]\<rparr>)"
  using assms by (simp add: np_nand_handle_status_def nand_read_status_def Let_def emit_def)

lemma hs_error:
  assumes "nand_reply w (length (trace w)) = NAND_ERROR"
  shows "np_nand_handle_status prog w =
    (if send_fails w (Suc (length (trace w))) then - 1 else 0,
     if send_fails w (Suc (length (trace w))) then prog
     else prog\<lparr>nand_wr_in_progress := False, nand_timeout := 0\<rparr>,
     w\<lparr>trace := trace w @ [Nand_read_status NAND_ERROR, Send (RESP_BAD_BLOCK (addr prog))]\<rparr>)"
  using assms
  by (simp add: np_nand_handle_status_def nand_read_status_def Let_def emit_def
      np_send_bad_block_info_def comm_send_def)

lemma hs_busy:
  assumes "nand_reply w (length (trace w)) = NAND_BUSY"
  shows "np_nand_handle_status prog w =
    (if nand_timeout prog + 1 = NP_NAND_TIMEOUT
     then (- 1, prog\<lparr>nand_wr_in_progress := False, nand_timeout := 0\<rparr>,
       w\<lparr>trace := trace w @ [Nand_read_status NAND_BUSY,
         Error_print ''NAND write timeout at 0x%lx'' [addr prog]]\<rparr>)
     else (0, prog\<lparr>nand_timeout := nand_timeout prog + 1\<rparr>,
       w\<lparr>trace := trace w @ [Nand_read_status NAND_BUSY]\<rparr>))"
  using assms
  by (simp add: np_nand_handle_status_def nand_read_status_def Let_def emit_def error_print_def)

lemma hs_unknown:
  assumes "nand_reply w (length (trace w)) = st" "st = NAND_TIMEOUT_ERROR \<or> st = NAND_OTHER"
  shows "np_nand_handle_status prog w =
    (- 1, prog\<lparr>nand_wr_in_progress := False, nand_timeout := 0\<rparr>,
      w\<lparr>trace := trace w @ [Nand_read_status st, Error_print ''Unknown NAND status'' []]\<rparr>)"
  using assms
  by (auto simp: np_nand_handle_status_def nand_read_status_def Let_def emit_def error_print_def)


lemma np_nand_write_wait_result:
  assumes "nand_wr_in_progress prog"
  shows "\<exists>r b t m res. np_nand_write_wait prog w =
      (r, prog\<lparr>nand_wr_in_progress := b, nand_timeout := t\<rparr>,
        w\<lparr>trace := trace w @ replicate m (Nand_read_status NAND_BUSY) @ res\<rparr>)
    \<and> (r = 0 \<and> \<not> b \<and> t = 0 \<and>
         (res = [Nand_read_status NAND_READY] \<or>
          res = [Nand_read_status NAND_ERROR, Send (RESP_BAD_BLOCK (addr prog))])
       \<or> r = - 1 \<and> page_writes res = [] \<and> write_acks res = [] \<and> error_responses res = [])"
  using assms
proof (induction prog w rule: np_nand_write_wait.induct)
  case (1 prog w)
  let ?B = "Nand_read_status NAND_BUSY"
  let ?Q = "\<lambda>prog r b t res. r = 0 \<and> \<not> b \<and> t = 0 \<and>
         (res = [Nand_read_status NAND_READY] \<or>
          res = [Nand_read_status NAND_ERROR, Send (RESP_BAD_BLOCK (addr prog))])
       \<or> r = - 1 \<and> page_writes res = [] \<and> write_acks res = [] \<and> error_responses res = []"
  have fin: ?case
    if "np_nand_write_wait prog w =
      (r, prog\<lparr>nand_wr_in_progress := b, nand_timeout := t\<rparr>,
        w\<lparr>trace := trace w @ replicate m ?B @ res\<rparr>)" "?Q prog r b t res"
    for r b t m res
    using that by blast
  show ?case
  proof (cases "nand_reply w (length (trace w))")
    case NAND_READY
    have "np_nand_write_wait prog w =
      (0, prog\<lparr>nand_wr_in_progress := False, nand_timeout := 0\<rparr>,
        w\<lparr>trace := trace w @ replicate 0 ?B @ [Nand_read_status NAND_READY]\<rparr>)"
      by (subst np_nand_write_wait.simps) (simp add: hs_ready [OF NAND_READY])
    then show ?thesis
      by (rule fin) simp
  next
    case NAND_ERROR
    show ?thesis
    proof (cases "send_fails w (Suc (length (trace w)))")
      case True
      have "np_nand_write_wait prog w =
        (- 1, prog\<lparr>nand_wr_in_progress := nand_wr_in_progress prog,
            nand_timeout := nand_timeout prog\<rparr>,
          w\<lparr>trace := trace w @ replicate 0 ?B @
            [Nand_read_status NAND_ERROR, Send (RESP_BAD_BLOCK (addr prog))]\<rparr>)"
        using True by (subst np_nand_write_wait.simps) (simp add: hs_error [OF NAND_ERROR])
      then show ?thesis
        by (rule fin) simp
    next
      case False
      have "np_nand_write_wait prog w =
        (0, prog\<lparr>nand_wr_in_progress := False, nand_timeout := 0\<rparr>,
          w\<lparr>trace := trace w @ replicate 0 ?B @
            [Nand_read_status NAND_ERROR, Send (RESP_BAD_BLOCK (addr prog))]\<rparr>)"
        using False by (subst np_nand_write_wait.simps) (simp add: hs_error [OF NAND_ERROR])
      then show ?thesis
        by (rule fin) simp
    qed
  next
    case NAND_TIMEOUT_ERROR
    have "np_nand_write_wait prog w =
      (- 1, prog\<lparr>nand_wr_in_progress := False, nand_timeout := 0\<rparr>,
        w\<lparr>trace := trace w @ replicate 0 ?B @
          [Nand_read_status NAND_TIMEOUT_ERROR, Error_print ''Unknown NAND status'' []]\<rparr>)"
      by (subst np_nand_write_wait.simps)
        (simp add: hs_unknown [OF NAND_TIMEOUT_ERROR disjI1 [OF refl]])
    then show ?thesis
      by (rule fin) simp
  next
    case NAND_OTHER
    have "np_nand_write_wait prog w =
      (- 1, prog\<lparr>nand_wr_in_progress := False, nand_timeout := 0\<rparr>,
        w\<lparr>trace := trace w @ replicate 0 ?B @
          [Nand_read_status NAND_OTHER, Error_print ''Unknown NAND status'' []]\<rparr>)"
      by (subst np_nand_write_wait.simps)
        (simp add: hs_unknown [OF NAND_OTHER disjI2 [OF refl]])
    then show ?thesis
      by (rule fin) simp
  next
    case NAND_BUSY
    show ?thesis
    proof (cases "nand_timeout prog + 1 = NP_NAND_TIMEOUT")
      case True
      have "np_nand_write_wait prog w =
        (- 1, prog\<lparr>nand_wr_in_progress := False, nand_timeout := 0\<rparr>,
          w\<lparr>trace := trace w @ replicate 1 ?B @
            [Error_print ''NAND write timeout at 0x%lx'' [addr prog]]\<rparr>)"
        using True by (subst np_nand_write_wait.simps) (simp add: hs_busy [OF NAND_BUSY])
      then show ?thesis
        by (rule fin) simp
    next
      case False
      define prog1 where "prog1 = prog\<lparr>nand_timeout := nand_timeout prog + 1\<rparr>"
      define w1 where "w1 = w\<lparr>trace := trace w @ [?B]\<rparr>"
      have hs: "np_nand_handle_status prog w = (0, prog1, w1)"
        using False by (simp add: hs_busy [OF NAND_BUSY] prog1_def w1_def)
      have f1: "nand_wr_in_progress prog1"
        using "1.prems" by (simp add: prog1_def)
      have st: "np_nand_write_wait prog w = np_nand_write_wait prog1 w1"
        using hs f1 by (subst np_nand_write_wait.simps) simp
      have "\<exists>r b t m res. np_nand_write_wait prog1 w1 =
          (r, prog1\<lparr>nand_wr_in_progress := b, nand_timeout := t\<rparr>,
            w1\<lparr>trace := trace w1 @ replicate m ?B @ res\<rparr>) \<and> ?Q prog1 r b t res"
        by (rule "1.IH" [OF hs [symmetric] refl _ f1 f1]) simp
      then obtain r b t m res where
        ih: "np_nand_write_wait prog1 w1 =
          (r, prog1\<lparr>nand_wr_in_progress := b, nand_timeout := t\<rparr>,
            w1\<lparr>trace := trace w1 @ replicate m ?B @ res\<rparr>)" "?Q prog1 r b t res"
        by blast
      have "np_nand_write_wait prog w =
          (r, prog\<lparr>nand_wr_in_progress := b, nand_timeout := t\<rparr>,
            w\<lparr>trace := trace w @ replicate (Suc m) ?B @ res\<rparr>)"
        using st ih(1) by (simp add: prog1_def w1_def)
      moreover have "?Q prog r b t res"
        using ih(2) by (simp add: prog1_def)
      ultimately show ?thesis
        by (rule fin)
    qed
  qed
qed


lemma np_nand_write_idle:
  assumes "\<not> nand_wr_in_progress prog"
  shows "np_nand_write prog ci w =
    (0, prog\<lparr>nand_wr_in_progress := True\<rparr>,
      w\<lparr>trace := trace w @
        [Nand_write_page_async (take (unat (page_size ci)) (page_buf prog)) (page_page prog)
           (page_size ci)]\<rparr>)"
  using assms by (simp add: np_nand_write_def nand_write_page_async_def emit_def)

lemma np_nand_write_busy:
  assumes "nand_wr_in_progress prog"
  shows "\<exists>r b t m res. np_nand_write prog ci w =
      (r, prog\<lparr>nand_wr_in_progress := b, nand_timeout := t\<rparr>,
        w\<lparr>trace := trace w @ replicate m (Nand_read_status NAND_BUSY) @ res\<rparr>)
    \<and> (r = 0 \<and> b \<and> t = 0 \<and>
         (res = [Nand_read_status NAND_READY,
                 Nand_write_page_async (take (unat (page_size ci)) (page_buf prog))
                   (page_page prog) (page_size ci)] \<or>
          res = [Nand_read_status NAND_ERROR, Send (RESP_BAD_BLOCK (addr prog)),
                 Nand_write_page_async (take (unat (page_size ci)) (page_buf prog))
                   (page_page prog) (page_size ci)])
       \<or> r = - 1 \<and> page_writes res = [] \<and> write_acks res = [] \<and> error_responses res = [])"
proof -
  let ?W = "Nand_write_page_async (take (unat (page_size ci)) (page_buf prog)) (page_page prog)
                   (page_size ci)"
  from np_nand_write_wait_result [OF assms, of w]
  obtain r b t m res where
    wt: "np_nand_write_wait prog w =
      (r, prog\<lparr>nand_wr_in_progress := b, nand_timeout := t\<rparr>,
        w\<lparr>trace := trace w @ replicate m (Nand_read_status NAND_BUSY) @ res\<rparr>)"
    and q: "r = 0 \<and> \<not> b \<and> t = 0 \<and>
         (res = [Nand_read_status NAND_READY] \<or>
          res = [Nand_read_status NAND_ERROR, Send (RESP_BAD_BLOCK (addr prog))])
       \<or> r = - 1 \<and> page_writes res = [] \<and> write_acks res = [] \<and> error_responses res = []"
    by blast
  show ?thesis
  proof (cases "r = 0")
    case True
    then have "np_nand_write prog ci w =
      (0, prog\<lparr>nand_wr_in_progress := True, nand_timeout := 0\<rparr>,
        w\<lparr>trace := trace w @ replicate m (Nand_read_status NAND_BUSY) @ (res @ [?W])\<rparr>)"
      using assms wt q
      by (simp add: np_nand_write_def nand_write_page_async_def emit_def)
    moreover have "res @ [?W] = [Nand_read_status NAND_READY, ?W] \<or>
        res @ [?W] = [Nand_read_status NAND_ERROR, Send (RESP_BAD_BLOCK (addr prog)), ?W]"
      using True q by auto
    ultimately show ?thesis
      by blast
  next
    case False
    then have "np_nand_write prog ci w =
      (- 1, prog\<lparr>nand_wr_in_progress := b, nand_timeout := t\<rparr>,
        w\<lparr>trace := trace w @ replicate m (Nand_read_status NAND_BUSY) @ res\<rparr>)"
      using assms wt by (simp add: np_nand_write_def)
    moreover have "page_writes res = [] \<and> write_acks res = [] \<and> error_responses res = []"
      using False q by simp
    ultimately show ?thesis
      by blast
  qed
qed

lemma replicate_busy_quiet [simp]:
  "page_writes (replicate m (Nand_read_status st)) = []"
  "write_acks (replicate m (Nand_read_status st)) = []"
  "error_responses (replicate m (Nand_read_status st)) = []"
  by (induction m) simp_all

lemma np_nand_write_frame:
  "\<exists>r b t evs. np_nand_write prog ci w =
      (r, prog\<lparr>nand_wr_in_progress := b, nand_timeout := t\<rparr>, w\<lparr>trace := trace w @ evs\<rparr>)
    \<and> write_acks evs = [] \<and> error_responses evs = []
    \<and> (r = 0 \<and> b \<and> page_writes evs = [take (unat (page_size ci)) (page_buf prog)]
       \<or> r = - 1 \<and> page_writes evs = [])"
proof (cases "nand_wr_in_progress prog")
  case True
  from np_nand_write_busy [OF True, of ci w]
  obtain r b t m res where
    a: "np_nand_write prog ci w =
      (r, prog\<lparr>nand_wr_in_progress := b, nand_timeout := t\<rparr>,
        w\<lparr>trace := trace w @ replicate m (Nand_read_status NAND_BUSY) @ res\<rparr>)"
    and q: "r = 0 \<and> b \<and> t = 0 \<and>
         (res = [Nand_read_status NAND_READY,
                 Nand_write_page_async (take (unat (page_size ci)) (page_buf prog))
                   (page_page prog) (page_size ci)] \<or>
          res = [Nand_read_status NAND_ERROR, Send (RESP_BAD_BLOCK (addr prog)),
                 Nand_write_page_async (take (unat (page_size ci)) (page_buf prog))
                   (page_page prog) (page_size ci)])
       \<or> r = - 1 \<and> page_writes res = [] \<and> write_acks res = [] \<and> error_responses res = []"
    by blast
  let ?evs = "replicate m (Nand_read_status NAND_BUSY) @ res"
  have "write_acks ?evs = [] \<and> error_responses ?evs = []
    \<and> (r = 0 \<and> b \<and> page_writes ?evs = [take (unat (page_size ci)) (page_buf prog)]
       \<or> r = - 1 \<and> page_writes ?evs = [])"
    using q by auto
  with a show ?thesis
    by blast
next
  case False
  have "np_nand_write prog ci w =
    (0, prog\<lparr>nand_wr_in_progress := True, nand_timeout := nand_timeout prog\<rparr>,
      w\<lparr>trace := trace w @
        [Nand_write_page_async (take (unat (page_size ci)) (page_buf prog)) (page_page prog)
           (page_size ci)]\<rparr>)"
    using np_nand_write_idle [OF False, of ci w] by simp
  then show ?thesis
    by (intro exI [of _ 0] exI [of _ True] exI [of _ "nand_timeout prog"]
        exI [of _ "[Nand_write_page_async (take (unat (page_size ci)) (page_buf prog))
          (page_page prog) (page_size ci)]"]) simp
qed

section \<open>Write-data\<close>

lemma np_cmd_nand_write_data_rest_result:
  assumes "np_cmd_nand_write_data_rest prog ci w rx l wl = Some (r, prog', w')"
  shows "\<exists>buf off ack evs.
      prog' = prog\<lparr>page_buf := buf, page_offset := off,
        bytes_written := bytes_written prog + l, bytes_ack := ack\<rparr>
    \<and> w' = w\<lparr>trace := trace w @ evs\<rparr>
    \<and> page_writes evs = [] \<and> error_responses evs = []
    \<and> (if l - wl \<noteq> 0
        then memcpy (page_buf prog) 0 (rx_data rx) (unat wl) (unat (l - wl)) = Some buf \<and>
             off = page_offset prog + (l - wl)
        else buf = page_buf prog \<and> off = page_offset prog)
    \<and> (write_acks evs = [] \<and> ack = bytes_ack prog \<and>
         bytes_written prog + l \<noteq> len prog \<and> r \<in> {0, NP_ERR_LEN_EXCEEDED}
       \<or> write_acks evs = [bytes_written prog + l] \<and>
         (r = - 1 \<and> ack = bytes_ack prog \<or>
          r \<in> {0, NP_ERR_LEN_EXCEEDED} \<and> ack = bytes_written prog + l))
    \<and> (r = 0 \<longrightarrow> \<not> bytes_written prog + l > len prog)
    \<and> (\<forall>m args. Error_print m args \<in> set evs \<longrightarrow>
          m = ''Actual write data length 0x%lx is more then 0x%lx'')"
proof -
  define bl where "bl = l - wl"
  define prog1 where "prog1 =
    (if bl \<noteq> 0
     then map_option (\<lambda>buf. prog\<lparr>page_buf := buf, page_offset := page_offset prog + bl\<rparr>)
            (memcpy (page_buf prog) 0 (rx_data rx) (unat wl) (unat bl))
     else Some prog)"
  note a = assms [unfolded np_cmd_nand_write_data_rest_def Let_def, folded bl_def,
      folded prog1_def]
  from a obtain p1 where p1: "prog1 = Some p1"
    by (cases prog1) simp_all
  then obtain buf off where
    bo: "p1 = prog\<lparr>page_buf := buf, page_offset := off\<rparr>"
      "if bl \<noteq> 0
        then memcpy (page_buf prog) 0 (rx_data rx) (unat wl) (unat bl) = Some buf \<and>
             off = page_offset prog + bl
        else buf = page_buf prog \<and> off = page_offset prog"
    by (cases "bl = 0") (auto simp: prog1_def)
  define bw where "bw = bytes_written prog + l"
  define acked where "acked \<longleftrightarrow> bw - bytes_ack prog \<ge> page_size ci \<or> bw = len prog"
  define sf where "sf = send_fails w (length (trace w))"
  define ex where "ex \<longleftrightarrow> bw > len prog"
  note defs = np_send_write_ack_def comm_send_def emit_def error_print_def
    NP_ERR_LEN_EXCEEDED_def bo(1)
  let ?goal = "\<lambda>ack evs.
      prog' = prog\<lparr>page_buf := buf, page_offset := off, bytes_written := bw, bytes_ack := ack\<rparr>
    \<and> w' = w\<lparr>trace := trace w @ evs\<rparr>
    \<and> page_writes evs = [] \<and> error_responses evs = []
    \<and> (write_acks evs = [] \<and> ack = bytes_ack prog \<and> bw \<noteq> len prog \<and>
          r \<in> {0, NP_ERR_LEN_EXCEEDED}
       \<or> write_acks evs = [bw] \<and>
         (r = - 1 \<and> ack = bytes_ack prog \<or> r \<in> {0, NP_ERR_LEN_EXCEEDED} \<and> ack = bw))
    \<and> (r = 0 \<longrightarrow> \<not> bw > len prog)
    \<and> (\<forall>m args. Error_print m args \<in> set evs \<longrightarrow>
          m = ''Actual write data length 0x%lx is more then 0x%lx'')"
  have "\<exists>ack evs. ?goal ack evs"
  proof (cases acked)
    case True
    show ?thesis
    proof (cases sf)
      case True
      with \<open>acked\<close> a p1 have "?goal (bytes_ack prog) [Send (RESP_WRITE_ACK bw)]"
        unfolding acked_def sf_def ex_def bw_def by (auto simp: defs)
      then show ?thesis by blast
    next
      case False
      show ?thesis
      proof (cases ex)
        case True
        with \<open>acked\<close> \<open>\<not> sf\<close> a p1 have "?goal bw [Send (RESP_WRITE_ACK bw),
                      Error_print ''Actual write data length 0x%lx is more then 0x%lx''
                        [bw, len prog]]"
          unfolding acked_def sf_def ex_def bw_def by (auto simp: defs)
        then show ?thesis by blast
      next
        case False
        with \<open>acked\<close> \<open>\<not> sf\<close> a p1 have "?goal bw [Send (RESP_WRITE_ACK bw)]"
          unfolding acked_def sf_def ex_def bw_def by (auto simp: defs)
        then show ?thesis by blast
      qed
    qed
  next
    case False
    then have ne: "bw \<noteq> len prog"
      by (simp add: acked_def)
    show ?thesis
    proof (cases ex)
      case True
      with \<open>\<not> acked\<close> a p1 ne have "?goal (bytes_ack prog)
          [Error_print ''Actual write data length 0x%lx is more then 0x%lx'' [bw, len prog]]"
        unfolding acked_def sf_def ex_def bw_def by (auto simp: defs)
      then show ?thesis by blast
    next
      case False
      with \<open>\<not> acked\<close> a p1 ne have "?goal (bytes_ack prog) []"
        unfolding acked_def sf_def ex_def bw_def by (auto simp: defs)
      then show ?thesis by blast
    qed
  qed
  then show ?thesis
    using bo(2) unfolding bw_def bl_def by blast
qed

lemma np_cmd_nand_write_data_unfold:
  assumes "unat (rx_data_len rx) + np_write_data_hdr_size \<le> NP_PACKET_BUF_SIZE"
    and "addr_is_set prog" and "chip_info prog = Some ci" and "addr prog < chip_size ci"
    and "wl = (if page_offset prog + ucast (rx_data_len rx) > page_size ci
             then page_size ci - page_offset prog else ucast (rx_data_len rx))"
    and "memcpy (page_buf prog) (unat (page_offset prog)) (rx_data rx) 0 (unat wl) = Some buf"
  shows "np_cmd_nand_write_data prog w rx =
     (if page_offset prog + wl = page_size ci then
        (case np_nand_write (prog\<lparr>page_buf := buf, page_offset := page_size ci\<rparr>) ci w of
           (r, prog2, w2) \<Rightarrow>
             if r \<noteq> 0 then Some (NP_ERR_NAND_WR, prog2, w2)
             else
               np_cmd_nand_write_data_rest
                 (prog2\<lparr>addr := addr prog2 + page_size ci,
                    page_page := page_page prog2 + 1, page_offset := 0\<rparr>)
                 ci w2 rx (ucast (rx_data_len rx)) wl)
      else np_cmd_nand_write_data_rest
             (prog\<lparr>page_buf := buf, page_offset := page_offset prog + wl\<rparr>)
             ci w rx (ucast (rx_data_len rx)) wl)"
proof -
  have sz: "\<not> unat (ucast (rx_data_len rx) :: u32) + np_write_data_hdr_size > NP_PACKET_BUF_SIZE"
    using assms(1) by (simp add: unat_ucast_8_32)
  have lt: "\<not> chip_size ci \<le> addr prog"
    using assms(4) by (simp add: not_le)
  show ?thesis
  proof (cases "page_offset prog + ucast (rx_data_len rx) > page_size ci")
    case True
    then have wl: "wl = page_size ci - page_offset prog"
      using assms(5) by simp
    have full: "page_offset prog + wl = page_size ci"
      by (simp add: wl)
    show ?thesis
      unfolding wl
      using sz lt assms(2,3) assms(6) [unfolded wl] True
      by (simp add: np_cmd_nand_write_data_def Let_def)
  next
    case False
    then have wl: "wl = ucast (rx_data_len rx)"
      using assms(5) by simp
    show ?thesis
      unfolding wl
      using sz lt assms(2,3) assms(6) [unfolded wl] False
      by (simp add: np_cmd_nand_write_data_def Let_def)
  qed
qed

lemma np_cmd_nand_write_data_cases:
  assumes "np_cmd_nand_write_data prog w rx = Some (r, prog', w')"
  obtains
    (reject) m args where "prog' = prog" "w' = w\<lparr>trace := trace w @ [Error_print m args]\<rparr>"
      "r = NP_ERR_CMD_DATA_SIZE \<or> r = NP_ERR_ADDR_INVALID \<or> r = NP_ERR_ADDR_EXCEEDED"
      "m \<noteq> ''NAND write timeout at 0x%lx''"
  | (flush_fail) ci wl buf where
      "chip_info prog = Some ci" "addr_is_set prog" "addr prog < chip_size ci"
      "unat (rx_data_len rx) + np_write_data_hdr_size \<le> NP_PACKET_BUF_SIZE"
      "wl = (if page_offset prog + ucast (rx_data_len rx) > page_size ci
             then page_size ci - page_offset prog else ucast (rx_data_len rx))"
      "memcpy (page_buf prog) (unat (page_offset prog)) (rx_data rx) 0 (unat wl) = Some buf"
      "page_offset prog + wl = page_size ci"
      "r = NP_ERR_NAND_WR"
      "np_nand_write (prog\<lparr>page_buf := buf, page_offset := page_size ci\<rparr>) ci w =
         (- 1, prog', w')"
  | (flush_ok) ci wl buf prog2 w2 where
      "chip_info prog = Some ci" "addr_is_set prog" "addr prog < chip_size ci"
      "unat (rx_data_len rx) + np_write_data_hdr_size \<le> NP_PACKET_BUF_SIZE"
      "wl = (if page_offset prog + ucast (rx_data_len rx) > page_size ci
             then page_size ci - page_offset prog else ucast (rx_data_len rx))"
      "memcpy (page_buf prog) (unat (page_offset prog)) (rx_data rx) 0 (unat wl) = Some buf"
      "page_offset prog + wl = page_size ci"
      "np_nand_write (prog\<lparr>page_buf := buf, page_offset := page_size ci\<rparr>) ci w =
         (0, prog2, w2)"
      "np_cmd_nand_write_data_rest
         (prog2\<lparr>addr := addr prog2 + page_size ci, page_page := page_page prog2 + 1,
            page_offset := 0\<rparr>) ci w2 rx (ucast (rx_data_len rx)) wl = Some (r, prog', w')"
  | (no_flush) ci wl buf where
      "chip_info prog = Some ci" "addr_is_set prog" "addr prog < chip_size ci"
      "unat (rx_data_len rx) + np_write_data_hdr_size \<le> NP_PACKET_BUF_SIZE"
      "wl = (if page_offset prog + ucast (rx_data_len rx) > page_size ci
             then page_size ci - page_offset prog else ucast (rx_data_len rx))"
      "memcpy (page_buf prog) (unat (page_offset prog)) (rx_data rx) 0 (unat wl) = Some buf"
      "page_offset prog + wl \<noteq> page_size ci"
      "np_cmd_nand_write_data_rest
         (prog\<lparr>page_buf := buf, page_offset := page_offset prog + wl\<rparr>) ci w rx
         (ucast (rx_data_len rx)) wl = Some (r, prog', w')"
proof -
  define l where "l = (ucast (rx_data_len rx) :: u32)"
  have ul: "unat l = unat (rx_data_len rx)"
    by (simp add: l_def unat_ucast_8_32)
  note a = assms [unfolded np_cmd_nand_write_data_def Let_def, folded l_def]
  show ?thesis
  proof (cases "unat l + np_write_data_hdr_size > NP_PACKET_BUF_SIZE")
    case True
    with a show ?thesis
      by (intro reject [of "''Data size is wrong 0x%lx''" "[l]"])
        (auto simp: error_print_def emit_def)
  next
    case sz: False
    show ?thesis
    proof (cases "addr_is_set prog")
      case False
      with a sz show ?thesis
        by (intro reject [of "''Write address is not set''" "[]"])
          (auto simp: error_print_def emit_def)
    next
      case set: True
      from a sz set obtain ci where ci: "chip_info prog = Some ci"
        by (cases "chip_info prog") simp_all
      show ?thesis
      proof (cases "addr prog \<ge> chip_size ci")
        case True
        with a sz set ci show ?thesis
          by (intro reject [of "''Write address 0x%lx is more then chip size 0x%lx''"
                "[addr prog, chip_size ci]"])
            (auto simp: error_print_def emit_def)
      next
        case False
        then have lt: "addr prog < chip_size ci"
          by (simp add: not_le)
        define wl where "wl = (if page_offset prog + l > page_size ci
             then page_size ci - page_offset prog else l)"
        have m: "memcpy (page_buf prog) (unat (page_offset prog)) (rx_data rx) 0 (unat wl) \<noteq> None"
          using a sz set ci False unfolding wl_def by (auto split: option.splits)
        then obtain buf where
          buf: "memcpy (page_buf prog) (unat (page_offset prog)) (rx_data rx) 0 (unat wl) = Some buf"
          by blast
        have sz': "unat (rx_data_len rx) + np_write_data_hdr_size \<le> NP_PACKET_BUF_SIZE"
          using sz ul by simp
        have wl': "wl = (if page_offset prog + ucast (rx_data_len rx) > page_size ci
             then page_size ci - page_offset prog else ucast (rx_data_len rx))"
          by (simp add: wl_def l_def)
        note b = assms [unfolded np_cmd_nand_write_data_unfold [OF sz' set ci lt wl' buf],
            folded l_def]
        show ?thesis
        proof (cases "page_offset prog + wl = page_size ci")
          case full: True
          obtain r2 prog2 w2 where
            nw: "np_nand_write (prog\<lparr>page_buf := buf, page_offset := page_size ci\<rparr>) ci w =
              (r2, prog2, w2)"
            by (metis prod_cases3)
          show ?thesis
          proof (cases "r2 = 0")
            case True
            show ?thesis
              using b buf full nw True sz' ci set lt wl'
              by (intro flush_ok [of ci wl buf prog2 w2]) (simp_all add: l_def)
          next
            case False
            from np_nand_write_frame [of "prog\<lparr>page_buf := buf, page_offset := page_size ci\<rparr>"
                ci w] nw False
            have "r2 = - 1"
              by auto
            then show ?thesis
              using b buf full nw False sz' ci set lt wl'
              by (intro flush_fail [of ci wl buf]) (simp_all add: l_def)
          qed
        next
          case False
          show ?thesis
            using b buf False sz' ci set lt wl'
            by (intro no_flush [of ci wl buf]) (simp_all add: l_def)
        qed
      qed
    qed
  qed
qed

lemma replicate_status_no_print:
  "Error_print m args \<notin> set (replicate k (Nand_read_status st))"
  by simp

lemma np_nand_write_ok_events:
  assumes "np_nand_write prog ci w = (0, prog2, w2)"
  shows "\<exists>t evs. prog2 = prog\<lparr>nand_wr_in_progress := True, nand_timeout := t\<rparr>
    \<and> w2 = w\<lparr>trace := trace w @ evs @
          [Nand_write_page_async (take (unat (page_size ci)) (page_buf prog)) (page_page prog)
             (page_size ci)]\<rparr>
    \<and> page_writes evs = [] \<and> write_acks evs = [] \<and> error_responses evs = []
    \<and> (\<forall>m args. Error_print m args \<notin> set evs)
    \<and> (nand_wr_in_progress prog \<longrightarrow>
         (\<exists>k. evs = replicate k (Nand_read_status NAND_BUSY) @ [Nand_read_status NAND_READY] \<or>
              evs = replicate k (Nand_read_status NAND_BUSY) @
                [Nand_read_status NAND_ERROR, Send (RESP_BAD_BLOCK (addr prog))]))"
proof (cases "nand_wr_in_progress prog")
  case False
  then show ?thesis
    using assms np_nand_write_idle [OF False, of ci w]
    by (intro exI [of _ "nand_timeout prog"] exI [of _ "[]"]) auto
next
  case True
  let ?W = "Nand_write_page_async (take (unat (page_size ci)) (page_buf prog)) (page_page prog)
             (page_size ci)"
  from np_nand_write_busy [OF True, of ci w] assms
  obtain b t m res where
    e: "prog2 = prog\<lparr>nand_wr_in_progress := b, nand_timeout := t\<rparr>"
      "w2 = w\<lparr>trace := trace w @ replicate m (Nand_read_status NAND_BUSY) @ res\<rparr>"
    and q: "b" "res = [Nand_read_status NAND_READY, ?W] \<or>
          res = [Nand_read_status NAND_ERROR, Send (RESP_BAD_BLOCK (addr prog)), ?W]"
    by auto
  from q(2) show ?thesis
  proof
    assume r: "res = [Nand_read_status NAND_READY, ?W]"
    show ?thesis
      using e q(1) r
      by (intro exI [of _ t]
          exI [of _ "replicate m (Nand_read_status NAND_BUSY) @ [Nand_read_status NAND_READY]"])
        auto
  next
    assume r: "res = [Nand_read_status NAND_ERROR, Send (RESP_BAD_BLOCK (addr prog)), ?W]"
    show ?thesis
      using e q(1) r
      by (intro exI [of _ t]
          exI [of _ "replicate m (Nand_read_status NAND_BUSY) @
            [Nand_read_status NAND_ERROR, Send (RESP_BAD_BLOCK (addr prog))]"])
        auto
  qed
qed

lemma np_nand_handler_error:
  assumes "nand_wr_in_progress prog" and "nand_reply w (length (trace w)) = NAND_ERROR"
  shows "bad_block_reports (drop (length (trace w)) (trace (snd (np_nand_handler prog w)))) =
    [addr prog]"
  using assms
  by (simp add: np_nand_handler_def hs_error np_send_error_def comm_send_def emit_def)

lemma np_cmd_nand_write_data_page_issued:
  assumes "np_cmd_nand_write_data prog w rx = Some (r, prog', w')"
    and "trace w' = trace w @ evs" and "page_writes evs \<noteq> []"
  shows "\<exists>ci bs. chip_info prog = Some ci
    \<and> Nand_write_page_async bs (page_page prog) (page_size ci) \<in> set evs
    \<and> nand_wr_in_progress prog' \<and> addr prog' = addr prog + page_size ci"
  using assms(1)
proof (cases rule: np_cmd_nand_write_data_cases)
  case (reject m args)
  then have "evs = [Error_print m args]"
    using assms(2) by simp
  then show ?thesis
    using assms(3) by simp
next
  case (flush_fail ci wl buf)
  from np_nand_write_frame [of "prog\<lparr>page_buf := buf, page_offset := page_size ci\<rparr>" ci w]
    flush_fail(9) assms(2,3)
  show ?thesis
    by auto
next
  case (no_flush ci wl buf)
  from np_cmd_nand_write_data_rest_result [OF no_flush(8)] assms(2,3)
  show ?thesis
    by auto
next
  case (flush_ok ci wl buf prog2 w2)
  define p1 where "p1 = prog\<lparr>page_buf := buf, page_offset := page_size ci\<rparr>"
  let ?W = "Nand_write_page_async (take (unat (page_size ci)) (page_buf p1)) (page_page p1)
             (page_size ci)"
  from np_nand_write_ok_events [OF flush_ok(8) [folded p1_def]]
  obtain t evs1 where
    p2: "prog2 = p1\<lparr>nand_wr_in_progress := True, nand_timeout := t\<rparr>"
    and w2: "w2 = w\<lparr>trace := trace w @ evs1 @ [?W]\<rparr>"
    by blast
  from np_cmd_nand_write_data_rest_result [OF flush_ok(9)]
  obtain buf' off ack evs2 where
    p': "prog' = (prog2\<lparr>addr := addr prog2 + page_size ci, page_page := page_page prog2 + 1,
            page_offset := 0\<rparr>)\<lparr>page_buf := buf', page_offset := off,
        bytes_written := bytes_written prog2 + ucast (rx_data_len rx), bytes_ack := ack\<rparr>"
    and w': "w' = w2\<lparr>trace := trace w2 @ evs2\<rparr>"
    by auto
  have "evs = evs1 @ [?W] @ evs2"
    using assms(2) w' w2 by simp
  then have "?W \<in> set evs"
    by simp
  moreover have "page_page p1 = page_page prog"
    by (simp add: p1_def)
  moreover have "nand_wr_in_progress prog'" "addr prog' = addr prog + page_size ci"
    using p' p2 by (simp_all add: p1_def)
  ultimately show ?thesis
    using flush_ok(1) by auto
qed

lemma prog0_simps:
  "addr prog0 = 0" "len prog0 = 0" "addr_is_set prog0 = False"
  "page_buf prog0 = replicate 2048 0" "page_page prog0 = 0" "page_offset prog0 = 0"
  "bytes_written prog0 = 0" "bytes_ack prog0 = 0" "nand_wr_in_progress prog0 = False"
  "nand_timeout prog0 = 0" "chip_info prog0 = None"
  by (simp_all add: prog0_def)

text \<open>
  C7. When a write-data command has handed a page to the asynchronous page write, the
  session address has already been advanced by one page when the command returns. If
  the completion poller then runs with that write in flight and the flash status
  reads error, the bad-block response it emits carries the advanced address: the
  address at which the page was issued plus the page size, not the address at which it
  was issued.
\<close>

theorem poll_reports_advanced_address:
  assumes "np_cmd_nand_write_data prog w rx = Some (r, prog', w')"
    and "trace w' = trace w @ evs" and "page_writes evs \<noteq> []"
    and "nand_reply w' (length (trace w')) = NAND_ERROR"
  shows "\<exists>ci bs. chip_info prog = Some ci
    \<and> Nand_write_page_async bs (page_page prog) (page_size ci) \<in> set evs
    \<and> nand_wr_in_progress prog' \<and> addr prog' = addr prog + page_size ci
    \<and> bad_block_reports (drop (length (trace w')) (trace (snd (np_nand_handler prog' w')))) =
        [addr prog + page_size ci]"
proof -
  from np_cmd_nand_write_data_page_issued [OF assms(1-3)]
  obtain ci bs where
    a: "chip_info prog = Some ci"
      "Nand_write_page_async bs (page_page prog) (page_size ci) \<in> set evs"
      "nand_wr_in_progress prog'" "addr prog' = addr prog + page_size ci"
    by blast
  from np_nand_handler_error [OF a(3) assms(4)] a
  show ?thesis
    by auto
qed

theorem poll_reports_advanced_address_witness:
  "np_cmd_nand_write_data
     (prog0\<lparr>chip_info := Some chip0, addr_is_set := True, len := 0x1000, page_offset := 0x7FF\<rparr>)
     (world0\<lparr>nand_reply := (\<lambda>i. NAND_ERROR)\<rparr>) (write_data_cmd 1 [0xAB]) =
   Some (0,
     prog0\<lparr>chip_info := Some chip0, addr_is_set := True, len := 0x1000,
       page_buf := replicate 2047 0 @ [0xAB], nand_wr_in_progress := True,
       addr := 0x800, page_page := 1, page_offset := 0, bytes_written := 1\<rparr>,
     world0\<lparr>nand_reply := (\<lambda>i. NAND_ERROR),
       trace := [Nand_write_page_async (replicate 2047 0 @ [0xAB]) 0 0x800]\<rparr>)
   \<and> bad_block_reports (drop 1 (trace (snd (np_nand_handler
       (prog0\<lparr>chip_info := Some chip0, addr_is_set := True, len := 0x1000,
         page_buf := replicate 2047 0 @ [0xAB], nand_wr_in_progress := True,
         addr := 0x800, page_page := 1, page_offset := 0, bytes_written := 1\<rparr>)
       (world0\<lparr>nand_reply := (\<lambda>i. NAND_ERROR),
         trace := [Nand_write_page_async (replicate 2047 0 @ [0xAB]) 0 0x800]\<rparr>))))) = [0x800]"
proof -
  let ?p = "prog0\<lparr>chip_info := Some chip0, addr_is_set := True, len := 0x1000,
    page_offset := 0x7FF\<rparr>"
  let ?w = "world0\<lparr>nand_reply := (\<lambda>i. NAND_ERROR)\<rparr>"
  let ?p' = "prog0\<lparr>chip_info := Some chip0, addr_is_set := True, len := 0x1000,
       page_buf := replicate 2047 0 @ [0xAB], nand_wr_in_progress := True,
       addr := 0x800, page_page := 1, page_offset := 0, bytes_written := 1\<rparr>"
  let ?evs = "[Nand_write_page_async (replicate 2047 0 @ [0xAB]) 0 0x800]"
  let ?w' = "world0\<lparr>nand_reply := (\<lambda>i. NAND_ERROR), trace := ?evs\<rparr>"
  have m: "memcpy (replicate 2048 0) 2047 [0xAB] 0 (Suc 0) =
      Some (replicate 2047 0 @ [0xAB :: u8])"
    by (simp add: memcpy_def)
  have c: "\<not> (2048 :: u32) \<le> 1"
    by (simp add: word_le_nat_alt)
  have e: "np_cmd_nand_write_data ?p ?w (write_data_cmd 1 [0xAB]) = Some (0, ?p', ?w')"
    by (simp add: c np_cmd_nand_write_data_def np_cmd_nand_write_data_rest_def Let_def
        write_data_cmd_def rx0_def prog0_simps chip0_simps world0_simps m
        np_write_data_hdr_size_def NP_PACKET_BUF_SIZE_def np_nand_write_def
        nand_write_page_async_def emit_def)
  from poll_reports_advanced_address [OF e, of ?evs]
  have "bad_block_reports (drop (length (trace ?w')) (trace (snd (np_nand_handler ?p' ?w')))) =
      [addr ?p + page_size chip0]"
    by (simp add: world0_simps)
  with e show ?thesis
    by (simp add: prog0_simps chip0_simps)
qed

section \<open>One page write in flight\<close>







lemma no_page_write_refl [simp]: "no_page_write w w"
  by (simp add: no_page_write_def)

lemma no_page_write_ext:
  "no_page_write w w' \<longleftrightarrow> (\<exists>evs. trace w' = trace w @ evs \<and> page_writes evs = [])"
proof
  assume a: "no_page_write w w'"
  then have "trace w' = trace w @ drop (length (trace w)) (trace w')"
    by (metis append_take_drop_id no_page_write_def)
  with a show "\<exists>evs. trace w' = trace w @ evs \<and> page_writes evs = []"
    unfolding no_page_write_def by blast
next
  assume "\<exists>evs. trace w' = trace w @ evs \<and> page_writes evs = []"
  then show "no_page_write w w'"
    by (auto simp: no_page_write_def)
qed


lemma no_page_write_append:
  "no_page_write w w1 \<Longrightarrow> page_writes evs = [] \<Longrightarrow> trace w2 = trace w1 @ evs \<Longrightarrow>
   no_page_write w w2"
  unfolding no_page_write_ext by auto

lemma flight_refl [simp]: "flight prog w prog w"
  unfolding flight_def by (intro exI [of _ "[]"]) (simp add: in_flight_def wr_flag_def)








lemma no_page_write_emit:
  "page_writes [e] = [] \<Longrightarrow> no_page_write w (emit e w)"
  by (simp add: no_page_write_def emit_def)

lemma no_page_write_error_print [simp]: "no_page_write w (error_print m args w)"
  by (simp add: error_print_def no_page_write_emit)

lemma no_page_write_comm_send [simp]: "no_page_write w (snd (comm_send r w))"
  by (cases r) (simp_all add: comm_send_def no_page_write_emit)

lemma no_page_write_send [simp]:
  "no_page_write w (snd (np_send_ok_status w))"
  "no_page_write w (snd (np_send_error c w))"
  "no_page_write w (snd (np_send_bad_block_info a w))"
  "no_page_write w (snd (np_send_write_ack n w))"
  by (simp_all add: np_send_ok_status_def np_send_error_def np_send_bad_block_info_def
      np_send_write_ack_def comm_send_def no_page_write_emit)


















lemma flight_flag_cong2:
  "nand_wr_in_progress q' = nand_wr_in_progress p' \<Longrightarrow> flight p w p' w' \<Longrightarrow> flight p w q' w'"
  by (simp add: flight_def wr_flag_def)


















section \<open>Write sessions\<close>















































end
